theory Spec2Isabelle
  imports
    Complex_Main
    "HOL-Library.Multiset"
    "HOL-Library.AList"
    "HOL-Library.Product_Lexorder"
begin

section \<open>Python values, dictionaries and errors\<close>

text \<open>
  The values the source stores in property and payload dictionaries.  Python floats are
  idealised as reals.  A Python \<open>dict\<close> keeps insertion order and has distinct keys: it is
  an association list that is read with \<open>map_of\<close> and written with \<open>AList.update\<close>
  (an existing key keeps its place, a new key goes to the end).
\<close>

datatype pyval = PNone | PBool bool | PInt int | PFloat real | PStr string

datatype py_error = TypeError string | KeyError string | IndexError string | RuntimeError string

type_synonym ('k, 'v) dict = "('k \<times> 'v) list"

definition dict_get :: "('k, 'v) dict \<Rightarrow> 'k \<Rightarrow> 'v \<Rightarrow> 'v" where
  "dict_get d k dflt = (case map_of d k of None \<Rightarrow> dflt | Some v \<Rightarrow> v)"

definition dict_keys :: "('k, 'v) dict \<Rightarrow> 'k list" where
  "dict_keys d = map fst d"

definition dict_values :: "('k, 'v) dict \<Rightarrow> 'v list" where
  "dict_values d = map snd d"

section \<open>The graph store (knowledge\_graph.py)\<close>

record node =
  node_id :: string
  node_type :: string
  node_properties :: "(string, pyval) dict"

record edge =
  source_id :: string
  target_id :: string
  edge_type :: string
  edge_properties :: "(string, pyval) dict"

text \<open>What a caller may hand to \<open>add_node\<close> and \<open>add_edge\<close>: the source checks the
  class of its argument with \<open>isinstance\<close>.\<close>

datatype pyobj = NodeObj node | EdgeObj edge | OtherObj pyval

record graph =
  nodes :: "(string, node) dict"
  edges :: "edge list"
  edge_index :: "(string, (string, edge list) dict) dict"
  reverse_edge_index :: "(string, (string, edge list) dict) dict"

definition empty_graph :: graph where
  "empty_graph = \<lparr>nodes = [], edges = [], edge_index = [], reverse_edge_index = []\<rparr>"

definition add_node :: "graph \<Rightarrow> pyobj \<Rightarrow> py_error + graph" where
  "add_node g obj =
     (case obj of
        NodeObj n \<Rightarrow> Inr (g\<lparr>nodes := AList.update (node_id n) n (nodes g)\<rparr>)
      | _ \<Rightarrow> Inl (TypeError ''Expected Node object''))"

text \<open>One index update of \<open>add_edge\<close>: create the entry of the outer key when it is
  missing, create the bucket of the edge type when it is missing, append the edge to it.\<close>

definition index_append ::
  "(string, (string, edge list) dict) dict \<Rightarrow> string \<Rightarrow> edge \<Rightarrow>
   (string, (string, edge list) dict) dict" where
  "index_append idx k e =
     (let idx1 = (if k \<in> set (dict_keys idx) then idx else AList.update k [] idx);
          inner = dict_get idx1 k [];
          inner1 = (if edge_type e \<in> set (dict_keys inner) then inner
                    else AList.update (edge_type e) [] inner);
          inner2 = AList.update (edge_type e) (dict_get inner1 (edge_type e) [] @ [e]) inner1
      in AList.update k inner2 idx1)"

definition add_edge :: "graph \<Rightarrow> pyobj \<Rightarrow> py_error + graph" where
  "add_edge g obj =
     (case obj of
        EdgeObj e \<Rightarrow>
          Inr (g\<lparr>edges := edges g @ [e],
                 edge_index := index_append (edge_index g) (source_id e) e,
                 reverse_edge_index := index_append (reverse_edge_index g) (target_id e) e\<rparr>)
      | _ \<Rightarrow> Inl (TypeError ''Expected Edge object''))"

text \<open>Python truthiness of an optional string argument (\<open>if edge_type:\<close>): \<open>None\<close> and
  the empty string both count as absent.\<close>

definition truthy :: "string option \<Rightarrow> bool" where
  "truthy a = (case a of None \<Rightarrow> False | Some s \<Rightarrow> s \<noteq> [])"

definition index_edges ::
  "(string, (string, edge list) dict) dict \<Rightarrow> string \<Rightarrow> string option \<Rightarrow> edge list" where
  "index_edges idx nid et =
     (case map_of idx nid of
        None \<Rightarrow> []
      | Some inner \<Rightarrow>
          (if truthy et then dict_get inner (the et) []
           else concat (dict_values inner)))"

definition get_neighbors :: "graph \<Rightarrow> string \<Rightarrow> string option \<Rightarrow> string \<Rightarrow> node list" where
  "get_neighbors g nid et direction =
     (if direction \<in> {''outgoing'', ''both''}
      then List.map_filter (\<lambda>e. map_of (nodes g) (target_id e)) (index_edges (edge_index g) nid et)
      else [])
     @
     (if direction \<in> {''incoming'', ''both''}
      then List.map_filter (\<lambda>e. map_of (nodes g) (source_id e))
             (index_edges (reverse_edge_index g) nid et)
      else [])"

definition get_edges ::
  "graph \<Rightarrow> string option \<Rightarrow> string option \<Rightarrow> string option \<Rightarrow> edge list" where
  "get_edges g src tgt et =
     filter (\<lambda>e. \<not> (truthy src \<and> source_id e \<noteq> the src)
               \<and> \<not> (truthy tgt \<and> target_id e \<noteq> the tgt)
               \<and> \<not> (truthy et \<and> edge_type e \<noteq> the et)) (edges g)"

definition has_edge :: "graph \<Rightarrow> string \<Rightarrow> string \<Rightarrow> string option \<Rightarrow> bool" where
  "has_edge g src tgt et = (length (get_edges g (Some src) (Some tgt) et) > 0)"

definition get_node :: "graph \<Rightarrow> string \<Rightarrow> node option" where
  "get_node g nid = map_of (nodes g) nid"

definition has_node :: "graph \<Rightarrow> string \<Rightarrow> bool" where
  "has_node g nid = (nid \<in> set (dict_keys (nodes g)))"

text \<open>
  \<open>traverse\<close>: the nested \<open>dfs\<close> shares the set \<open>visited\<close> and the list \<open>paths\<close> with all
  its calls, so both are threaded through.  A call that completes a path returns before
  the final \<open>visited.remove\<close>; a call beyond \<open>max_depth\<close> returns before \<open>visited.add\<close>.
  \<open>edge_types[depth]\<close> is read only when \<open>depth < len(edge_types)\<close>: the depth starts at
  zero and grows by one, so the saving branch is met first and the last branch below
  (where Python would raise \<open>IndexError\<close>) is never reached from \<open>traverse\<close>.
\<close>

function dfs ::
  "graph \<Rightarrow> string list \<Rightarrow> int \<Rightarrow> string \<Rightarrow> node list \<Rightarrow> nat \<Rightarrow>
   string set \<times> node list list \<Rightarrow> string set \<times> node list list" where
  "dfs g ets max_depth cur path depth st =
     (if int depth > max_depth then st
      else
        (let visited1 = insert cur (fst st) in
         if depth = length ets then (visited1, snd st @ [path])
         else if depth < length ets then
           (let neighbors = get_neighbors g cur (Some (ets ! depth)) ''outgoing'';
                st2 = fold (\<lambda>nb s. if node_id nb \<notin> fst s
                                     then dfs g ets max_depth (node_id nb) (path @ [nb]) (Suc depth) s
                                     else s)
                        neighbors (visited1, snd st)
            in (fst st2 - {cur}, snd st2))
         else (visited1, snd st)))"
  by pat_completeness auto
termination
  by (relation "measure (\<lambda>(g, ets, md, cur, path, depth, st). length ets - depth)") auto

definition traverse :: "graph \<Rightarrow> string \<Rightarrow> string list \<Rightarrow> int \<Rightarrow> node list list" where
  "traverse g start ets max_depth =
     (case map_of (nodes g) start of
        None \<Rightarrow> []
      | Some n \<Rightarrow> snd (dfs g ets max_depth start [n] 0 ({}, [])))"

text \<open>Sequences of well-typed calls, run from the empty graph; an error stops the run.\<close>

datatype graph_call = AddNode node | AddEdge edge

definition exec_call :: "graph \<Rightarrow> graph_call \<Rightarrow> py_error + graph" where
  "exec_call g c = (case c of AddNode n \<Rightarrow> add_node g (NodeObj n) | AddEdge e \<Rightarrow> add_edge g (EdgeObj e))"

fun run_calls :: "graph \<Rightarrow> graph_call list \<Rightarrow> py_error + graph" where
  "run_calls g [] = Inr g"
| "run_calls g (c # cs) = (case exec_call g c of Inl err \<Rightarrow> Inl err | Inr g' \<Rightarrow> run_calls g' cs)"

text \<open>Two call sequences differ only in the relative order of edges of the same type:
  the same calls are made, every \<open>add_node\<close> stands where it stood, and every position that
  adds an edge adds an edge of the same type as before.\<close>

fun call_shape :: "graph_call \<Rightarrow> node + string" where
  "call_shape (AddNode n) = Inl n"
| "call_shape (AddEdge e) = Inr (edge_type e)"

definition same_type_reorder :: "graph_call list \<Rightarrow> graph_call list \<Rightarrow> bool" where
  "same_type_reorder cs1 cs2 \<longleftrightarrow> mset cs1 = mset cs2 \<and> map call_shape cs1 = map call_shape cs2"

text \<open>The graph a run of well-typed calls builds, in closed form (used in the proofs).\<close>

definition put_call :: "graph \<Rightarrow> graph_call \<Rightarrow> graph" where
  "put_call g c =
     (case c of
        AddNode n \<Rightarrow> g\<lparr>nodes := AList.update (node_id n) n (nodes g)\<rparr>
      | AddEdge e \<Rightarrow> g\<lparr>edges := edges g @ [e],
                 edge_index := index_append (edge_index g) (source_id e) e,
                 reverse_edge_index := index_append (reverse_edge_index g) (target_id e) e\<rparr>)"

definition edges_of :: "graph_call list \<Rightarrow> edge list" where
  "edges_of cs = List.map_filter (\<lambda>c. case c of AddEdge e \<Rightarrow> Some e | _ \<Rightarrow> None) cs"

definition nodes_of :: "graph_call list \<Rightarrow> node list" where
  "nodes_of cs = List.map_filter (\<lambda>c. case c of AddNode n \<Rightarrow> Some n | _ \<Rightarrow> None) cs"

definition lookup2 ::
  "(string, (string, edge list) dict) dict \<Rightarrow> string \<Rightarrow> string \<Rightarrow> edge list" where
  "lookup2 idx k t = dict_get (dict_get idx k []) t []"

definition all_of :: "(string, (string, edge list) dict) dict \<Rightarrow> string \<Rightarrow> edge list" where
  "all_of idx k = concat (dict_values (dict_get idx k []))"

definition index_of ::
  "(edge \<Rightarrow> string) \<Rightarrow> edge list \<Rightarrow> (string, (string, edge list) dict) dict" where
  "index_of key es = fold (\<lambda>e idx. index_append idx (key e) e) es []"

definition graph_of :: "graph_call list \<Rightarrow> graph" where
  "graph_of cs = \<lparr>nodes = fold (\<lambda>n d. AList.update (node_id n) n d) (nodes_of cs) [],
                  edges = edges_of cs,
                  edge_index = index_of source_id (edges_of cs),
                  reverse_edge_index = index_of target_id (edges_of cs)\<rparr>"

text \<open>A small session graph for the examples: a user, two variants and one preference.\<close>

definition mk_node :: "string \<Rightarrow> string \<Rightarrow> node" where
  "mk_node i t = \<lparr>node_id = i, node_type = t, node_properties = []\<rparr>"

definition mk_edge :: "string \<Rightarrow> string \<Rightarrow> string \<Rightarrow> edge" where
  "mk_edge s t ty = \<lparr>source_id = s, target_id = t, edge_type = ty, edge_properties = []\<rparr>"

definition ex_nodes :: "graph_call list" where
  "ex_nodes = [AddNode (mk_node ''u'' ''User''), AddNode (mk_node ''a'' ''Variant''),
               AddNode (mk_node ''b'' ''Variant''), AddNode (mk_node ''c'' ''Preference'')]"

definition ex_calls1 :: "graph_call list" where
  "ex_calls1 = ex_nodes @
     [AddEdge (mk_edge ''u'' ''a'' ''T''), AddEdge (mk_edge ''u'' ''b'' ''T''),
      AddEdge (mk_edge ''a'' ''c'' ''T''), AddEdge (mk_edge ''b'' ''c'' ''T'')]"

definition ex_calls2 :: "graph_call list" where
  "ex_calls2 = ex_nodes @
     [AddEdge (mk_edge ''u'' ''b'' ''T''), AddEdge (mk_edge ''u'' ''a'' ''T''),
      AddEdge (mk_edge ''a'' ''c'' ''T''), AddEdge (mk_edge ''b'' ''c'' ''T'')]"

definition ex_graph :: graph where
  "ex_graph = graph_of ex_calls1"

section \<open>Text helpers of the alignment engine (preference\_alignment.py)\<close>

text \<open>
  Strings are taken to be ASCII.  Two Python built-ins work on the binary floating-point
  representation and are not functions of a real number: \<open>str\<close> of a float and \<open>float\<close>
  of a string.  They are parameters of the model, gathered in a record.
\<close>

record builtins =
  float_repr :: "real \<Rightarrow> string"
  float_parse :: "string \<Rightarrow> real option"

definition is_space :: "char \<Rightarrow> bool" where
  "is_space c = (c \<in> set [CHR 0x09, CHR 0x0A, CHR 0x0B, CHR 0x0C, CHR 0x0D,
                            CHR 0x1C, CHR 0x1D, CHR 0x1E, CHR 0x1F, CHR 0x20])"

definition is_digit :: "char \<Rightarrow> bool" where
  "is_digit c = (c \<in> set ''0123456789'')"

definition is_lower_alnum :: "char \<Rightarrow> bool" where
  "is_lower_alnum c = (is_digit c \<or> c \<in> set ''abcdefghijklmnopqrstuvwxyz'')"

definition lower_char :: "char \<Rightarrow> char" where
  "lower_char c =
     (case map_of (zip ''ABCDEFGHIJKLMNOPQRSTUVWXYZ'' ''abcdefghijklmnopqrstuvwxyz'') c of
        Some l \<Rightarrow> l | None \<Rightarrow> c)"

definition lower :: "string \<Rightarrow> string" where
  "lower s = map lower_char s"

definition strip :: "string \<Rightarrow> string" where
  "strip s = rev (dropWhile is_space (rev (dropWhile is_space s)))"

text \<open>\<open>re.sub(P+, " ", s)\<close>: every maximal run of characters in the class becomes one space.\<close>

function sub_runs :: "(char \<Rightarrow> bool) \<Rightarrow> string \<Rightarrow> string" where
  "sub_runs P [] = []"
| "sub_runs P (c # cs) = (if P c then CHR '' '' # sub_runs P (dropWhile P cs) else c # sub_runs P cs)"
  by pat_completeness auto
termination
  by (relation "measure (\<lambda>(P, s). length s)") (auto simp: length_dropWhile_le less_Suc_eq_le)

function nat_str :: "nat \<Rightarrow> string" where
  "nat_str n = (if n < 10 then [''0123456789'' ! n] else nat_str (n div 10) @ [''0123456789'' ! (n mod 10)])"
  by pat_completeness auto
termination
  by (relation "measure id") auto

definition int_str :: "int \<Rightarrow> string" where
  "int_str i = (if i < 0 then CHR ''-'' # nat_str (nat (- i)) else nat_str (nat i))"

definition digits_val :: "string \<Rightarrow> nat" where
  "digits_val s = foldl (\<lambda>a c. 10 * a + length (takeWhile (\<lambda>d. d \<noteq> c) ''0123456789'')) 0 s"

text \<open>Python truthiness and \<open>str\<close> of a value; \<open>a or b\<close>.\<close>

fun py_truthy :: "pyval \<Rightarrow> bool" where
  "py_truthy PNone = False"
| "py_truthy (PBool b) = b"
| "py_truthy (PInt i) = (i \<noteq> 0)"
| "py_truthy (PFloat r) = (r \<noteq> 0)"
| "py_truthy (PStr s) = (s \<noteq> [])"

fun py_str :: "builtins \<Rightarrow> pyval \<Rightarrow> string" where
  "py_str B PNone = ''None''"
| "py_str B (PBool b) = (if b then ''True'' else ''False'')"
| "py_str B (PInt i) = int_str i"
| "py_str B (PFloat r) = float_repr B r"
| "py_str B (PStr s) = s"

definition py_or :: "pyval \<Rightarrow> pyval \<Rightarrow> pyval" where
  "py_or a b = (if py_truthy a then a else b)"

definition normalize_text :: "builtins \<Rightarrow> pyval \<Rightarrow> string" where
  "normalize_text B v =
     (let text = lower (strip (py_str B (py_or v (PStr []))));
          text1 = sub_runs (\<lambda>c. \<not> is_lower_alnum c \<and> \<not> is_space c) text;
          text2 = strip (sub_runs is_space text1)
      in text2)"

definition normalize_brand :: "builtins \<Rightarrow> pyval \<Rightarrow> string" where
  "normalize_brand B v = normalize_text B v"

definition normalize_feature :: "builtins \<Rightarrow> pyval \<Rightarrow> string" where
  "normalize_feature B v = normalize_text B v"

text \<open>A Python set of strings is a duplicate-free list; its order stands for the
  iteration order of the set, which Python leaves open.\<close>

definition to_normalized_set :: "builtins \<Rightarrow> pyval list \<Rightarrow> string list" where
  "to_normalized_set B vals = remdups (filter (\<lambda>t. t \<noteq> []) (map (normalize_text B) vals))"

fun to_float :: "builtins \<Rightarrow> pyval \<Rightarrow> real option" where
  "to_float B PNone = None"
| "to_float B (PBool b) = Some (if b then 1 else 0)"
| "to_float B (PInt i) = Some (real_of_int i)"
| "to_float B (PFloat r) = Some r"
| "to_float B (PStr s) = float_parse B s"

definition to_int :: "builtins \<Rightarrow> pyval \<Rightarrow> int option" where
  "to_int B v =
     (if v = PNone then None
      else (let nums = takeWhile is_digit (dropWhile (\<lambda>c. \<not> is_digit c) (py_str B v))
            in if nums = [] then None else Some (int (digits_val nums))))"

type_synonym payload = "(string, pyval) dict"

definition extract_brand_from_payload :: "builtins \<Rightarrow> payload \<Rightarrow> string" where
  "extract_brand_from_payload B car =
     (let brand = normalize_brand B (dict_get car ''brand'' (PStr []))
      in if brand \<noteq> [] then brand
         else (let variant_name =
                     normalize_text B (py_or (dict_get car ''variant'' (PStr []))
                                             (dict_get car ''name'' (PStr [])))
               in if variant_name = [] then []
                  else takeWhile (\<lambda>c. c \<noteq> CHR '' '') variant_name))"

definition FUEL_SYNONYMS :: "(string, string list) dict" where
  "FUEL_SYNONYMS =
     [(''petrol'', [''petrol'', ''gasoline'']),
      (''diesel'', [''diesel'']),
      (''electric'', [''electric'', ''ev'', ''battery'']),
      (''cng'', [''cng'', ''compressed natural gas'']),
      (''hybrid'', [''hybrid''])]"

definition BODY_SYNONYMS :: "(string, string list) dict" where
  "BODY_SYNONYMS =
     [(''suv'', [''suv'', ''sport utility vehicle'', ''compact suv'', ''midsize suv'']),
      (''sedan'', [''sedan'', ''saloon'']),
      (''hatchback'', [''hatchback'', ''hatch'']),
      (''muv'', [''muv'', ''mpv'', ''multi utility vehicle'']),
      (''crossover'', [''crossover''])]"

definition TRANSMISSION_SYNONYMS :: "(string, string list) dict" where
  "TRANSMISSION_SYNONYMS =
     [(''automatic'', [''automatic'', ''amt'', ''cvt'', ''dct'', ''ivt'']),
      (''manual'', [''manual'', ''mt''])]"

definition FEATURE_SYNONYMS :: "(string, string list) dict" where
  "FEATURE_SYNONYMS =
     [(''sunroof'', [''sunroof'', ''panoramic'', ''moonroof'']),
      (''apple carplay android auto'', [''apple carplay'', ''android auto'', ''carplay'']),
      (''automatic climate control'', [''automatic climate control'', ''climate control'', ''auto ac'']),
      (''360 camera'', [''360 camera'', ''360'', ''surround view'', ''parking camera'']),
      (''lane assist'', [''lane assist'', ''lane keep'', ''adas'']),
      (''ventilated seats'', [''ventilated seats'', ''ventilated'']),
      (''wireless charging'', [''wireless charging'', ''wireless charger''])]"

text \<open>Python's \<open>a in b\<close> on strings: \<open>a\<close> occurs in \<open>b\<close> as a contiguous piece.\<close>

fun starts_with :: "string \<Rightarrow> string \<Rightarrow> bool" where
  "starts_with [] b = True"
| "starts_with (x # xs) [] = False"
| "starts_with (x # xs) (y # ys) = (x = y \<and> starts_with xs ys)"

fun str_in :: "string \<Rightarrow> string \<Rightarrow> bool" where
  "str_in a [] = (a = [])"
| "str_in a (y # ys) = (starts_with a (y # ys) \<or> str_in a ys)"

definition matches_with_synonyms ::
  "builtins \<Rightarrow> pyval \<Rightarrow> pyval \<Rightarrow> (string, string list) dict \<Rightarrow> bool" where
  "matches_with_synonyms B pref_value actual_value synonym_map =
     (let pref = normalize_text B pref_value; actual = normalize_text B actual_value
      in if pref = [] \<or> pref = ''any'' then True
         else if actual = [] then False
         else if str_in pref actual \<or> str_in actual pref then True
         else (case find (\<lambda>(key, aliases). str_in key pref) synonym_map of
                 Some (key, aliases) \<Rightarrow> list_ex (\<lambda>alias. str_in alias actual) aliases
               | None \<Rightarrow> False))"

definition feature_present :: "string \<Rightarrow> string \<Rightarrow> bool" where
  "feature_present feature_key blob =
     (if feature_key = [] then False
      else if str_in feature_key blob then True
      else list_ex (\<lambda>alias. str_in alias blob) (dict_get FEATURE_SYNONYMS feature_key [feature_key]))"

fun join_space :: "string list \<Rightarrow> string" where
  "join_space [] = []"
| "join_space [p] = p"
| "join_space (p # q # ps) = p @ CHR '' '' # join_space (q # ps)"

definition flatten_car_text :: "builtins \<Rightarrow> payload \<Rightarrow> string" where
  "flatten_car_text B car =
     join_space (map (\<lambda>v. lower (py_str B v)) (filter (\<lambda>v. v \<noteq> PNone) (dict_values car)))"

section \<open>Rules, preferences and ranked variants\<close>

datatype brand_preference_mode = ANY | PREFERRED | STRICT | BLACKLIST

fun brand_mode_value :: "brand_preference_mode \<Rightarrow> string" where
  "brand_mode_value ANY = ''any''"
| "brand_mode_value PREFERRED = ''preferred''"
| "brand_mode_value STRICT = ''strict''"
| "brand_mode_value BLACKLIST = ''blacklist''"

datatype diversity_mode_t = MAXIMUM_RELEVANCE | BALANCED | MAXIMUM_DIVERSITY | CUSTOM

text \<open>The fields of \<open>UserControlConfig\<close> that the modelled functions read.\<close>

record user_control_config =
  diversity_mode :: diversity_mode_t
  diversity_weight :: real
  brand_mode :: brand_preference_mode
  preferred_brands :: "pyval list"
  blacklisted_brands :: "pyval list"
  price_preference :: "string option"
  price_tolerance :: real
  must_have_features :: "pyval list"
  nice_to_have_features :: "pyval list"
  exploration_rate :: real
  exploration_rate_set :: bool
  scoring_priorities :: "(string, real) dict"

text \<open>The structured preferences: \<open>budget\<close> is \<open>None\<close> when the key is missing or is not a
  pair; a missing text preference is \<open>None\<close>.\<close>

record preferences =
  budget :: "(real \<times> real) option"
  fuel_type :: "string option"
  body_type :: "string option"
  transmission :: "string option"
  seating :: pyval
  features :: "string list"
  brand :: "string option"
  performance :: "int option"

record rules =
  r_brand_mode :: string
  r_preferred_brands :: "string list"
  r_blacklisted_brands :: "string list"
  r_strict_brands :: "string list"
  r_hard_preferences :: "string list"
  r_strict_budget :: bool
  r_budget_tolerance :: real
  r_must_have_features :: "string list"
  r_nice_to_have_features :: "string list"

text \<open>\<open>preferences.get(key) not in (None, "", "Any", [])\<close> for the five keys that can be
  promoted.\<close>

definition pref_given :: "preferences \<Rightarrow> string \<Rightarrow> bool" where
  "pref_given P key =
     (if key = ''fuel_type'' then fuel_type P \<notin> {None, Some [], Some ''Any''}
      else if key = ''body_type'' then body_type P \<notin> {None, Some [], Some ''Any''}
      else if key = ''transmission'' then transmission P \<notin> {None, Some [], Some ''Any''}
      else if key = ''seating'' then seating P \<notin> {PNone, PStr [], PStr ''Any''}
      else if key = ''features'' then features P \<noteq> []
      else False)"

definition compile_alignment_rules ::
  "builtins \<Rightarrow> preferences \<Rightarrow> user_control_config option \<Rightarrow> string list \<Rightarrow> rules" where
  "compile_alignment_rules B P cfg must_have_preferences =
     (let mode = (case cfg of None \<Rightarrow> ''any'' | Some c \<Rightarrow> lower (brand_mode_value (brand_mode c)));
          preferred = to_normalized_set B (case cfg of None \<Rightarrow> [] | Some c \<Rightarrow> preferred_brands c);
          blacklisted = to_normalized_set B (case cfg of None \<Rightarrow> [] | Some c \<Rightarrow> blacklisted_brands c);
          strict = (if mode = ''strict'' then preferred else []);
          priorities = (case cfg of None \<Rightarrow> [] | Some c \<Rightarrow> scoring_priorities c);
          hard = remdups (must_have_preferences @
                   filter (\<lambda>key. dict_get priorities key 0.5 \<ge> 0.8 \<and> pref_given P key)
                     [''fuel_type'', ''body_type'', ''transmission'', ''seating'', ''features'']);
          strict_budget = (dict_get priorities ''budget'' 0.5 \<ge> 0.8);
          tol = max 0.02 (min 0.5 (case cfg of None \<Rightarrow> 0.2 | Some c \<Rightarrow> price_tolerance c));
          budget_tol = (if strict_budget then min tol 0.12 else min (max 0.08 tol) 0.3)
      in \<lparr>r_brand_mode = mode,
          r_preferred_brands = preferred,
          r_blacklisted_brands = blacklisted,
          r_strict_brands = strict,
          r_hard_preferences = hard,
          r_strict_budget = strict_budget,
          r_budget_tolerance = budget_tol,
          r_must_have_features = to_normalized_set B
             (case cfg of None \<Rightarrow> [] | Some c \<Rightarrow> must_have_features c),
          r_nice_to_have_features = to_normalized_set B
             (case cfg of None \<Rightarrow> [] | Some c \<Rightarrow> nice_to_have_features c)\<rparr>)"

definition has_strict_constraints :: "rules \<Rightarrow> bool" where
  "has_strict_constraints R =
     (r_strict_brands R \<noteq> [] \<or> r_blacklisted_brands R \<noteq> [] \<or> r_must_have_features R \<noteq> []
      \<or> r_strict_budget R)"

text \<open>The rule sets as the compiler above builds them: the brand sets hold no empty
  string, and a list that stands for a set has no duplicates.\<close>

definition rules_wf :: "rules \<Rightarrow> bool" where
  "rules_wf R = ([] \<notin> set (r_preferred_brands R) \<and> [] \<notin> set (r_blacklisted_brands R)
                 \<and> distinct (r_nice_to_have_features R))"

record alignment =
  compliant :: bool
  a_hard_failures :: "string list"
  soft_issues :: "string list"
  preferred_brand_hit :: bool
  a_alignment_score :: real

datatype sbval = SBNum real | SBList "string list"

text \<open>A ranked variant is a Python dictionary; a key that may be missing is an option.\<close>

record variant =
  car :: payload
  variant_id :: pyval
  score :: "real option"
  combined_score :: "real option"
  details :: "(string, string) dict"
  score_breakdown :: "(string, sbval) dict"
  alignment :: "alignment option"
  alignment_score :: "real option"
  hard_failures :: "string list option"

definition extract_variant_payload :: "variant \<Rightarrow> payload" where
  "extract_variant_payload v = car v"

section \<open>Alignment of one variant (evaluate\_variant\_alignment)\<close>

text \<open>The four accumulators of the source: the two issue lists and the two counters.\<close>

record acc =
  acc_hard :: "string list"
  acc_soft :: "string list"
  acc_matched :: nat
  acc_total :: nat

definition brand_step :: "rules \<Rightarrow> string \<Rightarrow> acc \<Rightarrow> acc" where
  "brand_step R br a =
     (let a1 = (if br \<noteq> [] \<and> br \<in> set (r_blacklisted_brands R)
                then a\<lparr>acc_hard := acc_hard a @ [''blacklisted_brand'']\<rparr> else a);
          a2 = (if r_strict_brands R \<noteq> [] \<and> br \<notin> set (r_strict_brands R)
                then a1\<lparr>acc_hard := acc_hard a1 @ [''brand_not_in_strict_list'']\<rparr> else a1)
      in a2)"

definition budget_step :: "builtins \<Rightarrow> payload \<Rightarrow> rules \<Rightarrow> preferences \<Rightarrow> acc \<Rightarrow> acc" where
  "budget_step B c R P a =
     (case budget P of
        None \<Rightarrow> a
      | Some (min_budget, max_budget) \<Rightarrow>
          (case to_float B (dict_get c ''numeric_price'' (dict_get c ''price'' PNone)) of
             None \<Rightarrow> a
           | Some price \<Rightarrow>
               if max_budget = 0 then a
               else
                 (let a1 = a\<lparr>acc_total := acc_total a + 1\<rparr>;
                      a2 = (if price > max_budget * (1 + r_budget_tolerance R)
                            then (if ''budget'' \<in> set (r_hard_preferences R) \<or> r_strict_budget R
                                  then a1\<lparr>acc_hard := acc_hard a1 @ [''budget_overflow'']\<rparr>
                                  else a1\<lparr>acc_soft := acc_soft a1 @ [''budget_overflow_soft'']\<rparr>)
                            else a1\<lparr>acc_matched := acc_matched a1 + 1\<rparr>);
                      a3 = (if price < min_budget * 0.6
                            then a2\<lparr>acc_soft := acc_soft a2 @ [''budget_too_low'']\<rparr> else a2)
                  in a3)))"

text \<open>The fuel, body and transmission blocks have one shape: the preference, the two
  payload keys, the synonym table, the name of the dimension and the two issue names.\<close>

definition text_step ::
  "builtins \<Rightarrow> payload \<Rightarrow> rules \<Rightarrow> string option \<Rightarrow> string \<Rightarrow> string \<Rightarrow>
   (string, string list) dict \<Rightarrow> string \<Rightarrow> string \<Rightarrow> string \<Rightarrow> acc \<Rightarrow> acc" where
  "text_step B c R pref key_norm key_raw synonyms dimension fail_hard fail_soft a =
     (if pref \<in> {None, Some [], Some ''Any''} then a
      else
        (let a1 = a\<lparr>acc_total := acc_total a + 1\<rparr>;
             actual = dict_get c key_norm (dict_get c key_raw (PStr []))
         in if matches_with_synonyms B (PStr (the pref)) actual synonyms
            then a1\<lparr>acc_matched := acc_matched a1 + 1\<rparr>
            else if dimension \<in> set (r_hard_preferences R)
            then a1\<lparr>acc_hard := acc_hard a1 @ [fail_hard]\<rparr>
            else a1\<lparr>acc_soft := acc_soft a1 @ [fail_soft]\<rparr>))"

definition seating_step :: "builtins \<Rightarrow> payload \<Rightarrow> rules \<Rightarrow> preferences \<Rightarrow> acc \<Rightarrow> acc" where
  "seating_step B c R P a =
     (case to_int B (seating P) of
        None \<Rightarrow> a
      | Some pref_seating \<Rightarrow>
          if pref_seating = 0 then a
          else
            (let a1 = a\<lparr>acc_total := acc_total a + 1\<rparr>;
                 actual_seating = to_int B (dict_get c ''seating_norm'' (dict_get c ''Seating Capacity'' PNone))
             in if actual_seating \<noteq> None \<and> the actual_seating \<ge> pref_seating
                then a1\<lparr>acc_matched := acc_matched a1 + 1\<rparr>
                else if ''seating'' \<in> set (r_hard_preferences R)
                then a1\<lparr>acc_hard := acc_hard a1 @ [''seating_mismatch'']\<rparr>
                else a1\<lparr>acc_soft := acc_soft a1 @ [''seating_mismatch_soft'']\<rparr>))"

definition required_features :: "builtins \<Rightarrow> rules \<Rightarrow> preferences \<Rightarrow> string list" where
  "required_features B R P =
     remdups (r_must_have_features R @
       (if ''features'' \<in> set (r_hard_preferences R)
        then filter (\<lambda>t. t \<noteq> []) (map (\<lambda>f. normalize_feature B (PStr f)) (features P))
        else []))"

definition feature_step :: "string \<Rightarrow> string \<Rightarrow> acc \<Rightarrow> acc" where
  "feature_step blob feature a =
     (let a1 = a\<lparr>acc_total := acc_total a + 1\<rparr>
      in if feature_present feature blob
         then a1\<lparr>acc_matched := acc_matched a1 + 1\<rparr>
         else a1\<lparr>acc_hard := acc_hard a1 @ [''missing_feature:'' @ feature]\<rparr>)"

definition run_checks :: "builtins \<Rightarrow> payload \<Rightarrow> rules \<Rightarrow> preferences \<Rightarrow> acc" where
  "run_checks B c R P =
     (let a0 = \<lparr>acc_hard = [], acc_soft = [], acc_matched = 0, acc_total = 0\<rparr>;
          a1 = brand_step R (extract_brand_from_payload B c) a0;
          a2 = budget_step B c R P a1;
          a3 = text_step B c R (fuel_type P) ''fuel_type_norm'' ''Fuel Type'' FUEL_SYNONYMS
                 ''fuel_type'' ''fuel_mismatch'' ''fuel_mismatch_soft'' a2;
          a4 = text_step B c R (body_type P) ''body_type_norm'' ''Body Type'' BODY_SYNONYMS
                 ''body_type'' ''body_mismatch'' ''body_mismatch_soft'' a3;
          a5 = text_step B c R (transmission P) ''transmission_norm'' ''Transmission Type''
                 TRANSMISSION_SYNONYMS
                 ''transmission'' ''transmission_mismatch'' ''transmission_mismatch_soft'' a4;
          a6 = seating_step B c R P a5;
          a7 = fold (feature_step (flatten_car_text B c)) (required_features B R P) a6
      in a7)"

definition nice_hits :: "builtins \<Rightarrow> payload \<Rightarrow> rules \<Rightarrow> nat" where
  "nice_hits B c R =
     length (filter (\<lambda>f. feature_present f (flatten_car_text B c)) (r_nice_to_have_features R))"

definition evaluate_variant_alignment ::
  "builtins \<Rightarrow> variant \<Rightarrow> rules \<Rightarrow> preferences \<Rightarrow> alignment" where
  "evaluate_variant_alignment B variant_match R P =
     (let c = extract_variant_payload variant_match;
          br = extract_brand_from_payload B c;
          hit = (br \<noteq> [] \<and> br \<in> set (r_preferred_brands R));
          a = run_checks B c R P;
          nice_to_have = r_nice_to_have_features R;
          base0 = real (acc_matched a) / real (max 1 (acc_total a));
          base1 = (if hit then base0 + 0.08 else base0);
          base2 = (if nice_to_have \<noteq> []
                   then base1 + 0.05 * (real (nice_hits B c R) / real (max 1 (length nice_to_have)))
                   else base1);
          base3 = base2 - 0.03 * real (length (acc_soft a))
      in \<lparr>compliant = (length (acc_hard a) = 0),
          a_hard_failures = acc_hard a,
          soft_issues = acc_soft a,
          preferred_brand_hit = hit,
          a_alignment_score = max 0 (min 1 base3)\<rparr>)"

text \<open>
  The signals of a variant, read off the preferences rather than off the accumulators:
  one entry for every active dimension, \<open>True\<close> when the variant matches it.
\<close>

definition budget_signal :: "builtins \<Rightarrow> payload \<Rightarrow> rules \<Rightarrow> preferences \<Rightarrow> bool list" where
  "budget_signal B c R P =
     (case budget P of
        None \<Rightarrow> []
      | Some (min_budget, max_budget) \<Rightarrow>
          (case to_float B (dict_get c ''numeric_price'' (dict_get c ''price'' PNone)) of
             None \<Rightarrow> []
           | Some price \<Rightarrow>
               if max_budget = 0 then []
               else [price \<le> max_budget * (1 + r_budget_tolerance R)]))"

definition text_signal ::
  "builtins \<Rightarrow> payload \<Rightarrow> string option \<Rightarrow> string \<Rightarrow> string \<Rightarrow> (string, string list) dict \<Rightarrow> bool list" where
  "text_signal B c pref key_norm key_raw synonyms =
     (if pref \<in> {None, Some [], Some ''Any''} then []
      else [matches_with_synonyms B (PStr (the pref))
              (dict_get c key_norm (dict_get c key_raw (PStr []))) synonyms])"

definition seating_signal :: "builtins \<Rightarrow> payload \<Rightarrow> preferences \<Rightarrow> bool list" where
  "seating_signal B c P =
     (case to_int B (seating P) of
        None \<Rightarrow> []
      | Some want \<Rightarrow>
          if want = 0 then []
          else [case to_int B (dict_get c ''seating_norm'' (dict_get c ''Seating Capacity'' PNone)) of
                  None \<Rightarrow> False | Some have \<Rightarrow> have \<ge> want])"

definition signals :: "builtins \<Rightarrow> payload \<Rightarrow> rules \<Rightarrow> preferences \<Rightarrow> bool list" where
  "signals B c R P =
     budget_signal B c R P
     @ text_signal B c (fuel_type P) ''fuel_type_norm'' ''Fuel Type'' FUEL_SYNONYMS
     @ text_signal B c (body_type P) ''body_type_norm'' ''Body Type'' BODY_SYNONYMS
     @ text_signal B c (transmission P) ''transmission_norm'' ''Transmission Type'' TRANSMISSION_SYNONYMS
     @ seating_signal B c P
     @ map (\<lambda>f. feature_present f (flatten_car_text B c)) (required_features B R P)"

definition matched_signals :: "builtins \<Rightarrow> payload \<Rightarrow> rules \<Rightarrow> preferences \<Rightarrow> nat" where
  "matched_signals B c R P = length (filter (\<lambda>b. b) (signals B c R P))"

definition total_signals :: "builtins \<Rightarrow> payload \<Rightarrow> rules \<Rightarrow> preferences \<Rightarrow> nat" where
  "total_signals B c R P = length (signals B c R P)"

definition nice_fraction :: "builtins \<Rightarrow> payload \<Rightarrow> rules \<Rightarrow> real" where
  "nice_fraction B c R =
     real (card {f \<in> set (r_nice_to_have_features R). feature_present f (flatten_car_text B c)})
       / real (max 1 (card (set (r_nice_to_have_features R))))"

definition clamp01 :: "real \<Rightarrow> real" where
  "clamp01 x = max 0 (min 1 x)"

section \<open>Alignment of a ranked list (enforce\_alignment\_on\_ranked\_variants)\<close>

text \<open>The body of the loop: the variant is annotated in place, and its scores are
  boosted when its brand is a preferred one.\<close>

definition annotate :: "builtins \<Rightarrow> preferences \<Rightarrow> rules \<Rightarrow> variant \<Rightarrow> variant" where
  "annotate B P R v =
     (let al = evaluate_variant_alignment B v R P;
          sb1 = AList.update ''alignment_score'' (SBNum (a_alignment_score al)) (score_breakdown v);
          sb2 = AList.update ''hard_failures'' (SBList (a_hard_failures al)) sb1;
          boost = 1.15;
          v1 = v\<lparr>alignment := Some al,
                 alignment_score := Some (a_alignment_score al),
                 hard_failures := Some (a_hard_failures al)\<rparr>
      in if preferred_brand_hit al
         then v1\<lparr>score := map_option (\<lambda>x. x * boost) (score v1),
                 combined_score := map_option (\<lambda>x. x * boost) (combined_score v1),
                 score_breakdown := AList.update ''preferred_brand_boost'' (SBNum boost) sb2\<rparr>
         else v1\<lparr>score_breakdown := sb2\<rparr>)"

definition is_compliant :: "variant \<Rightarrow> bool" where
  "is_compliant v = (case alignment v of Some al \<Rightarrow> compliant al | None \<Rightarrow> False)"

definition sort_score :: "variant \<Rightarrow> real" where
  "sort_score x = (case combined_score x of Some c \<Rightarrow> c
                   | None \<Rightarrow> (case score x of Some s \<Rightarrow> s | None \<Rightarrow> 0))"

definition get_alignment_score :: "variant \<Rightarrow> real" where
  "get_alignment_score x = (case alignment_score x of Some a \<Rightarrow> a | None \<Rightarrow> 0)"

definition n_hard_failures :: "variant \<Rightarrow> nat" where
  "n_hard_failures x = (case hard_failures x of Some hf \<Rightarrow> length hf | None \<Rightarrow> 0)"

text \<open>
  Python's \<open>sorted\<close> is stable, also with \<open>reverse=True\<close> (equal keys keep their input
  order).  On real keys the descending stable sort is the ascending stable sort by the
  negated key, which is what \<open>sort_key\<close> computes; tuples compare lexicographically.
\<close>

definition sort_compliant :: "variant list \<Rightarrow> variant list" where
  "sort_compliant xs = sort_key (\<lambda>x. (- get_alignment_score x, - sort_score x)) xs"

definition sort_violated :: "variant list \<Rightarrow> variant list" where
  "sort_violated xs =
     sort_key (\<lambda>x. (n_hard_failures x, - get_alignment_score x, - sort_score x)) xs"

definition enforce_alignment_on_ranked_variants ::
  "builtins \<Rightarrow> variant list \<Rightarrow> preferences \<Rightarrow> rules \<Rightarrow> int \<Rightarrow> bool \<Rightarrow> variant list" where
  "enforce_alignment_on_ranked_variants B ranked_variants P R min_results allow_relaxation =
     (if ranked_variants = [] then []
      else
        (let annotated = map (annotate B P R) ranked_variants;
             compliant_vs = sort_compliant (filter is_compliant annotated);
             violated = sort_violated (filter (\<lambda>v. \<not> is_compliant v) annotated)
         in if allow_relaxation \<and> int (length compliant_vs) < min_results
            then (let needed = nat (max 0 (min_results - int (length compliant_vs)))
                  in (compliant_vs @ take needed violated) @ drop needed violated)
            else if \<not> allow_relaxation then compliant_vs
            else compliant_vs @ violated))"

section \<open>The brand filter of the diversity pass (\_apply\_brand\_filters)\<close>

text \<open>One round of the loop: \<open>None\<close> when the variant is skipped, otherwise the variant as
  it is appended, with its scores changed in place.  Python's \<open>variant['score'] = ...\<close>
  creates the key when it is missing.\<close>

definition filter_brand :: "builtins \<Rightarrow> variant \<Rightarrow> string" where
  "filter_brand B v = normalize_brand B (dict_get (extract_variant_payload v) ''brand'' (PStr ''Unknown''))"

definition scale_scores :: "real \<Rightarrow> variant \<Rightarrow> variant" where
  "scale_scores k v =
     v\<lparr>score := Some ((case score v of Some x \<Rightarrow> x | None \<Rightarrow> 0) * k),
       combined_score := map_option (\<lambda>x. x * k) (combined_score v)\<rparr>"

definition brand_filter_step :: "builtins \<Rightarrow> user_control_config \<Rightarrow> variant \<Rightarrow> variant option" where
  "brand_filter_step B cfg v =
     (let preferred = to_normalized_set B (preferred_brands cfg);
          blacklisted = to_normalized_set B (blacklisted_brands cfg);
          br = filter_brand B v
      in if br \<noteq> [] \<and> br \<in> set blacklisted then None
         else if brand_mode cfg = STRICT
         then (if preferred \<noteq> [] \<and> br \<notin> set preferred then None else Some v)
         else if preferred \<noteq> []
         then (if br \<in> set preferred
               then Some ((scale_scores 1.35 v)
                      \<lparr>details := AList.update ''brand_preference'' ''preferred_brand_boost''
                                    (details v)\<rparr>)
               else if brand_mode cfg = PREFERRED then Some (scale_scores 0.92 v)
               else Some v)
         else Some v)"

definition apply_brand_filters :: "builtins \<Rightarrow> variant list \<Rightarrow> user_control_config \<Rightarrow> variant list" where
  "apply_brand_filters B scored_variants cfg = List.map_filter (brand_filter_step B cfg) scored_variants"

text \<open>Examples: the payloads, preferences and controls of the repository's own tests.\<close>

definition ex_builtins :: builtins where
  "ex_builtins = \<lparr>float_repr = (\<lambda>r. ''0.0''), float_parse = (\<lambda>s. None)\<rparr>"

definition ex_variant :: "string \<Rightarrow> string \<Rightarrow> real \<Rightarrow> variant" where
  "ex_variant name br sc =
     \<lparr>car = [(''variant'', PStr name), (''brand'', PStr br), (''numeric_price'', PInt 1200000),
             (''Fuel Type'', PStr ''Petrol''), (''Body Type'', PStr ''SUV''),
             (''Transmission Type'', PStr ''Automatic''), (''Seating Capacity'', PInt 5)],
      variant_id = PNone,
      score = Some sc, combined_score = Some sc, details = [], score_breakdown = [],
      alignment = None, alignment_score = None, hard_failures = None\<rparr>"

definition ex_preferences :: preferences where
  "ex_preferences =
     \<lparr>budget = Some (800000, 1500000), fuel_type = Some ''Petrol'', body_type = Some ''SUV'',
      transmission = Some ''Automatic'', seating = PInt 5, features = [], brand = None,
      performance = None\<rparr>"

definition ex_config :: user_control_config where
  "ex_config =
     \<lparr>diversity_mode = BALANCED, diversity_weight = 0.3, brand_mode = PREFERRED,
      preferred_brands = [PStr ''Toyota'', PStr ''Maruti''], blacklisted_brands = [PStr ''Maruti''],
      price_preference = None, price_tolerance = 0.15, must_have_features = [],
      nice_to_have_features = [], exploration_rate = 0.1, exploration_rate_set = False,
      scoring_priorities = []\<rparr>"

definition ex_rules :: rules where
  "ex_rules =
     \<lparr>r_brand_mode = ''preferred'', r_preferred_brands = [''toyota'', ''maruti''],
      r_blacklisted_brands = [''maruti''], r_strict_brands = [],
      r_hard_preferences = [''budget''], r_strict_budget = False,
      r_budget_tolerance = 0.15, r_must_have_features = [],
      r_nice_to_have_features = []\<rparr>"

definition ex_ranked :: "variant list" where
  "ex_ranked =
     [ex_variant ''Maruti Brezza ZXi'' ''Maruti'' 100,
      ex_variant ''Hyundai Creta S'' ''Hyundai'' 98,
      ex_variant ''Toyota Urban Cruiser'' ''Toyota'' 95,
      ex_variant ''Maruti Baleno'' ''Maruti'' 94,
      ex_variant ''Maruti Ertiga'' ''Maruti'' 93]"


section \<open>The robust diversity enforcer (diversity\_reranker.py)\<close>

definition extract_brand :: "builtins \<Rightarrow> variant \<Rightarrow> string" where
  "extract_brand B v = lower (py_str B (dict_get (car v) ''brand'' (PStr ''Unknown'')))"

definition variant_key :: "builtins \<Rightarrow> variant \<Rightarrow> string" where
  "variant_key B v =
     (let name = py_or (py_or (dict_get (car v) ''variant'' PNone) (dict_get (car v) ''name'' PNone))
                   (PStr []);
          name1 = (if \<not> py_truthy name then py_or (variant_id v) (PStr []) else name)
      in lower (strip (py_str B name1)))"

text \<open>\<open>list.sort(key=..., reverse=True)\<close> on the combined score (or the score, or zero):
  stable, descending.\<close>

definition sort_by_score_desc :: "variant list \<Rightarrow> variant list" where
  "sort_by_score_desc xs = sort_key (\<lambda>x. - sort_score x) xs"

text \<open>\<open>variants_by_brand\<close>: a \<open>defaultdict(list)\<close>, keyed in the order in which the brands
  first occur, every list then sorted by score.\<close>

definition group_by_brand :: "builtins \<Rightarrow> variant list \<Rightarrow> (string, variant list) dict" where
  "group_by_brand B vs =
     fold (\<lambda>v d. AList.update (extract_brand B v) (dict_get d (extract_brand B v) [] @ [v]) d) vs []"

definition sorted_groups :: "builtins \<Rightarrow> variant list \<Rightarrow> (string, variant list) dict" where
  "sorted_groups B vs = map (\<lambda>(b, xs). (b, sort_by_score_desc xs)) (group_by_brand B vs)"

text \<open>The state of the round-robin selection: \<open>selected\<close>, \<open>selected_keys\<close>,
  \<open>brand_counts\<close> (a \<open>defaultdict(int)\<close>) and the flag \<open>found_any\<close> of the current round.\<close>

record rr_state =
  selected :: "variant list"
  selected_keys :: "string set"
  brand_counts :: "string \<Rightarrow> nat"
  found_any :: bool

text \<open>One brand in one round.  Once \<open>top_k\<close> variants are selected the source leaves the
  \<open>for\<close> loop; skipping each remaining brand has the same effect.\<close>

definition rr_brand ::
  "builtins \<Rightarrow> nat \<Rightarrow> nat \<Rightarrow> string \<times> variant list \<Rightarrow> rr_state \<Rightarrow> rr_state" where
  "rr_brand B top_k max_per_brand entry st =
     (if length (selected st) \<ge> top_k then st
      else if brand_counts st (fst entry) \<ge> max_per_brand then st
      else (case find (\<lambda>v. variant_key B v \<notin> selected_keys st) (snd entry) of
              None \<Rightarrow> st
            | Some v \<Rightarrow>
                st\<lparr>selected := selected st @ [v],
                   selected_keys := insert (variant_key B v) (selected_keys st),
                   brand_counts := (brand_counts st)(fst entry := brand_counts st (fst entry) + 1),
                   found_any := True\<rparr>))"

function rr_loop ::
  "builtins \<Rightarrow> nat \<Rightarrow> nat \<Rightarrow> (string, variant list) dict \<Rightarrow> nat \<Rightarrow> rr_state \<Rightarrow> rr_state" where
  "rr_loop B top_k max_per_brand groups round_num st =
     (if length (selected st) < top_k
      then (let st1 = fold (rr_brand B top_k max_per_brand) groups (st\<lparr>found_any := False\<rparr>)
            in if \<not> found_any st1 then st1
               else if round_num + 1 > top_k * 2 then st1
               else rr_loop B top_k max_per_brand groups (round_num + 1) st1)
      else st)"
  by pat_completeness auto
termination
  by (relation "measure (\<lambda>(B, top_k, m, groups, round_num, st). top_k * 2 + 1 - round_num)") auto

definition remove_duplicate_brands ::
  "builtins \<Rightarrow> variant list \<Rightarrow> (string, variant list) dict \<Rightarrow> nat \<Rightarrow> variant list" where
  "remove_duplicate_brands B sel groups top_k =
     (let bs = map (extract_brand B) sel
      in if \<not> list_ex (\<lambda>b. count_list bs b > 1) bs then sel
         else
           (let new_selected =
                  fold (\<lambda>v acc. if extract_brand B v \<in> set (map (extract_brand B) acc) then acc
                                  else acc @ [v]) sel [];
                brands_used = set (map (extract_brand B) new_selected);
                extra = map (\<lambda>(b, xs). hd xs)
                          (filter (\<lambda>(b, xs). b \<notin> brands_used \<and> xs \<noteq> []) groups)
            in take top_k (new_selected @ take (top_k - length new_selected) extra)))"

definition fill_step :: "builtins \<Rightarrow> nat \<Rightarrow> nat \<Rightarrow> variant \<Rightarrow> rr_state \<Rightarrow> rr_state" where
  "fill_step B top_k max_per_brand v st =
     (if length (selected st) \<ge> top_k then st
      else if brand_counts st (extract_brand B v) < max_per_brand
      then st\<lparr>selected := selected st @ [v],
              brand_counts := (brand_counts st)(extract_brand B v := brand_counts st (extract_brand B v) + 1)\<rparr>
      else st)"

definition fill_with_diverse ::
  "builtins \<Rightarrow> variant list \<Rightarrow> nat \<Rightarrow> nat \<Rightarrow> rr_state \<Rightarrow> variant list" where
  "fill_with_diverse B remaining top_k max_per_brand st =
     selected (fold (fill_step B top_k max_per_brand) (sort_by_score_desc remaining) st)"

text \<open>\<open>_maximize_diversity_in_set\<close>, for a pool of at most \<open>top_k\<close> variants: one variant
  is popped per turn from the first brand below its cap; when no brand is left below its
  cap, everything that remains is appended.\<close>

fun pop_first ::
  "nat \<Rightarrow> (string \<Rightarrow> nat) \<Rightarrow> (string, variant list) dict \<Rightarrow>
   (variant \<times> string \<times> (string, variant list) dict) option" where
  "pop_first m counts [] = None"
| "pop_first m counts ((b, xs) # rest) =
     (if counts b < m \<and> xs \<noteq> [] then Some (hd xs, b, (b, tl xs) # rest)
      else (case pop_first m counts rest of
              None \<Rightarrow> None
            | Some (v, b', rest') \<Rightarrow> Some (v, b', (b, xs) # rest')))"

function maximize_loop ::
  "nat \<Rightarrow> nat \<Rightarrow> (string, variant list) dict \<Rightarrow> (string \<Rightarrow> nat) \<Rightarrow> variant list \<Rightarrow> variant list" where
  "maximize_loop n m groups counts sel =
     (if length sel < n
      then (case pop_first m counts groups of
              Some (v, b, groups') \<Rightarrow> maximize_loop n m groups' (counts(b := counts b + 1)) (sel @ [v])
            | None \<Rightarrow> sel @ concat (dict_values groups))
      else sel)"
  by pat_completeness auto
termination
  by (relation "measure (\<lambda>(n, m, groups, counts, sel). n - length sel)") auto

definition maximize_diversity_in_set :: "builtins \<Rightarrow> variant list \<Rightarrow> nat \<Rightarrow> variant list" where
  "maximize_diversity_in_set B vs max_per_brand =
     maximize_loop (length vs) max_per_brand (sorted_groups B vs) (\<lambda>b. 0) []"

definition enforce_diversity :: "builtins \<Rightarrow> variant list \<Rightarrow> nat \<Rightarrow> nat \<Rightarrow> variant list" where
  "enforce_diversity B vs top_k max_per_brand =
     (if length vs = 0 then []
      else if length vs \<le> top_k then maximize_diversity_in_set B vs max_per_brand
      else
        (let groups = sorted_groups B vs;
             st = rr_loop B top_k max_per_brand groups 0
                    \<lparr>selected = [], selected_keys = {}, brand_counts = (\<lambda>b. 0), found_any = False\<rparr>;
             sel1 = (if max_per_brand = 1 then remove_duplicate_brands B (selected st) groups top_k
                     else selected st);
             sel2 = (if length sel1 < top_k
                     then fill_with_diverse B
                            (filter (\<lambda>v. variant_key B v \<notin> selected_keys st) vs)
                            top_k max_per_brand (st\<lparr>selected := sel1\<rparr>)
                     else sel1)
         in take top_k sel2))"






text \<open>Two invariants for the proofs: every group holds variants of its own brand, and the
  selection holds one variant per brand, each counted in \<open>brand_counts\<close>.\<close>

definition groups_ok :: "builtins \<Rightarrow> (string, variant list) dict \<Rightarrow> bool" where
  "groups_ok B groups = (\<forall>(b, xs) \<in> set groups. \<forall>v \<in> set xs. extract_brand B v = b)"

definition rr_inv :: "builtins \<Rightarrow> rr_state \<Rightarrow> bool" where
  "rr_inv B st = (distinct (map (extract_brand B) (selected st))
                  \<and> (\<forall>v \<in> set (selected st). brand_counts st (extract_brand B v) \<ge> 1))"

section \<open>Personalized PageRank (hybrid\_graph\_coalition.py)\<close>

definition EDGE_WEIGHTS :: "(string, real) dict" where
  "EDGE_WEIGHTS =
     [(''PREFERS'', 1.0), (''HAS_FEATURE'', 0.9), (''SUITABLE_FOR'', 0.85), (''BETTER_THAN'', 0.7),
      (''INVOLVES_TRADEOFF'', 0.55), (''SHORTLISTED'', 0.65), (''VIEWED'', 0.45),
      (''VIOLATES'', 0.25), (''REJECTED'', 0.2)]"

definition out_append ::
  "(string, (string \<times> real) list) dict \<Rightarrow> string \<Rightarrow> string \<times> real \<Rightarrow>
   (string, (string \<times> real) list) dict" where
  "out_append d k x = AList.update k (dict_get d k [] @ [x]) d"

definition outgoing_step ::
  "edge \<Rightarrow> (string, (string \<times> real) list) dict \<Rightarrow> (string, (string \<times> real) list) dict" where
  "outgoing_step e d =
     (let w = dict_get EDGE_WEIGHTS (edge_type e) 0.35;
          d1 = out_append d (source_id e) (target_id e, w)
      in if edge_type e \<in> {''HAS_FEATURE'', ''SUITABLE_FOR'', ''INVOLVES_TRADEOFF'', ''BETTER_THAN''}
         then out_append d1 (target_id e) (source_id e, max 0.2 (w * 0.45))
         else d1)"

definition weighted_outgoing :: "graph \<Rightarrow> (string, (string \<times> real) list) dict" where
  "weighted_outgoing g = fold outgoing_step (edges g) []"

text \<open>
  The dictionaries \<open>score\<close> and \<open>nxt\<close> have exactly the node ids as keys.  They are
  functions on ids here, read on the node ids only; \<open>nxt[dst] += ...\<close> on an id that is
  not a key raises \<open>KeyError\<close>, which is checked once before the rounds (every round walks
  the same edges, so the first round would raise it).
\<close>

definition distribute ::
  "real \<Rightarrow> (string, (string \<times> real) list) dict \<Rightarrow> (string \<Rightarrow> real) \<Rightarrow> string \<Rightarrow>
   (string \<Rightarrow> real) \<Rightarrow> (string \<Rightarrow> real)" where
  "distribute damping outgoing sc src nxt =
     (let neighbors = dict_get outgoing src [];
          src_score = sc src
      in if neighbors = [] then nxt
         else (let s = sum_list (map snd neighbors);
                   norm = (if s = 0 then 1 else s)
               in fold (\<lambda>(dst, weight) nx. nx(dst := nx dst + damping * src_score * (weight / norm)))
                    neighbors nxt))"

definition teleport_add ::
  "real \<Rightarrow> string list \<Rightarrow> real \<Rightarrow> string \<Rightarrow> (string \<Rightarrow> real) \<Rightarrow> (string \<Rightarrow> real)" where
  "teleport_add damping node_ids teleport_mass nid nxt =
     (if nid \<in> set node_ids then nxt(nid := nxt nid + (1 - damping) * teleport_mass) else nxt)"

definition pr_round ::
  "real \<Rightarrow> string list \<Rightarrow> (string, (string \<times> real) list) dict \<Rightarrow> string list \<Rightarrow>
   (string \<Rightarrow> real) \<Rightarrow> (string \<Rightarrow> real)" where
  "pr_round damping node_ids outgoing teleport_nodes sc =
     (let n = length node_ids;
          nxt0 = (\<lambda>nid. (1 - damping) / real n);
          nxt1 = fold (distribute damping outgoing sc) node_ids nxt0;
          teleport_mass = 1 / real (max 1 (length teleport_nodes))
      in fold (teleport_add damping node_ids teleport_mass) teleport_nodes nxt1)"

definition teleport_nodes_of :: "graph \<Rightarrow> string \<Rightarrow> string list" where
  "teleport_nodes_of g session_id =
     [session_id] @ map node_id (get_neighbors g session_id (Some ''PREFERS'') ''outgoing'')"

text \<open>The scores after the rounds, before the division by the maximum.\<close>

definition pagerank_scores :: "real \<Rightarrow> nat \<Rightarrow> graph \<Rightarrow> string \<Rightarrow> (string \<Rightarrow> real)" where
  "pagerank_scores damping iterations g session_id =
     (let node_ids = dict_keys (nodes g)
      in (pr_round damping node_ids (weighted_outgoing g) (teleport_nodes_of g session_id)
            ^^ iterations) (\<lambda>nid. 1 / real (length node_ids)))"

definition pagerank_mass :: "real \<Rightarrow> nat \<Rightarrow> graph \<Rightarrow> string \<Rightarrow> real" where
  "pagerank_mass damping iterations g session_id =
     sum_list (map (pagerank_scores damping iterations g session_id) (dict_keys (nodes g)))"

text \<open>The targets that the inner loop writes to, in the order of the first round.\<close>

definition written_ids :: "graph \<Rightarrow> string list" where
  "written_ids g =
     concat (map (\<lambda>src. map fst (dict_get (weighted_outgoing g) src [])) (dict_keys (nodes g)))"

definition personalized_pagerank ::
  "real \<Rightarrow> nat \<Rightarrow> graph \<Rightarrow> string \<Rightarrow> py_error + (string, real) dict" where
  "personalized_pagerank damping iterations g session_id =
     (let node_ids = dict_keys (nodes g)
      in if node_ids = [] \<or> session_id \<notin> set node_ids then Inr []
         else (case (if iterations = 0 then None
                     else find (\<lambda>dst. dst \<notin> set node_ids) (written_ids g)) of
                 Some dst \<Rightarrow> Inl (KeyError dst)
               | None \<Rightarrow>
                   (let sc = pagerank_scores damping iterations g session_id;
                        max_val = Max (set (map sc node_ids))
                    in if max_val \<le> 0 then Inr (map (\<lambda>k. (k, sc k)) node_ids)
                       else Inr (map (\<lambda>k. (k, sc k / max_val)) node_ids))))"

text \<open>The graphs the store builds: \<open>nodes\<close> is a dictionary (its keys are distinct) and a
  node is stored under its own id.\<close>

definition nodes_wf :: "graph \<Rightarrow> bool" where
  "nodes_wf g = (distinct (dict_keys (nodes g)) \<and> (\<forall>(k, n) \<in> set (nodes g). node_id n = k))"

definition has_outgoing :: "graph \<Rightarrow> string \<Rightarrow> bool" where
  "has_outgoing g nid = (dict_get (weighted_outgoing g) nid [] \<noteq> [])"

definition ex_user_only :: graph where
  "ex_user_only = graph_of [AddNode (mk_node ''u'' ''User'')]"

definition ex_pref_cycle :: graph where
  "ex_pref_cycle =
     graph_of [AddNode (mk_node ''u'' ''User''), AddNode (mk_node ''p'' ''Preference''),
               AddNode (mk_node ''v'' ''Variant''),
               AddEdge (mk_edge ''u'' ''p'' ''PREFERS''),
               AddEdge (mk_edge ''v'' ''p'' ''HAS_FEATURE'')]"

text \<open>For the proofs: all weights are positive; the mass on the nodes that have
  outgoing weighted edges; the setting in which no round raises.\<close>

definition weights_pos :: "(string, (string \<times> real) list) dict \<Rightarrow> bool" where
  "weights_pos out = (\<forall>k. \<forall>p \<in> set (dict_get out k []). snd p > 0)"

definition dangling_free_mass ::
  "(string, (string \<times> real) list) dict \<Rightarrow> string list \<Rightarrow> (string \<Rightarrow> real) \<Rightarrow> real" where
  "dangling_free_mass out ids sc =
     sum_list (map (\<lambda>src. if dict_get out src [] = [] then 0 else sc src) ids)"

definition pr_setting ::
  "string list \<Rightarrow> (string, (string \<times> real) list) dict \<Rightarrow> string list \<Rightarrow> bool" where
  "pr_setting ids out tns =
     (distinct ids \<and> ids \<noteq> [] \<and> weights_pos out
      \<and> (\<forall>src \<in> set ids. \<forall>p \<in> set (dict_get out src []). fst p \<in> set ids)
      \<and> tns \<noteq> [] \<and> (\<forall>t \<in> set tns. t \<in> set ids))"

section \<open>The enhanced filter (enhanced\_filtering.py)\<close>

text \<open>
  A catalogue row is a payload (the columns of the data frame with their values; a
  missing value is \<open>PNone\<close>).  Where Python raises on an ill-typed value (a price or a
  seat count that is not a number, a variant name that is not a string) the row function
  returns \<open>None\<close>, and so does the whole filter.
\<close>

datatype dval = DVal pyval | DList "string list"

record violation =
  v_type :: string
  v_severity :: string
  v_message :: "dval list"

record filter_context =
  ctx_must_have_preferences :: "string list"
  ctx_user_control_config :: "user_control_config option"
  ctx_must_have_features :: "string list"

definition default_priorities :: "(string, real) dict" where
  "default_priorities =
     [(''budget'', 0.5), (''fuel_type'', 0.5), (''body_type'', 0.5), (''transmission'', 0.5),
      (''seating'', 0.5), (''features'', 0.5), (''performance'', 0.5)]"

definition filter_priorities :: "user_control_config option \<Rightarrow> (string, real) dict" where
  "filter_priorities cfg =
     (case cfg of
        None \<Rightarrow> default_priorities
      | Some c \<Rightarrow>
          if \<not> exploration_rate_set c then default_priorities
          else fold (\<lambda>(k, v) d. AList.update k v d) (scoring_priorities c) default_priorities)"

text \<open>\<open>float(control_data.get('exploration_rate', 0.1) or 0.1)\<close>: a rate of zero is
  falsy and becomes 0.1.\<close>

definition filter_exploration_rate :: "user_control_config option \<Rightarrow> real" where
  "filter_exploration_rate cfg =
     (let r = (case cfg of None \<Rightarrow> 0.1 | Some c \<Rightarrow> exploration_rate c);
          r1 = (if r = 0 then 0.1 else r)
      in max 0 (min 0.5 r1))"

definition filter_exploration_norm :: "user_control_config option \<Rightarrow> real" where
  "filter_exploration_norm cfg = filter_exploration_rate cfg / 0.5"

definition filter_priority :: "user_control_config option \<Rightarrow> string \<Rightarrow> real" where
  "filter_priority cfg key = max 0 (min 1 (dict_get (filter_priorities cfg) key 0.5))"

definition filter_strictness :: "user_control_config option \<Rightarrow> string \<Rightarrow> real" where
  "filter_strictness cfg key =
     max 0 (min 1 (0.7 * filter_priority cfg key + 0.3 * (1 - filter_exploration_norm cfg)))"

definition promotable_keys :: "string list" where
  "promotable_keys = [''budget'', ''fuel_type'', ''body_type'', ''transmission'', ''seating'', ''features'']"

definition promoted_keys :: "user_control_config option \<Rightarrow> string list" where
  "promoted_keys cfg = filter (\<lambda>key. filter_strictness cfg key \<ge> 0.78) promotable_keys"

definition must_have_prefs :: "filter_context \<Rightarrow> string list" where
  "must_have_prefs ctx =
     remdups (ctx_must_have_preferences ctx @ promoted_keys (ctx_user_control_config ctx))"

definition filter_budget_tolerance :: "user_control_config option \<Rightarrow> real" where
  "filter_budget_tolerance cfg =
     max 1.03 (min 1.35 (1.03 + 0.26 * filter_exploration_norm cfg
                          + 0.14 * (1 - filter_priority cfg ''budget'')))"

text \<open>The state of one turn of the loop, and what is appended to the buckets of
  \<open>filtering_details\<close> (each entry with the name of its bucket).\<close>

record row_state =
  should_keep :: bool
  violation_reasons :: "violation list"
  removals :: "(string \<times> (string, dval) dict) list"

definition remove_row :: "string \<Rightarrow> (string, dval) dict \<Rightarrow> row_state \<Rightarrow> row_state" where
  "remove_row bucket entry rs =
     rs\<lparr>should_keep := False, removals := removals rs @ [(bucket, entry)]\<rparr>"

definition add_violation :: "string \<Rightarrow> string \<Rightarrow> dval list \<Rightarrow> row_state \<Rightarrow> row_state" where
  "add_violation ty sev msg rs =
     rs\<lparr>violation_reasons := violation_reasons rs @ [\<lparr>v_type = ty, v_severity = sev, v_message = msg\<rparr>]\<rparr>"

fun py_num :: "pyval \<Rightarrow> real option" where
  "py_num (PBool b) = Some (if b then 1 else 0)"
| "py_num (PInt i) = Some (real_of_int i)"
| "py_num (PFloat r) = Some r"
| "py_num v = None"

definition trunc_int :: "real \<Rightarrow> int" where
  "trunc_int r = (if r \<ge> 0 then \<lfloor>r\<rfloor> else \<lceil>r\<rceil>)"

text \<open>\<open>int(v)\<close>: on a string, an optional sign and decimal digits between white space.\<close>

definition parse_int :: "string \<Rightarrow> int option" where
  "parse_int s =
     (let t = strip s;
          neg = (t \<noteq> [] \<and> hd t = CHR ''-'');
          ds = (if t \<noteq> [] \<and> hd t \<in> {CHR ''-'', CHR ''+''} then tl t else t)
      in if ds \<noteq> [] \<and> list_all is_digit ds
         then Some (if neg then - int (digits_val ds) else int (digits_val ds))
         else None)"

fun py_int :: "pyval \<Rightarrow> int option" where
  "py_int PNone = None"
| "py_int (PBool b) = Some (if b then 1 else 0)"
| "py_int (PInt i) = Some i"
| "py_int (PFloat r) = Some (trunc_int r)"
| "py_int (PStr s) = parse_int s"

definition check_budget ::
  "string list \<Rightarrow> real \<Rightarrow> preferences \<Rightarrow> payload \<Rightarrow> string \<Rightarrow> row_state \<Rightarrow> row_state option" where
  "check_budget mh tol P row name rs =
     (case budget P of
        None \<Rightarrow> Some rs
      | Some (min_budget, max_budget) \<Rightarrow>
          (let price = dict_get row ''numeric_price'' PNone
           in if price = PNone then Some rs
              else (case py_num price of
                      None \<Rightarrow> None
                    | Some pr \<Rightarrow>
                        if ''budget'' \<in> set mh
                        then (if pr > max_budget
                              then Some (remove_row ''removed_by_budget''
                                     [(''variant'', DVal (PStr name)), (''price'', DVal price),
                                      (''max_budget'', DVal (PFloat max_budget)),
                                      (''over_by'', DVal (PFloat (pr - max_budget)))] rs)
                              else Some rs)
                        else if pr > max_budget * tol
                        then Some (remove_row ''removed_by_budget''
                               [(''variant'', DVal (PStr name)), (''price'', DVal price),
                                (''max_budget'', DVal (PFloat max_budget))] rs)
                        else if pr > max_budget
                        then Some (add_violation ''budget'' ''medium''
                               [DVal (PInt (trunc_int pr)), DVal (PInt (trunc_int (pr - max_budget)))] rs)
                        else Some rs)))"

definition fuzzy_match :: "(string, string list) dict \<Rightarrow> string \<Rightarrow> string \<Rightarrow> bool" where
  "fuzzy_match mappings pref actual =
     (case find (\<lambda>(key, variants). str_in key pref) mappings of
        Some (key, variants) \<Rightarrow> list_ex (\<lambda>v. str_in v actual) variants
      | None \<Rightarrow> False)"

definition fuel_mappings :: "(string, string list) dict" where
  "fuel_mappings =
     [(''petrol'', [''petrol'', ''gasoline'']), (''diesel'', [''diesel'']),
      (''cng'', [''cng'', ''compressed natural gas'']),
      (''electric'', [''electric'', ''ev'', ''battery''])]"

definition body_mappings :: "(string, string list) dict" where
  "body_mappings =
     [(''suv'', [''suv'', ''sport utility vehicle'', ''compact suv'', ''midsize suv'']),
      (''sedan'', [''sedan'', ''saloon'']), (''hatchback'', [''hatchback'', ''hatch'']),
      (''muv'', [''muv'', ''multi utility vehicle'', ''mpv''])]"

definition trans_mappings :: "(string, string list) dict" where
  "trans_mappings =
     [(''automatic'', [''automatic'', ''amt'', ''cvt'', ''dct'', ''ivt'']),
      (''manual'', [''manual'', ''mt''])]"

definition feature_mappings :: "(string, string list) dict" where
  "feature_mappings =
     [(''sunroof'', [''sunroof'', ''panoramic'', ''moonroof'']),
      (''leather'', [''leather'', ''leatherette'']),
      (''navigation'', [''navigation'', ''gps'', ''nav'']),
      (''camera'', [''camera'', ''rear view'', ''360'', ''parking'']),
      (''cruise'', [''cruise control'', ''adaptive cruise'']),
      (''keyless'', [''keyless'', ''smart key'', ''push button'']),
      (''wireless'', [''wireless'', ''wireless charging'']),
      (''android'', [''android auto'', ''android'']),
      (''apple'', [''apple carplay'', ''carplay'', ''apple''])]"

text \<open>The value of a row that a text preference is compared with, and the test the
  three text blocks make.\<close>

definition row_text :: "builtins \<Rightarrow> payload \<Rightarrow> string \<Rightarrow> string \<Rightarrow> string" where
  "row_text B row key_norm key_raw = lower (py_str B (dict_get row key_norm (dict_get row key_raw (PStr []))))"

definition text_matches ::
  "builtins \<Rightarrow> payload \<Rightarrow> string \<Rightarrow> string \<Rightarrow> string \<Rightarrow> (string, string list) dict \<Rightarrow> bool" where
  "text_matches B row pref key_norm key_raw mappings =
     (let actual = row_text B row key_norm key_raw; pref_lower = lower pref
      in str_in pref_lower actual \<or> str_in actual pref_lower \<or> fuzzy_match mappings pref_lower actual)"

text \<open>The fuel, body and transmission blocks: the preference, the two columns, the
  table, the name of the dimension, its bucket and the keys of its removal entry, the
  two severities with their threshold, and the last word of the message.\<close>

definition check_text ::
  "builtins \<Rightarrow> string list \<Rightarrow> (string \<Rightarrow> real) \<Rightarrow> string option \<Rightarrow> payload \<Rightarrow> string \<Rightarrow>
   string \<Rightarrow> string \<Rightarrow> (string, string list) dict \<Rightarrow> string \<Rightarrow> string \<Rightarrow> string \<Rightarrow> string \<Rightarrow>
   real \<Rightarrow> string \<Rightarrow> string \<Rightarrow> row_state \<Rightarrow> row_state" where
  "check_text B mh strictness pref row name key_norm key_raw mappings dimension bucket
       entry_actual entry_required threshold sev_above sev_below rs =
     (if \<not> should_keep rs then rs
      else (case pref of
              None \<Rightarrow> rs
            | Some pf \<Rightarrow>
                if pf = ''Any'' then rs
                else if text_matches B row pf key_norm key_raw mappings then rs
                else if dimension \<in> set mh
                then remove_row bucket
                       [(''variant'', DVal (PStr name)),
                        (entry_actual, DVal (PStr (row_text B row key_norm key_raw))),
                        (entry_required, DVal (PStr pf))] rs
                else add_violation dimension
                       (if strictness dimension \<ge> threshold then sev_above else sev_below)
                       [DVal (PStr (row_text B row key_norm key_raw)), DVal (PStr pf)] rs))"

definition check_seating ::
  "string list \<Rightarrow> (string \<Rightarrow> real) \<Rightarrow> preferences \<Rightarrow> payload \<Rightarrow> string \<Rightarrow> row_state \<Rightarrow>
   row_state option" where
  "check_seating mh strictness P row name rs =
     (if \<not> should_keep rs \<or> seating P = PNone then Some rs
      else (case py_int (seating P) of
              None \<Rightarrow> None
            | Some required_seats \<Rightarrow>
                (let variant_seats = dict_get row ''seating_norm'' (dict_get row ''Seating Capacity'' PNone)
                 in if variant_seats = PNone then Some rs
                    else (case py_int variant_seats of
                            None \<Rightarrow> Some rs
                          | Some variant_seats_int \<Rightarrow>
                              if variant_seats_int < required_seats
                              then (if ''seating'' \<in> set mh
                                    then Some (remove_row ''removed_by_seating''
                                           [(''variant'', DVal (PStr name)),
                                            (''variant_seats'', DVal (PInt variant_seats_int)),
                                            (''required_seats'', DVal (PInt required_seats))] rs)
                                    else Some (add_violation ''seating''
                                           (if strictness ''seating'' \<ge> 0.7 then ''high'' else ''medium'')
                                           [DVal (PInt variant_seats_int), DVal (PInt required_seats)] rs))
                              else Some rs))))"

definition feature_found :: "builtins \<Rightarrow> payload \<Rightarrow> string \<Rightarrow> bool" where
  "feature_found B row feature =
     (let feature_lower = lower feature;
          all_values = flatten_car_text B row;
          feature_columns = filter (\<lambda>col. str_in ''feature'' (lower col) \<or> str_in ''option'' (lower col))
                              (dict_keys row)
      in str_in feature_lower all_values
         \<or> list_ex (\<lambda>col. str_in feature_lower (lower (py_str B (dict_get row col (PStr []))))) feature_columns
         \<or> fuzzy_match feature_mappings feature_lower all_values)"

definition check_features :: "builtins \<Rightarrow> payload \<Rightarrow> string list \<Rightarrow> string list \<times> string list" where
  "check_features B row required =
     (filter (feature_found B row) required, filter (\<lambda>f. \<not> feature_found B row f) required)"

definition check_features_block ::
  "builtins \<Rightarrow> (string \<Rightarrow> real) \<Rightarrow> filter_context \<Rightarrow> preferences \<Rightarrow> payload \<Rightarrow> string \<Rightarrow>
   row_state \<Rightarrow> row_state" where
  "check_features_block B strictness ctx P row name rs =
     (if \<not> should_keep rs \<or> features P = [] then rs
      else (let (matched_features, missing_features) = check_features B row (features P);
                missing_must_haves = filter (\<lambda>f. f \<notin> set matched_features) (ctx_must_have_features ctx)
            in if missing_must_haves \<noteq> []
               then remove_row ''removed_by_features''
                      [(''variant'', DVal (PStr name)), (''missing_features'', DList missing_must_haves)] rs
               else if missing_features \<noteq> []
               then add_violation ''features''
                      (if strictness ''features'' \<ge> 0.7 then ''high'' else ''medium'')
                      [DList missing_features] rs
               else rs))"

definition check_brand ::
  "builtins \<Rightarrow> string list \<Rightarrow> preferences \<Rightarrow> payload \<Rightarrow> string \<Rightarrow> row_state \<Rightarrow> row_state" where
  "check_brand B mh P row name rs =
     (if \<not> should_keep rs then rs
      else (case brand P of
              None \<Rightarrow> rs
            | Some pref_brand \<Rightarrow>
                if pref_brand = [] \<or> pref_brand = ''Any'' then rs
                else (let variant_brand = lower (py_str B (dict_get row ''brand'' (PStr [])));
                          brand_match = (str_in (lower pref_brand) variant_brand
                                         \<or> str_in (lower pref_brand) (lower name))
                      in if \<not> brand_match \<and> ''brand'' \<in> set mh
                         then remove_row ''removed_by_brand''
                                [(''variant'', DVal (PStr name)), (''required_brand'', DVal (PStr pref_brand))] rs
                         else rs)))"

definition extract_power :: "builtins \<Rightarrow> pyval \<Rightarrow> int option" where
  "extract_power B power_str =
     (if \<not> py_truthy power_str then None
      else (let nums = takeWhile is_digit (dropWhile (\<lambda>c. \<not> is_digit c) (py_str B power_str))
            in if nums = [] then None else Some (int (digits_val nums))))"

definition check_performance ::
  "builtins \<Rightarrow> (string \<Rightarrow> real) \<Rightarrow> preferences \<Rightarrow> payload \<Rightarrow> string \<Rightarrow> row_state \<Rightarrow> row_state" where
  "check_performance B strictness P row name rs =
     (if \<not> should_keep rs then rs
      else (case performance P of
              None \<Rightarrow> rs
            | Some perf_score \<Rightarrow>
                if perf_score > 7
                then (case extract_power B (dict_get row ''Max Power'' (PStr [])) of
                        None \<Rightarrow> rs
                      | Some power_val \<Rightarrow>
                          if power_val \<noteq> 0 \<and> power_val < 120
                          then (if strictness ''performance'' \<ge> 0.78
                                then remove_row ''removed_by_performance''
                                       [(''variant'', DVal (PStr name)), (''power'', DVal (PInt power_val)),
                                        (''required_min_power'', DVal (PInt 120))] rs
                                else add_violation ''performance''
                                       (if strictness ''performance'' \<ge> 0.65 then ''high'' else ''medium'')
                                       [DVal (PInt power_val)] rs)
                          else rs)
                else rs))"

text \<open>The name of the row: the column \<open>variant\<close>, or \<open>variant_<index>\<close> when the row
  has no such column; \<open>.replace\<close> raises on a value that is not a string.\<close>

definition row_variant_name :: "int \<Rightarrow> payload \<Rightarrow> string option" where
  "row_variant_name idx row =
     (case map_of row ''variant'' of
        None \<Rightarrow> Some (''variant_'' @ int_str idx)
      | Some (PStr s) \<Rightarrow> Some s
      | Some _ \<Rightarrow> None)"

definition variant_id_of :: "string \<Rightarrow> string" where
  "variant_id_of name = ''variant_'' @ map (\<lambda>c. if c = CHR '' '' then CHR ''_'' else c) name"

definition filter_row ::
  "builtins \<Rightarrow> preferences \<Rightarrow> filter_context \<Rightarrow> int \<times> payload \<Rightarrow> (string \<times> row_state) option" where
  "filter_row B P ctx entry =
     (let cfg = ctx_user_control_config ctx;
          mh = must_have_prefs ctx;
          strictness = filter_strictness cfg;
          row = snd entry
      in case row_variant_name (fst entry) row of
           None \<Rightarrow> None
         | Some name \<Rightarrow>
             (case check_budget mh (filter_budget_tolerance cfg) P row name
                     \<lparr>should_keep = True, violation_reasons = [], removals = []\<rparr> of
                None \<Rightarrow> None
              | Some rs1 \<Rightarrow>
                  (let rs2 = check_text B mh strictness (fuel_type P) row name
                               ''fuel_type_norm'' ''Fuel Type'' fuel_mappings ''fuel_type''
                               ''removed_by_fuel'' ''variant_fuel'' ''required_fuel''
                               0.6 ''medium'' ''low'' rs1;
                       rs3 = check_text B mh strictness (body_type P) row name
                               ''body_type_norm'' ''Body Type'' body_mappings ''body_type''
                               ''removed_by_body'' ''variant_body'' ''required_body''
                               0.6 ''medium'' ''low'' rs2;
                       rs4 = check_text B mh strictness (transmission P) row name
                               ''transmission_norm'' ''Transmission Type'' trans_mappings ''transmission''
                               ''removed_by_transmission'' ''variant_trans'' ''required_trans''
                               0.7 ''high'' ''medium'' rs3
                   in case check_seating mh strictness P row name rs4 of
                        None \<Rightarrow> None
                      | Some rs5 \<Rightarrow>
                          (let rs6 = check_features_block B strictness ctx P row name rs5;
                               rs7 = check_brand B mh P row name rs6;
                               rs8 = check_performance B strictness P row name rs7
                           in Some (name, rs8)))))"

record soft_violation =
  sv_variant_id :: string
  sv_variant_name :: string
  sv_violations :: "violation list"

record filtering_details =
  fd_removed :: "(string \<times> (string, dval) dict) list"
  fd_soft_violations :: "soft_violation list"

definition removed_by :: "filtering_details \<Rightarrow> string \<Rightarrow> (string, dval) dict list" where
  "removed_by fd bucket = map snd (filter (\<lambda>(b, e). b = bucket) (fd_removed fd))"

definition record_row ::
  "string \<times> row_state \<Rightarrow> string list \<times> filtering_details \<Rightarrow> string list \<times> filtering_details" where
  "record_row res out =
     (let name = fst res; rs = snd res; kept = fst out; fd = snd out;
          fd1 = fd\<lparr>fd_removed := fd_removed fd @ removals rs\<rparr>
      in if should_keep rs
         then (kept @ [variant_id_of name],
               if violation_reasons rs \<noteq> []
               then fd1\<lparr>fd_soft_violations := fd_soft_violations fd1 @
                          [\<lparr>sv_variant_id = variant_id_of name, sv_variant_name = name,
                            sv_violations = violation_reasons rs\<rparr>]\<rparr>
               else fd1)
         else (kept, fd1))"

fun filter_rows ::
  "builtins \<Rightarrow> preferences \<Rightarrow> filter_context \<Rightarrow> (int \<times> payload) list \<Rightarrow>
   string list \<times> filtering_details \<Rightarrow> (string list \<times> filtering_details) option" where
  "filter_rows B P ctx [] out = Some out"
| "filter_rows B P ctx (entry # rest) out =
     (case filter_row B P ctx entry of
        None \<Rightarrow> None
      | Some res \<Rightarrow> filter_rows B P ctx rest (record_row res out))"

definition filter_variants ::
  "builtins \<Rightarrow> (int \<times> payload) list \<Rightarrow> preferences \<Rightarrow> filter_context \<Rightarrow>
   (string list \<times> filtering_details) option" where
  "filter_variants B variants_df P ctx =
     filter_rows B P ctx variants_df ([], \<lparr>fd_removed = [], fd_soft_violations = []\<rparr>)"

text \<open>What the claims call a mismatch of a row on a dimension.\<close>

definition text_mismatch ::
  "builtins \<Rightarrow> string option \<Rightarrow> payload \<Rightarrow> string \<Rightarrow> string \<Rightarrow> (string, string list) dict \<Rightarrow> bool" where
  "text_mismatch B pref row key_norm key_raw mappings =
     (case pref of
        None \<Rightarrow> False
      | Some pf \<Rightarrow> pf \<noteq> ''Any'' \<and> \<not> text_matches B row pf key_norm key_raw mappings)"

definition seating_mismatch :: "preferences \<Rightarrow> payload \<Rightarrow> bool" where
  "seating_mismatch P row =
     (case (py_int (seating P),
            py_int (dict_get row ''seating_norm'' (dict_get row ''Seating Capacity'' PNone))) of
        (Some want, Some have) \<Rightarrow> have < want
      | _ \<Rightarrow> False)"

definition mismatch :: "builtins \<Rightarrow> preferences \<Rightarrow> payload \<Rightarrow> string \<Rightarrow> bool" where
  "mismatch B P row dimension =
     (if dimension = ''fuel_type''
      then text_mismatch B (fuel_type P) row ''fuel_type_norm'' ''Fuel Type'' fuel_mappings
      else if dimension = ''body_type''
      then text_mismatch B (body_type P) row ''body_type_norm'' ''Body Type'' body_mappings
      else if dimension = ''transmission''
      then text_mismatch B (transmission P) row ''transmission_norm'' ''Transmission Type'' trans_mappings
      else if dimension = ''seating'' then seating_mismatch P row
      else False)"

definition bucket_of :: "string \<Rightarrow> string" where
  "bucket_of dimension =
     (if dimension = ''fuel_type'' then ''removed_by_fuel''
      else if dimension = ''body_type'' then ''removed_by_body''
      else if dimension = ''transmission'' then ''removed_by_transmission''
      else ''removed_by_'' @ dimension)"

definition ex_strict_config :: user_control_config where
  "ex_strict_config =
     ex_config\<lparr>exploration_rate := 0.25, exploration_rate_set := True,
               scoring_priorities := [(''fuel_type'', 0.91), (''transmission'', 0.6)]\<rparr>"

definition ex_filter_context :: filter_context where
  "ex_filter_context =
     \<lparr>ctx_must_have_preferences = [], ctx_user_control_config = Some ex_strict_config,
      ctx_must_have_features = []\<rparr>"

definition ex_diesel_row :: payload where
  "ex_diesel_row =
     [(''variant'', PStr ''Tata Nexon XZ''), (''brand'', PStr ''Tata''), (''numeric_price'', PInt 1200000),
      (''Fuel Type'', PStr ''Diesel''), (''Body Type'', PStr ''SUV''),
      (''Transmission Type'', PStr ''Automatic''), (''Seating Capacity'', PInt 5)]"

definition ex_manual_row :: payload where
  "ex_manual_row =
     [(''variant'', PStr ''Kia Sonet HTK''), (''brand'', PStr ''Kia''), (''numeric_price'', PInt 1100000),
      (''Fuel Type'', PStr ''Petrol''), (''Body Type'', PStr ''SUV''),
      (''Transmission Type'', PStr ''Manual''), (''Seating Capacity'', PInt 5)]"

text \<open>For the proofs: what a check may do to the state of a row (it never sets
  \<open>should_keep\<close> back and never drops a violation), the buckets a row was added to, and
  the rows that pass every check, with the id they are kept under.\<close>

definition step_ok :: "row_state \<Rightarrow> row_state \<Rightarrow> bool" where
  "step_ok rs rs' = ((should_keep rs' \<longrightarrow> should_keep rs)
                     \<and> set (violation_reasons rs) \<subseteq> set (violation_reasons rs'))"

definition buckets :: "row_state \<Rightarrow> string set" where
  "buckets rs = fst ` set (removals rs)"

definition keeps_row :: "builtins \<Rightarrow> preferences \<Rightarrow> filter_context \<Rightarrow> int \<times> payload \<Rightarrow> bool" where
  "keeps_row B P ctx entry =
     (case filter_row B P ctx entry of Some (name, rs) \<Rightarrow> should_keep rs | None \<Rightarrow> False)"

definition row_id :: "int \<times> payload \<Rightarrow> string" where
  "row_id entry =
     (case row_variant_name (fst entry) (snd entry) of Some name \<Rightarrow> variant_id_of name | None \<Rightarrow> [])"

text \<open>The blend of priority and exploration rate in the words of the specification.\<close>

definition claimed_strictness :: "real \<Rightarrow> real \<Rightarrow> real" where
  "claimed_strictness p e = max 0 (min 1 (0.68 * p + 0.32 * (1 - e / 0.5)))"

text \<open>Two rows for the example context, and what the filter returns on them.\<close>

definition ex_filter_rows :: "(int \<times> payload) list" where
  "ex_filter_rows = [(0, ex_diesel_row), (1, ex_manual_row)]"

definition ex_filter_details :: filtering_details where
  "ex_filter_details =
     \<lparr>fd_removed =
        [(''removed_by_fuel'',
          [(''variant'', DVal (PStr ''Tata Nexon XZ'')),
           (''variant_fuel'', DVal (PStr ''diesel'')),
           (''required_fuel'', DVal (PStr ''Petrol''))])],
      fd_soft_violations =
        [\<lparr>sv_variant_id = ''variant_Kia_Sonet_HTK'', sv_variant_name = ''Kia Sonet HTK'',
          sv_violations =
            [\<lparr>v_type = ''transmission'', v_severity = ''medium'',
              v_message = [DVal (PStr ''manual''), DVal (PStr ''Automatic'')]\<rparr>]\<rparr>]\<rparr>"

section \<open>The recommendation pipeline (recommendation\_pipeline.py)\<close>





























section \<open>Properties of the graph store\<close>

lemma dict_get_simps:
  "dict_get [] k dflt = dflt"
  "dict_get ((a, b) # d) k dflt = (if a = k then b else dict_get d k dflt)"
  by (auto simp: dict_get_def)

lemma dict_get_update:
  "dict_get (AList.update k v d) k' dflt = (if k' = k then v else dict_get d k' dflt)"
  by (simp add: dict_get_def update_conv')

lemma dict_get_absent: "k \<notin> set (dict_keys d) \<Longrightarrow> dict_get d k dflt = dflt"
  by (simp add: dict_get_def dict_keys_def map_of_eq_None_iff[THEN iffD2])

lemma exec_call_put: "exec_call g c = Inr (put_call g c)"
  by (cases c) (simp_all add: exec_call_def put_call_def add_node_def add_edge_def)

lemma run_calls_fold: "run_calls g cs = Inr (fold (\<lambda>c g. put_call g c) cs g)"
  by (induction cs arbitrary: g) (simp_all add: exec_call_put)

lemma concat_update_empty:
  "t \<notin> set (dict_keys d) \<Longrightarrow> concat (map snd (AList.update t [] d)) = concat (map snd d)"
  by (induction d) (auto simp: dict_keys_def)

lemma lookup2_append:
  "lookup2 (index_append idx k e) k' t' =
     (if k' = k \<and> t' = edge_type e then lookup2 idx k' t' @ [e] else lookup2 idx k' t')"
  by (auto simp: lookup2_def index_append_def Let_def dict_get_update dict_get_absent dict_get_simps)

lemma mset_concat_update:
  "mset (concat (map snd (AList.update t (dict_get d t [] @ [e]) d))) =
   add_mset e (mset (concat (map snd d)))"
proof (induction d)
  case Nil
  then show ?case by (simp add: dict_get_def)
next
  case (Cons p d)
  then show ?case by (cases p) (auto simp: dict_get_def)
qed

lemma all_of_append:
  "mset (all_of (index_append idx k e) k') =
     (if k' = k then add_mset e (mset (all_of idx k')) else mset (all_of idx k'))"
proof -
  have a: "mset (concat (map snd (AList.update t (dict_get (AList.update t [] d) t [] @ [e])
                                    (AList.update t [] d))))
       = add_mset e (mset (concat (map snd d)))"
    if "t \<notin> set (dict_keys d)" for t and d :: "(string, edge list) dict"
    using that by (induction d) (auto simp: dict_get_def dict_keys_def)
  show ?thesis
    by (auto simp: all_of_def index_append_def Let_def dict_get_update dict_values_def
        mset_concat_update dict_get_absent concat_update_empty dict_get_simps
        a[unfolded dict_get_update, simplified])
qed

lemma index_edges_alt:
  "index_edges idx k et = (if truthy et then lookup2 idx k (the et) else all_of idx k)"
  by (auto simp: index_edges_def lookup2_def all_of_def dict_get_def dict_values_def
      split: option.splits)

lemma lookup2_index_of:
  "lookup2 (index_of key es) k t = filter (\<lambda>e. key e = k \<and> edge_type e = t) es"
proof (induction es rule: rev_induct)
  case Nil
  then show ?case by (simp add: index_of_def lookup2_def dict_get_def)
next
  case (snoc e es)
  then show ?case by (auto simp: index_of_def lookup2_append)
qed

lemma all_of_index_of:
  "mset (all_of (index_of key es) k) = mset (filter (\<lambda>e. key e = k) es)"
proof (induction es rule: rev_induct)
  case Nil
  then show ?case by (simp add: index_of_def all_of_def dict_get_def dict_values_def)
next
  case (snoc e es)
  then show ?case by (auto simp: index_of_def all_of_append)
qed

lemma mset_index_edges:
  "mset (index_edges (index_of key es) k et) =
     filter_mset (\<lambda>e. key e = k \<and> (truthy et \<longrightarrow> edge_type e = the et)) (mset es)"
  by (auto simp: index_edges_alt lookup2_index_of all_of_index_of)

lemma fold_put_call: "fold (\<lambda>c g. put_call g c) cs empty_graph = graph_of cs"
proof (induction cs rule: rev_induct)
  case Nil
  then show ?case
    by (simp add: graph_of_def empty_graph_def nodes_of_def edges_of_def index_of_def
        map_filter_simps)
next
  case (snoc c cs)
  then show ?case
    by (cases c)
      (simp_all add: graph_of_def put_call_def nodes_of_def edges_of_def index_of_def
        map_filter_def)
qed

lemma run_calls_graph_of: "run_calls empty_graph cs = Inr (graph_of cs)"
  by (simp add: run_calls_fold fold_put_call)

lemma nodes_of_shape:
  "nodes_of cs =
   List.map_filter (\<lambda>s. case s of Inl n \<Rightarrow> Some n | Inr t \<Rightarrow> None) (map call_shape cs)"
proof (induction cs)
  case Nil
  then show ?case by (simp add: nodes_of_def map_filter_simps)
next
  case (Cons c cs)
  then show ?case by (cases c) (simp_all add: nodes_of_def map_filter_simps)
qed

lemma mset_edges_of:
  "mset (edges_of cs) =
   image_mset (\<lambda>c. case c of AddEdge e \<Rightarrow> e)
     (filter_mset (\<lambda>c. case c of AddEdge e \<Rightarrow> True | _ \<Rightarrow> False) (mset cs))"
proof (induction cs)
  case Nil
  then show ?case by (simp add: edges_of_def map_filter_simps)
next
  case (Cons c cs)
  then show ?case by (cases c) (simp_all add: edges_of_def map_filter_simps)
qed

lemma reorder_nodes:
  "same_type_reorder cs1 cs2 \<Longrightarrow> nodes (graph_of cs1) = nodes (graph_of cs2)"
  by (simp add: same_type_reorder_def graph_of_def nodes_of_shape)

lemma reorder_edges:
  "same_type_reorder cs1 cs2 \<Longrightarrow> mset (edges (graph_of cs1)) = mset (edges (graph_of cs2))"
  by (simp add: same_type_reorder_def graph_of_def mset_edges_of)

lemma mset_map_filter:
  "mset (List.map_filter f xs) = image_mset (the \<circ> f) (filter_mset (\<lambda>x. f x \<noteq> None) (mset xs))"
  by (simp add: map_filter_def)

lemma mset_get_neighbors_graph_of:
  "mset (get_neighbors (graph_of cs) n et d) =
    (if d \<in> {''outgoing'', ''both''} then
       image_mset (the \<circ> (\<lambda>e. map_of (nodes (graph_of cs)) (target_id e)))
         (filter_mset (\<lambda>e. map_of (nodes (graph_of cs)) (target_id e) \<noteq> None)
            (filter_mset (\<lambda>e. source_id e = n \<and> (truthy et \<longrightarrow> edge_type e = the et))
               (mset (edges (graph_of cs)))))
     else {#}) +
    (if d \<in> {''incoming'', ''both''} then
       image_mset (the \<circ> (\<lambda>e. map_of (nodes (graph_of cs)) (source_id e)))
         (filter_mset (\<lambda>e. map_of (nodes (graph_of cs)) (source_id e) \<noteq> None)
            (filter_mset (\<lambda>e. target_id e = n \<and> (truthy et \<longrightarrow> edge_type e = the et))
               (mset (edges (graph_of cs)))))
     else {#})"
  unfolding get_neighbors_def mset_append
  by (simp add: mset_map_filter graph_of_def mset_index_edges del: insert_iff)

lemma has_edge_set:
  "has_edge g s t et \<longleftrightarrow>
     (\<exists>e \<in> set (edges g). (s \<noteq> [] \<longrightarrow> source_id e = s) \<and> (t \<noteq> [] \<longrightarrow> target_id e = t)
        \<and> (truthy et \<longrightarrow> edge_type e = the et))"
  by (auto simp: has_edge_def get_edges_def truthy_def filter_empty_conv split: option.splits)

lemma ex_calls_reorder: "same_type_reorder ex_calls1 ex_calls2"
  by (simp add: same_type_reorder_def ex_calls1_def ex_calls2_def ex_nodes_def mk_edge_def)

text \<open>
  \<^bold>\<open>C10.\<close> When the id of the node is already a key of \<open>nodes\<close>, \<open>add_node\<close> raises
  nothing and stores the new node under that id in place of the old one: the keys of
  \<open>nodes\<close>, in their order, stay as they were (no second entry appears), every other id
  still maps to its old node, and the edge list, the forward index and the reverse index
  are unchanged.
\<close>

theorem add_node_existing_replaces:
  assumes "node_id n \<in> set (dict_keys (nodes g))"
  shows "\<exists>g'. add_node g (NodeObj n) = Inr g'
     \<and> get_node g' (node_id n) = Some n
     \<and> dict_keys (nodes g') = dict_keys (nodes g)
     \<and> (\<forall>k. k \<noteq> node_id n \<longrightarrow> get_node g' k = get_node g k)
     \<and> edges g' = edges g
     \<and> edge_index g' = edge_index g
     \<and> reverse_edge_index g' = reverse_edge_index g"
  using assms
  by (auto simp: add_node_def get_node_def dict_keys_def update_conv' update_keys)

theorem add_node_existing_replaces_witness:
  "node_id (mk_node ''a'' ''Preference'') \<in> set (dict_keys (nodes ex_graph))
   \<and> get_node ex_graph ''a'' = Some (mk_node ''a'' ''Variant'')
   \<and> add_node ex_graph (NodeObj (mk_node ''a'' ''Preference''))
       = Inr (ex_graph\<lparr>nodes := AList.update ''a'' (mk_node ''a'' ''Preference'') (nodes ex_graph)\<rparr>)
   \<and> dict_keys (AList.update ''a'' (mk_node ''a'' ''Preference'') (nodes ex_graph))
       = [''u'', ''a'', ''b'', ''c'']
   \<and> dict_keys (nodes ex_graph) = [''u'', ''a'', ''b'', ''c'']"
proof -
  have k: "dict_keys (nodes ex_graph) = [''u'', ''a'', ''b'', ''c'']"
    by (simp add: ex_graph_def graph_of_def nodes_of_def ex_calls1_def ex_nodes_def
        map_filter_simps mk_node_def dict_keys_def)
  have h: "node_id (mk_node ''a'' ''Preference'') \<in> set (dict_keys (nodes ex_graph))"
    by (simp add: k mk_node_def)
  have old: "get_node ex_graph ''a'' = Some (mk_node ''a'' ''Variant'')"
    by (simp add: get_node_def ex_graph_def graph_of_def nodes_of_def ex_calls1_def ex_nodes_def
        map_filter_simps mk_node_def)
  from add_node_existing_replaces [OF h] obtain g' where
    g': "add_node ex_graph (NodeObj (mk_node ''a'' ''Preference'')) = Inr g'"
    and keys: "dict_keys (nodes g') = dict_keys (nodes ex_graph)"
    by blast
  have eq: "g' = ex_graph\<lparr>nodes := AList.update ''a'' (mk_node ''a'' ''Preference'') (nodes ex_graph)\<rparr>"
    using g' by (simp add: add_node_def mk_node_def)
  show ?thesis
    using h old g' keys k eq by simp
qed

text \<open>
  \<^bold>\<open>C8.\<close> The claim as stated fails: \<open>get_neighbors\<close> lists the neighbours in the order in
  which the edges were inserted, so swapping the two \<open>T\<close>-edges that leave \<open>u\<close> swaps
  the two neighbours in its result.
\<close>

theorem reorder_get_neighbors_counterexample:
  "same_type_reorder ex_calls1 ex_calls2
   \<and> run_calls empty_graph ex_calls1 = Inr (graph_of ex_calls1)
   \<and> run_calls empty_graph ex_calls2 = Inr (graph_of ex_calls2)
   \<and> map node_id (get_neighbors (graph_of ex_calls1) ''u'' (Some ''T'') ''outgoing'') = [''a'', ''b'']
   \<and> map node_id (get_neighbors (graph_of ex_calls2) ''u'' (Some ''T'') ''outgoing'') = [''b'', ''a'']
   \<and> get_neighbors (graph_of ex_calls1) ''u'' (Some ''T'') ''outgoing''
       \<noteq> get_neighbors (graph_of ex_calls2) ''u'' (Some ''T'') ''outgoing''"
proof -
  have a: "map node_id (get_neighbors (graph_of ex_calls1) ''u'' (Some ''T'') ''outgoing'') = [''a'', ''b'']"
    by code_simp
  have b: "map node_id (get_neighbors (graph_of ex_calls2) ''u'' (Some ''T'') ''outgoing'') = [''b'', ''a'']"
    by code_simp
  have "get_neighbors (graph_of ex_calls1) ''u'' (Some ''T'') ''outgoing''
       \<noteq> get_neighbors (graph_of ex_calls2) ''u'' (Some ''T'') ''outgoing''"
    using a b by auto
  then show ?thesis
    using a b ex_calls_reorder run_calls_graph_of by simp
qed

text \<open>
  \<open>traverse\<close> depends on the insertion order as well, and not only in the order of its
  paths: a node that ends a completed path stays in \<open>visited\<close>, so of the two paths
  \<open>u, a, c\<close> and \<open>u, b, c\<close> only the one found first is returned.
\<close>

lemma traverse_depends_on_order:
  "map (map node_id) (traverse (graph_of ex_calls1) ''u'' [''T'', ''T''] 3) = [[''u'', ''a'', ''c'']]"
  "map (map node_id) (traverse (graph_of ex_calls2) ''u'' [''T'', ''T''] 3) = [[''u'', ''b'', ''c'']]"
  by code_simp+

text \<open>
  \<^bold>\<open>C8, as amended.\<close> For two call sequences that differ only in the relative order of
  edges of the same type, both runs succeed, \<open>has_edge\<close> gives the same answer on the
  two graphs, and \<open>get_neighbors\<close> returns the same nodes with the same multiplicities
  (the order of the returned list follows the insertion order).
\<close>

theorem reorder_queries:
  assumes "same_type_reorder cs1 cs2"
  shows "\<exists>g1 g2. run_calls empty_graph cs1 = Inr g1 \<and> run_calls empty_graph cs2 = Inr g2
     \<and> has_edge g1 s t et = has_edge g2 s t et
     \<and> mset (get_neighbors g1 n nt d) = mset (get_neighbors g2 n nt d)"
proof -
  have nd: "nodes (graph_of cs1) = nodes (graph_of cs2)"
    using assms by (rule reorder_nodes)
  have ed: "mset (edges (graph_of cs1)) = mset (edges (graph_of cs2))"
    using assms by (rule reorder_edges)
  have "set (edges (graph_of cs1)) = set (edges (graph_of cs2))"
    using ed by (rule mset_eq_setD)
  then have he: "has_edge (graph_of cs1) s t et = has_edge (graph_of cs2) s t et"
    by (simp add: has_edge_set)
  have gn: "mset (get_neighbors (graph_of cs1) n nt d) = mset (get_neighbors (graph_of cs2) n nt d)"
    unfolding mset_get_neighbors_graph_of nd ed ..
  show ?thesis
    using he gn run_calls_graph_of by blast
qed

theorem reorder_queries_witness:
  "same_type_reorder ex_calls1 ex_calls2
   \<and> has_edge (graph_of ex_calls1) ''u'' ''a'' (Some ''T'') = has_edge (graph_of ex_calls2) ''u'' ''a'' (Some ''T'')
   \<and> mset (get_neighbors (graph_of ex_calls1) ''u'' (Some ''T'') ''outgoing'')
       = mset (get_neighbors (graph_of ex_calls2) ''u'' (Some ''T'') ''outgoing'')"
proof -
  from reorder_queries [OF ex_calls_reorder, of "''u''" "''a''" "Some ''T''" "''u''" "Some ''T''" "''outgoing''"]
  obtain g1 g2 where
    r1: "run_calls empty_graph ex_calls1 = Inr g1" and r2: "run_calls empty_graph ex_calls2 = Inr g2"
    and q: "has_edge g1 ''u'' ''a'' (Some ''T'') = has_edge g2 ''u'' ''a'' (Some ''T'')"
       "mset (get_neighbors g1 ''u'' (Some ''T'') ''outgoing'') = mset (get_neighbors g2 ''u'' (Some ''T'') ''outgoing'')"
    by blast
  have "g1 = graph_of ex_calls1" "g2 = graph_of ex_calls2"
    using r1 r2 by (simp_all add: run_calls_graph_of)
  then show ?thesis
    using q ex_calls_reorder by simp
qed

section \<open>Properties of the alignment engine\<close>

lemmas text_defs = normalize_text_def py_or_def strip_def is_space_def lower_def lower_char_def
  is_lower_alnum_def is_digit_def

lemma to_normalized_set_nonempty: "[] \<notin> set (to_normalized_set B vals)"
  by (simp add: to_normalized_set_def)

lemma to_normalized_set_distinct: "distinct (to_normalized_set B vals)"
  by (simp add: to_normalized_set_def)

lemma compile_rules_wf: "rules_wf (compile_alignment_rules B P cfg mh)"
  by (simp add: rules_wf_def compile_alignment_rules_def Let_def to_normalized_set_nonempty
      to_normalized_set_distinct)

subsection \<open>The counters of \<open>evaluate_variant_alignment\<close> count the signals\<close>

lemma budget_step_counts:
  "acc_total (budget_step B c R P a) = acc_total a + length (budget_signal B c R P)"
  "acc_matched (budget_step B c R P a) = acc_matched a + length (filter (\<lambda>b. b) (budget_signal B c R P))"
  by (auto simp: budget_step_def budget_signal_def Let_def split: option.splits prod.splits)

lemma text_step_counts:
  "acc_total (text_step B c R pref k1 k2 syn d fh fs a)
     = acc_total a + length (text_signal B c pref k1 k2 syn)"
  "acc_matched (text_step B c R pref k1 k2 syn d fh fs a)
     = acc_matched a + length (filter (\<lambda>b. b) (text_signal B c pref k1 k2 syn))"
  by (auto simp: text_step_def text_signal_def Let_def)

lemma seating_step_counts:
  "acc_total (seating_step B c R P a) = acc_total a + length (seating_signal B c P)"
  "acc_matched (seating_step B c R P a)
     = acc_matched a + length (filter (\<lambda>b. b) (seating_signal B c P))"
  by (auto simp: seating_step_def seating_signal_def Let_def split: option.splits)

lemma feature_fold_counts:
  "acc_total (fold (feature_step blob) fs a) = acc_total a + length fs"
  "acc_matched (fold (feature_step blob) fs a)
     = acc_matched a + length (filter (\<lambda>b. b) (map (\<lambda>f. feature_present f blob) fs))"
  by (induction fs arbitrary: a) (auto simp: feature_step_def Let_def)

lemma brand_step_counts:
  "acc_total (brand_step R br a) = acc_total a"
  "acc_matched (brand_step R br a) = acc_matched a"
  by (auto simp: brand_step_def Let_def)

lemma run_checks_total: "acc_total (run_checks B c R P) = total_signals B c R P"
  by (simp add: run_checks_def Let_def total_signals_def signals_def budget_step_counts
      text_step_counts seating_step_counts feature_fold_counts brand_step_counts)

lemma run_checks_matched: "acc_matched (run_checks B c R P) = matched_signals B c R P"
  by (simp add: run_checks_def Let_def matched_signals_def signals_def budget_step_counts
      text_step_counts seating_step_counts feature_fold_counts brand_step_counts)

lemma nice_fraction_list:
  assumes "distinct (r_nice_to_have_features R)"
  shows "nice_fraction B c R =
     real (nice_hits B c R) / real (max 1 (length (r_nice_to_have_features R)))"
proof -
  have a: "card (set (r_nice_to_have_features R)) = length (r_nice_to_have_features R)"
    using assms by (rule distinct_card)
  have "{f \<in> set (r_nice_to_have_features R). feature_present f (flatten_car_text B c)}
        = set (filter (\<lambda>f. feature_present f (flatten_car_text B c)) (r_nice_to_have_features R))"
    by auto
  then have b: "card {f \<in> set (r_nice_to_have_features R). feature_present f (flatten_car_text B c)}
        = nice_hits B c R"
    unfolding nice_hits_def using assms by (simp only: distinct_card distinct_filter)
  show ?thesis
    unfolding nice_fraction_def a b ..
qed

subsection \<open>Hard failures are only ever appended\<close>

lemma budget_step_hard: "x \<in> set (acc_hard a) \<Longrightarrow> x \<in> set (acc_hard (budget_step B c R P a))"
  by (auto simp: budget_step_def Let_def split: option.splits prod.splits)

lemma text_step_hard:
  "x \<in> set (acc_hard a) \<Longrightarrow> x \<in> set (acc_hard (text_step B c R pref k1 k2 syn d fh fs a))"
  by (auto simp: text_step_def Let_def)

lemma seating_step_hard: "x \<in> set (acc_hard a) \<Longrightarrow> x \<in> set (acc_hard (seating_step B c R P a))"
  by (auto simp: seating_step_def Let_def split: option.splits)

lemma feature_fold_hard:
  "x \<in> set (acc_hard a) \<Longrightarrow> x \<in> set (acc_hard (fold (feature_step blob) fs a))"
  by (induction fs arbitrary: a) (auto simp: feature_step_def Let_def)

lemma brand_step_blacklisted:
  "br \<noteq> [] \<Longrightarrow> br \<in> set (r_blacklisted_brands R)
   \<Longrightarrow> ''blacklisted_brand'' \<in> set (acc_hard (brand_step R br a))"
  by (auto simp: brand_step_def Let_def)

lemma run_checks_blacklisted:
  assumes "extract_brand_from_payload B c \<noteq> []"
    and "extract_brand_from_payload B c \<in> set (r_blacklisted_brands R)"
  shows "''blacklisted_brand'' \<in> set (acc_hard (run_checks B c R P))"
  unfolding run_checks_def Let_def
  by (intro feature_fold_hard seating_step_hard text_step_hard budget_step_hard
      brand_step_blacklisted assms)


lemma map_filter_append:
  "List.map_filter f (xs @ ys) = List.map_filter f xs @ List.map_filter f ys"
  by (simp add: map_filter_def)

lemma brand_filter_step_blacklisted:
  assumes "filter_brand B v \<in> set (to_normalized_set B (blacklisted_brands cfg))"
  shows "brand_filter_step B cfg v = None"
proof -
  have "filter_brand B v \<noteq> []"
    using assms to_normalized_set_nonempty by metis
  then show ?thesis
    using assms by (simp add: brand_filter_step_def Let_def)
qed

subsection \<open>The relaxed result is the two sorted partitions, one after the other\<close>

lemma car_annotate: "car (annotate B P R v) = car v"
  by (simp add: annotate_def Let_def)

lemma enforce_relaxed:
  "enforce_alignment_on_ranked_variants B xs P R m True =
     sort_compliant (filter is_compliant (map (annotate B P R) xs))
     @ sort_violated (filter (\<lambda>v. \<not> is_compliant v) (map (annotate B P R) xs))"
  by (simp add: enforce_alignment_on_ranked_variants_def Let_def sort_compliant_def sort_violated_def)

lemma mset_partition: "mset (filter Q xs) + mset (filter (\<lambda>v. \<not> Q v) xs) = mset xs"
  by (induction xs) auto

lemma mset_enforce_relaxed:
  "mset (enforce_alignment_on_ranked_variants B xs P R m True) = mset (map (annotate B P R) xs)"
  unfolding enforce_relaxed
  by (simp add: sort_compliant_def sort_violated_def mset_partition del: mset_map)

lemma length_enforce_relaxed:
  "length (enforce_alignment_on_ranked_variants B xs P R m True) = length xs"
proof -
  have "length (filter is_compliant (map (annotate B P R) xs))
        + length (filter (\<lambda>v. \<not> is_compliant v) (map (annotate B P R) xs))
        = length (map (annotate B P R) xs)"
    by (rule sum_length_filter_compl)
  then show ?thesis
    unfolding enforce_relaxed sort_compliant_def sort_violated_def
    by (simp only: length_append length_sort length_map)
qed



subsection \<open>Facts about the examples\<close>

lemma ex_brand:
  "extract_brand_from_payload ex_builtins (car (ex_variant n ''Maruti'' s)) = ''maruti''"
  by (simp add: extract_brand_from_payload_def ex_variant_def normalize_brand_def dict_get_def
      text_defs ex_builtins_def)

lemma ex_filter_brand: "filter_brand ex_builtins (ex_variant n ''Maruti'' s) = ''maruti''"
  by (simp add: filter_brand_def extract_variant_payload_def ex_variant_def normalize_brand_def
      dict_get_def text_defs ex_builtins_def)

lemma ex_cfg_sets:
  "to_normalized_set ex_builtins (preferred_brands ex_config) = [''toyota'', ''maruti'']"
  "to_normalized_set ex_builtins (blacklisted_brands ex_config) = [''maruti'']"
  by (simp_all add: to_normalized_set_def ex_config_def text_defs ex_builtins_def)

lemma ex_rules_compiled:
  "compile_alignment_rules ex_builtins ex_preferences (Some ex_config) [''budget''] = ex_rules"
  by (simp add: compile_alignment_rules_def ex_cfg_sets Let_def ex_rules_def)
    (simp add: ex_config_def ex_preferences_def pref_given_def dict_get_def lower_def
      lower_char_def to_normalized_set_def)

lemma ex_rules_wf: "rules_wf ex_rules"
  by (simp add: rules_wf_def ex_rules_def)


text \<open>
  \<^bold>\<open>C9.\<close> With relaxation allowed the result is a permutation of the input: as the
  source annotates the variants in place, the result holds exactly the annotated input
  variants, each as often as the input holds it; the payloads are those of the input and
  the lengths agree.  This holds for every \<open>min_results\<close>: all violated variants follow
  the compliant ones, not only the number that reaches \<open>min_results\<close>.
\<close>

theorem relaxation_returns_permutation:
  "mset (enforce_alignment_on_ranked_variants B ranked P R m True)
     = mset (map (annotate B P R) ranked)
   \<and> mset (map car (enforce_alignment_on_ranked_variants B ranked P R m True))
     = mset (map car ranked)
   \<and> length (enforce_alignment_on_ranked_variants B ranked P R m True) = length ranked"
proof -
  have a: "mset (enforce_alignment_on_ranked_variants B ranked P R m True)
           = mset (map (annotate B P R) ranked)"
    by (rule mset_enforce_relaxed)
  have "mset (map car (enforce_alignment_on_ranked_variants B ranked P R m True))
        = image_mset car (mset (map (annotate B P R) ranked))"
    using a by (metis mset_map)
  also have "\<dots> = mset (map car ranked)"
    by (simp add: multiset.map_comp comp_def car_annotate)
  finally show ?thesis
    using a length_enforce_relaxed by blast
qed

theorem relaxation_returns_permutation_witness:
  "mset (enforce_alignment_on_ranked_variants ex_builtins ex_ranked ex_preferences ex_rules 2 True)
     = mset (map (annotate ex_builtins ex_preferences ex_rules) ex_ranked)
   \<and> length (enforce_alignment_on_ranked_variants ex_builtins ex_ranked ex_preferences ex_rules 2 True)
     = 5"
proof -
  have "length ex_ranked = 5"
    by (simp add: ex_ranked_def)
  then show ?thesis
    using relaxation_returns_permutation [of ex_builtins ex_ranked ex_preferences ex_rules 2]
    by simp
qed



text \<open>
  \<^bold>\<open>C5.\<close> For rules as \<open>compile_alignment_rules\<close> builds them, the alignment score is
  the number of matched signals over the number of signals (taken as at least one), plus
  0.08 when the brand of the variant is in the preferred set, plus 0.05 times the fraction
  of the nice-to-have features that are present, minus 0.03 for every soft issue, clamped
  to the unit interval.
\<close>

theorem alignment_score_formula:
  assumes "rules_wf R"
  shows "a_alignment_score (evaluate_variant_alignment B v R P) =
     clamp01 (real (matched_signals B (car v) R P) / real (max 1 (total_signals B (car v) R P))
              + (if extract_brand_from_payload B (car v) \<in> set (r_preferred_brands R)
                 then 0.08 else 0)
              + 0.05 * nice_fraction B (car v) R
              - 0.03 * real (length (soft_issues (evaluate_variant_alignment B v R P))))"
proof -
  have d: "distinct (r_nice_to_have_features R)" and e: "[] \<notin> set (r_preferred_brands R)"
    using assms by (simp_all add: rules_wf_def)
  have hit: "(extract_brand_from_payload B (car v) \<noteq> []
              \<and> extract_brand_from_payload B (car v) \<in> set (r_preferred_brands R))
             = (extract_brand_from_payload B (car v) \<in> set (r_preferred_brands R))"
    using e by auto
  have nf: "r_nice_to_have_features R = [] \<Longrightarrow> nice_hits B (car v) R = 0"
    by (simp add: nice_hits_def)
  show ?thesis
    unfolding nice_fraction_list[OF d]
    by (simp add: evaluate_variant_alignment_def Let_def extract_variant_payload_def clamp01_def
        run_checks_total run_checks_matched hit nf)
qed

theorem alignment_score_formula_witness:
  "rules_wf (compile_alignment_rules ex_builtins ex_preferences (Some ex_config) [''budget''])
   \<and> a_alignment_score (evaluate_variant_alignment ex_builtins
        (ex_variant ''Toyota Urban Cruiser'' ''Toyota'' 95) ex_rules ex_preferences) =
     clamp01 (real (matched_signals ex_builtins (car (ex_variant ''Toyota Urban Cruiser'' ''Toyota'' 95))
                      ex_rules ex_preferences)
                / real (max 1 (total_signals ex_builtins
                      (car (ex_variant ''Toyota Urban Cruiser'' ''Toyota'' 95)) ex_rules ex_preferences))
              + (if extract_brand_from_payload ex_builtins
                      (car (ex_variant ''Toyota Urban Cruiser'' ''Toyota'' 95))
                    \<in> set (r_preferred_brands ex_rules)
                 then 0.08 else 0)
              + 0.05 * nice_fraction ex_builtins (car (ex_variant ''Toyota Urban Cruiser'' ''Toyota'' 95)) ex_rules
              - 0.03 * real (length (soft_issues (evaluate_variant_alignment ex_builtins
                    (ex_variant ''Toyota Urban Cruiser'' ''Toyota'' 95) ex_rules ex_preferences))))"
proof -
  have h: "rules_wf (compile_alignment_rules ex_builtins ex_preferences (Some ex_config) [''budget''])"
    by (rule compile_rules_wf)
  have h': "rules_wf ex_rules"
    using h by (simp only: ex_rules_compiled)
  show ?thesis
    using h alignment_score_formula [OF h', of ex_builtins
        "ex_variant ''Toyota Urban Cruiser'' ''Toyota'' 95" ex_preferences]
    by (rule conjI)
qed

text \<open>
  \<^bold>\<open>C6.\<close> The blacklist wins over the preferred list.  A variant whose brand is in both
  sets of the rules is not compliant and carries the hard failure \<open>blacklisted_brand\<close>;
  a variant whose brand is in both lists of the controls is skipped by the brand filter
  (its round yields nothing, so no boost is applied to it) and the filtered list is the
  one obtained without it.
\<close>

theorem blacklist_wins:
  "(rules_wf R
      \<and> extract_brand_from_payload B (car v) \<in> set (r_preferred_brands R)
      \<and> extract_brand_from_payload B (car v) \<in> set (r_blacklisted_brands R)
    \<longrightarrow> \<not> compliant (evaluate_variant_alignment B v R P)
        \<and> ''blacklisted_brand'' \<in> set (a_hard_failures (evaluate_variant_alignment B v R P)))
   \<and> (filter_brand B v \<in> set (to_normalized_set B (preferred_brands cfg))
      \<and> filter_brand B v \<in> set (to_normalized_set B (blacklisted_brands cfg))
    \<longrightarrow> brand_filter_step B cfg v = None
        \<and> apply_brand_filters B (xs @ v # ys) cfg = apply_brand_filters B (xs @ ys) cfg)"
proof (intro conjI impI)
  assume h: "rules_wf R
      \<and> extract_brand_from_payload B (car v) \<in> set (r_preferred_brands R)
      \<and> extract_brand_from_payload B (car v) \<in> set (r_blacklisted_brands R)"
  then have ne: "extract_brand_from_payload B (car v) \<noteq> []"
    by (auto simp: rules_wf_def)
  have m: "''blacklisted_brand'' \<in> set (acc_hard (run_checks B (car v) R P))"
    using ne h by (simp add: run_checks_blacklisted)
  show "''blacklisted_brand'' \<in> set (a_hard_failures (evaluate_variant_alignment B v R P))"
    using m by (simp add: evaluate_variant_alignment_def Let_def extract_variant_payload_def)
  show "\<not> compliant (evaluate_variant_alignment B v R P)"
    using m by (auto simp: evaluate_variant_alignment_def Let_def extract_variant_payload_def)
next
  assume h: "filter_brand B v \<in> set (to_normalized_set B (preferred_brands cfg))
      \<and> filter_brand B v \<in> set (to_normalized_set B (blacklisted_brands cfg))"
  then show n: "brand_filter_step B cfg v = None"
    by (simp add: brand_filter_step_blacklisted)
  show "apply_brand_filters B (xs @ v # ys) cfg = apply_brand_filters B (xs @ ys) cfg"
    using n by (simp add: apply_brand_filters_def map_filter_append map_filter_simps)
qed

theorem blacklist_wins_witness:
  "rules_wf ex_rules
   \<and> extract_brand_from_payload ex_builtins (car (ex_variant ''Maruti Brezza ZXi'' ''Maruti'' 100))
       \<in> set (r_preferred_brands ex_rules)
   \<and> extract_brand_from_payload ex_builtins (car (ex_variant ''Maruti Brezza ZXi'' ''Maruti'' 100))
       \<in> set (r_blacklisted_brands ex_rules)
   \<and> \<not> compliant (evaluate_variant_alignment ex_builtins
         (ex_variant ''Maruti Brezza ZXi'' ''Maruti'' 100) ex_rules ex_preferences)
   \<and> filter_brand ex_builtins (ex_variant ''Maruti Brezza ZXi'' ''Maruti'' 100)
       \<in> set (to_normalized_set ex_builtins (preferred_brands ex_config))
   \<and> filter_brand ex_builtins (ex_variant ''Maruti Brezza ZXi'' ''Maruti'' 100)
       \<in> set (to_normalized_set ex_builtins (blacklisted_brands ex_config))
   \<and> apply_brand_filters ex_builtins
       ([] @ ex_variant ''Maruti Brezza ZXi'' ''Maruti'' 100 # []) ex_config
     = apply_brand_filters ex_builtins ([] @ []) ex_config"
proof -
  let ?v = "ex_variant ''Maruti Brezza ZXi'' ''Maruti'' 100"
  have a: "extract_brand_from_payload ex_builtins (car ?v) \<in> set (r_preferred_brands ex_rules)"
    and b: "extract_brand_from_payload ex_builtins (car ?v) \<in> set (r_blacklisted_brands ex_rules)"
    by (simp_all add: ex_brand ex_rules_def)
  have c: "filter_brand ex_builtins ?v \<in> set (to_normalized_set ex_builtins (preferred_brands ex_config))"
    and d: "filter_brand ex_builtins ?v \<in> set (to_normalized_set ex_builtins (blacklisted_brands ex_config))"
    by (simp_all add: ex_filter_brand ex_cfg_sets)
  show ?thesis
    using ex_rules_wf a b c d
      blacklist_wins [of ex_rules ex_builtins ?v ex_preferences ex_config "[]" "[]"]
    by blast
qed

section \<open>Properties of the diversity enforcer\<close>

lemma set_update_subset:
  "(k, xs) \<in> set (AList.update k' v d) \<Longrightarrow> (k, xs) \<in> set d \<or> (k = k' \<and> xs = v)"
  by (induction d) (auto split: if_splits)

lemma group_by_brand_ok: "groups_ok B (group_by_brand B vs)"
proof -
  have "groups_ok B (fold (\<lambda>v d. AList.update (extract_brand B v) (dict_get d (extract_brand B v) [] @ [v]) d) vs d0)"
    if "groups_ok B d0" for d0
    using that
  proof (induction vs arbitrary: d0)
    case Nil
    then show ?case by simp
  next
    case (Cons v vs)
    have "groups_ok B (AList.update (extract_brand B v) (dict_get d0 (extract_brand B v) [] @ [v]) d0)"
      unfolding groups_ok_def
    proof (intro ballI, clarify)
      fix b xs w
      assume m: "(b, xs) \<in> set (AList.update (extract_brand B v) (dict_get d0 (extract_brand B v) [] @ [v]) d0)"
        and w: "w \<in> set xs"
      from set_update_subset[OF m] show "extract_brand B w = b"
      proof
        assume "(b, xs) \<in> set d0"
        then show ?thesis using Cons.prems w by (auto simp: groups_ok_def)
      next
        assume e: "b = extract_brand B v \<and> xs = dict_get d0 (extract_brand B v) [] @ [v]"
        show ?thesis
        proof (cases "map_of d0 (extract_brand B v)")
          case None
          then show ?thesis using e w by (simp add: dict_get_def)
        next
          case (Some ys)
          then have "(extract_brand B v, ys) \<in> set d0" by (rule map_of_SomeD)
          then have "\<forall>u \<in> set ys. extract_brand B u = extract_brand B v"
            using Cons.prems by (auto simp: groups_ok_def)
          then show ?thesis using e w Some by (auto simp: dict_get_def)
        qed
      qed
    qed
    then show ?case using Cons.IH by simp
  qed
  from this[of "[]"] show ?thesis
    by (simp add: group_by_brand_def groups_ok_def)
qed

lemma sorted_groups_ok: "groups_ok B (sorted_groups B vs)"
  using group_by_brand_ok[of B vs]
  by (auto simp: sorted_groups_def groups_ok_def sort_by_score_desc_def)

lemma rr_brand_inv:
  assumes "rr_inv B st" and "\<forall>v \<in> set (snd entry). extract_brand B v = fst entry"
  shows "rr_inv B (rr_brand B top_k (Suc 0) entry st)"
proof (cases "find (\<lambda>v. variant_key B v \<notin> selected_keys st) (snd entry)")
  case None
  then show ?thesis using assms(1) by (simp add: rr_brand_def)
next
  case (Some v)
  then have "v \<in> set (snd entry)"
    by (auto simp: find_Some_iff)
  then have bv: "extract_brand B v = fst entry"
    using assms(2) by blast
  show ?thesis
  proof (cases "length (selected st) \<ge> top_k \<or> brand_counts st (fst entry) \<ge> 1")
    case True
    then show ?thesis using assms(1) by (auto simp: rr_brand_def)
  next
    case False
    then have z: "brand_counts st (fst entry) = 0" by simp
    then have "fst entry \<notin> set (map (extract_brand B) (selected st))"
      using assms(1) by (fastforce simp: rr_inv_def)
    then show ?thesis
      using False Some assms(1) bv by (auto simp: rr_brand_def rr_inv_def)
  qed
qed

lemma rr_round_inv:
  assumes "groups_ok B groups" and "rr_inv B st"
  shows "rr_inv B (fold (rr_brand B top_k (Suc 0)) groups st)"
  using assms
proof (induction groups arbitrary: st)
  case Nil
  then show ?case by simp
next
  case (Cons e groups)
  have "\<forall>v \<in> set (snd e). extract_brand B v = fst e"
    using Cons.prems(1) by (cases e) (auto simp: groups_ok_def)
  then have "rr_inv B (rr_brand B top_k (Suc 0) e st)"
    using Cons.prems(2) by (simp add: rr_brand_inv)
  moreover have "groups_ok B groups"
    using Cons.prems(1) by (simp add: groups_ok_def)
  ultimately show ?case
    using Cons.IH by simp
qed

lemma rr_loop_inv:
  assumes "groups_ok B groups" and "rr_inv B st" and "m = Suc 0"
  shows "rr_inv B (rr_loop B top_k m groups r st)"
  using assms
proof (induction B top_k m groups r st rule: rr_loop.induct)
  case (1 B top_k m groups round_num st)
  have a: "rr_inv B (st\<lparr>found_any := False\<rparr>)"
    using "1.prems"(2) by (simp add: rr_inv_def)
  have b: "rr_inv B (fold (rr_brand B top_k m) groups (st\<lparr>found_any := False\<rparr>))"
    unfolding \<open>m = Suc 0\<close> using "1.prems"(1) a by (rule rr_round_inv)
  show ?case
    using "1.IH" "1.prems" b
    by (subst rr_loop.simps) (auto simp: Let_def simp del: rr_loop.simps)
qed

lemma distinct_no_duplicates:
  "distinct bs \<Longrightarrow> \<not> list_ex (\<lambda>b. count_list bs b > Suc 0) bs"
proof -
  assume d: "distinct bs"
  have "count_list bs b \<le> Suc 0" for b
    using d by (induction bs) auto
  then show ?thesis
    by (auto simp: list_ex_iff not_less)
qed

lemma remove_duplicate_brands_distinct:
  "distinct (map (extract_brand B) sel) \<Longrightarrow> remove_duplicate_brands B sel groups top_k = sel"
  using distinct_no_duplicates[of "map (extract_brand B) sel"]
  by (simp add: remove_duplicate_brands_def Let_def del: set_map)

lemma fill_step_inv: "rr_inv B st \<Longrightarrow> rr_inv B (fill_step B top_k (Suc 0) v st)"
  by (fastforce simp: fill_step_def rr_inv_def)

lemma fill_fold_inv: "rr_inv B st \<Longrightarrow> rr_inv B (fold (fill_step B top_k (Suc 0)) vs st)"
  by (induction vs arbitrary: st) (simp_all add: fill_step_inv)

lemma rr_inv_init:
  "rr_inv B \<lparr>selected = [], selected_keys = {}, brand_counts = (\<lambda>b. 0), found_any = False\<rparr>"
  by (simp add: rr_inv_def)

lemma one_per_brand_aux:
  assumes "length vs > 5"
  shows "distinct (map (extract_brand B) (enforce_diversity B vs 5 (Suc 0)))"
proof -
  let ?groups = "sorted_groups B vs"
  let ?st = "rr_loop B 5 (Suc 0) ?groups 0
               \<lparr>selected = [], selected_keys = {}, brand_counts = (\<lambda>b. 0), found_any = False\<rparr>"
  have inv: "rr_inv B ?st"
    using sorted_groups_ok rr_inv_init by (rule rr_loop_inv) simp
  then have d: "distinct (map (extract_brand B) (selected ?st))"
    by (simp add: rr_inv_def)
  have sel1: "remove_duplicate_brands B (selected ?st) ?groups 5 = selected ?st"
    using d by (rule remove_duplicate_brands_distinct)
  let ?rem = "filter (\<lambda>v. variant_key B v \<notin> selected_keys ?st) vs"
  have "rr_inv B (fold (fill_step B 5 (Suc 0)) (sort_by_score_desc ?rem) ?st)"
    using inv by (rule fill_fold_inv)
  then have f: "distinct (map (extract_brand B) (fill_with_diverse B ?rem 5 (Suc 0) ?st))"
    by (simp only: fill_with_diverse_def rr_inv_def)
  have ne: "length vs \<noteq> 0" "\<not> length vs \<le> 5"
    using assms by auto
  have res: "enforce_diversity B vs 5 (Suc 0)
        = take 5 (if length (selected ?st) < 5 then fill_with_diverse B ?rem 5 (Suc 0) ?st else selected ?st)"
    using ne by (simp add: enforce_diversity_def Let_def sel1 del: rr_loop.simps)
  have t: "distinct (map (extract_brand B) (take 5 xs))" if "distinct (map (extract_brand B) xs)" for xs
    using that by (simp only: take_map[symmetric] distinct_take)
  show ?thesis
    unfolding res by (rule t) (cases "length (selected ?st) < 5"; simp only: d f if_True if_False)
qed























section \<open>Properties of the personalized PageRank\<close>



lemma sum_list_upd:
  fixes f :: "'a \<Rightarrow> real"
  assumes "distinct ids" and "k \<in> set ids"
  shows "sum_list (map (f(k := f k + x)) ids) = sum_list (map f ids) + x"
proof -
  have fin: "finite (set ids)" by simp
  have a: "sum (f(k := f k + x)) (set ids) = (f(k := f k + x)) k + sum (f(k := f k + x)) (set ids - {k})"
    using fin assms(2) by (rule sum.remove)
  have b: "sum f (set ids) = f k + sum f (set ids - {k})"
    using fin assms(2) by (rule sum.remove)
  have c: "sum (f(k := f k + x)) (set ids - {k}) = sum f (set ids - {k})"
    by (rule sum.cong) auto
  show ?thesis
    unfolding sum_list_distinct_conv_sum_set[OF assms(1)] a b c by simp
qed

lemma fold_contrib_sum:
  fixes nxt :: "string \<Rightarrow> real"
  assumes "distinct ids" and "\<forall>p \<in> set nbrs. fst p \<in> set ids"
  shows "sum_list (map (fold (\<lambda>(dst, weight) nx. nx(dst := nx dst + c * (weight / nrm))) nbrs nxt) ids)
         = sum_list (map nxt ids) + c * (sum_list (map snd nbrs) / nrm)"
  using assms(2)
proof (induction nbrs arbitrary: nxt)
  case Nil
  then show ?case by simp
next
  case (Cons p nbrs)
  obtain dst w where p: "p = (dst, w)" by (cases p)
  let ?F = "\<lambda>(dst, weight) nx. nx(dst := nx dst + c * (weight / nrm))"
  let ?n1 = "nxt(dst := nxt dst + c * (w / nrm))"
  have "dst \<in> set ids" using Cons.prems p by simp
  then have h: "sum_list (map ?n1 ids) = sum_list (map nxt ids) + c * (w / nrm)"
    using assms(1) by (rule sum_list_upd[rotated])
  have step: "fold ?F (p # nbrs) nxt = fold ?F nbrs ?n1"
    by (simp add: p del: fun_upd_apply)
  have "\<forall>p \<in> set nbrs. fst p \<in> set ids" using Cons.prems by simp
  then have ih: "sum_list (map (fold ?F nbrs ?n1) ids)
                 = sum_list (map ?n1 ids) + c * (sum_list (map snd nbrs) / nrm)"
    by (rule Cons.IH)
  show ?case
    unfolding step ih h by (simp add: p algebra_simps add_divide_distrib)
qed

lemma edge_weight_pos: "dict_get EDGE_WEIGHTS t 0.35 > 0"
  by (simp add: EDGE_WEIGHTS_def dict_get_simps)

lemma out_append_pos: "weights_pos d \<Longrightarrow> snd x > 0 \<Longrightarrow> weights_pos (out_append d k x)"
  by (auto simp: weights_pos_def out_append_def dict_get_update)

lemma outgoing_step_pos: "weights_pos d \<Longrightarrow> weights_pos (outgoing_step e d)"
  using edge_weight_pos[of "edge_type e"]
  by (auto simp: outgoing_step_def Let_def intro!: out_append_pos)

lemma weighted_outgoing_pos: "weights_pos (weighted_outgoing g)"
proof -
  have "weights_pos (fold outgoing_step es d)" if "weights_pos d" for es d
    using that by (induction es arbitrary: d) (simp_all add: outgoing_step_pos)
  from this[of "[]"] show ?thesis
    by (simp add: weighted_outgoing_def weights_pos_def dict_get_simps)
qed

lemma sum_pos_of_weights:
  fixes nbrs :: "(string \<times> real) list"
  assumes "nbrs \<noteq> []" and "\<forall>p \<in> set nbrs. snd p > 0"
  shows "sum_list (map snd nbrs) > 0"
proof -
  obtain p rest where n: "nbrs = p # rest"
    using assms(1) by (cases nbrs) auto
  have "sum_list (map snd rest) \<ge> 0"
    using assms(2) n by (intro sum_list_nonneg) (auto simp: less_imp_le)
  moreover have "snd p > 0" using assms(2) n by simp
  ultimately show ?thesis unfolding n by simp
qed

lemma distribute_sum:
  assumes "distinct ids" and "weights_pos out" and "\<forall>p \<in> set (dict_get out src []). fst p \<in> set ids"
  shows "sum_list (map (distribute d out sc src nxt) ids)
         = sum_list (map nxt ids) + (if dict_get out src [] = [] then 0 else d * sc src)"
proof (cases "dict_get out src [] = []")
  case True
  then show ?thesis by (simp add: distribute_def)
next
  case False
  have pos: "sum_list (map snd (dict_get out src [])) > 0"
    using False assms(2) by (intro sum_pos_of_weights) (auto simp: weights_pos_def)
  show ?thesis
    using False pos fold_contrib_sum[OF assms(1) assms(3), of "d * sc src" "sum_list (map snd (dict_get out src []))" nxt]
    by (simp add: distribute_def Let_def)
qed

lemma fold_distribute_sum:
  assumes "distinct ids" and "weights_pos out"
    and "\<forall>src \<in> set srcs. \<forall>p \<in> set (dict_get out src []). fst p \<in> set ids"
  shows "sum_list (map (fold (distribute d out sc) srcs nxt) ids)
         = sum_list (map nxt ids)
           + d * sum_list (map (\<lambda>src. if dict_get out src [] = [] then 0 else sc src) srcs)"
  using assms(3)
proof (induction srcs arbitrary: nxt)
  case Nil
  then show ?case by simp
next
  case (Cons s srcs)
  have "sum_list (map (distribute d out sc s nxt) ids)
         = sum_list (map nxt ids) + (if dict_get out s [] = [] then 0 else d * sc s)"
    using Cons.prems by (intro distribute_sum assms) simp
  then show ?case
    using Cons by (simp add: algebra_simps)
qed

lemma teleport_sum:
  fixes nxt :: "string \<Rightarrow> real"
  assumes "distinct ids" and "\<forall>t \<in> set tns. t \<in> set ids"
  shows "sum_list (map (fold (teleport_add d ids m) tns nxt) ids)
         = sum_list (map nxt ids) + (1 - d) * m * real (length tns)"
  using assms(2)
proof (induction tns arbitrary: nxt)
  case Nil
  then show ?case by simp
next
  case (Cons t tns)
  have "sum_list (map (teleport_add d ids m t nxt) ids) = sum_list (map nxt ids) + (1 - d) * m"
    using Cons.prems assms(1) by (simp add: teleport_add_def sum_list_upd)
  then show ?case
    using Cons by (simp add: algebra_simps)
qed

lemma round_sum:
  assumes "distinct ids" and "ids \<noteq> []" and "weights_pos out"
    and "\<forall>src \<in> set ids. \<forall>p \<in> set (dict_get out src []). fst p \<in> set ids"
    and "tns \<noteq> []" and "\<forall>t \<in> set tns. t \<in> set ids"
  shows "sum_list (map (pr_round d ids out tns sc) ids)
         = 2 * (1 - d) + d * sum_list (map (\<lambda>src. if dict_get out src [] = [] then 0 else sc src) ids)"
proof -
  have n: "real (length ids) \<noteq> 0" using assms(2) by simp
  have l: "real (max 1 (length tns)) = real (length tns)" "real (length tns) \<noteq> 0"
    using assms(5) by (simp_all add: max_def Suc_leI)
  have i: "sum_list (map (\<lambda>nid. (1 - d) / real (length ids)) ids) = 1 - d"
    using n by (simp add: sum_list_triv)
  show ?thesis
    unfolding pr_round_def Let_def
    using assms(5)
    by (simp only: teleport_sum[OF assms(1) assms(6)] fold_distribute_sum[OF assms(1) assms(3) assms(4)] i l)
       (simp add: l)
qed

lemma fold_contrib_nonneg:
  fixes nxt :: "string \<Rightarrow> real"
  assumes "\<forall>x. nxt x \<ge> 0" and "\<forall>p \<in> set nbrs. c * (snd p / nrm) \<ge> 0"
  shows "fold (\<lambda>(dst, weight) nx. nx(dst := nx dst + c * (weight / nrm))) nbrs nxt x \<ge> 0"
  using assms
proof (induction nbrs arbitrary: nxt)
  case Nil
  then show ?case by simp
next
  case (Cons p nbrs)
  obtain dst w where p: "p = (dst, w)" by (cases p)
  have "\<forall>x. (nxt(dst := nxt dst + c * (w / nrm))) x \<ge> 0"
    using Cons.prems p by simp
  moreover have "\<forall>p \<in> set nbrs. c * (snd p / nrm) \<ge> 0"
    using Cons.prems by simp
  ultimately have "fold (\<lambda>(dst, weight) nx. nx(dst := nx dst + c * (weight / nrm))) nbrs
                     (nxt(dst := nxt dst + c * (w / nrm))) x \<ge> 0"
    by (rule Cons.IH)
  then show ?case by (simp add: p del: fun_upd_apply)
qed

lemma distribute_nonneg:
  assumes "\<forall>x. nxt x \<ge> 0" and "weights_pos out" and "0 \<le> d" and "sc src \<ge> 0"
  shows "distribute d out sc src nxt x \<ge> 0"
proof (cases "dict_get out src [] = []")
  case True
  then show ?thesis using assms(1) by (simp add: distribute_def)
next
  case False
  let ?nb = "dict_get out src []"
  have wp: "\<forall>p \<in> set ?nb. snd p > 0"
    using assms(2) by (auto simp: weights_pos_def)
  have pos: "sum_list (map snd ?nb) > 0"
    using False wp by (rule sum_pos_of_weights)
  have "\<forall>p \<in> set ?nb. (d * sc src) * (snd p / sum_list (map snd ?nb)) \<ge> 0"
  proof
    fix p assume "p \<in> set ?nb"
    then have "snd p \<ge> 0" using wp by (auto simp: less_imp_le)
    then have "snd p / sum_list (map snd ?nb) \<ge> 0"
      using pos by (intro divide_nonneg_nonneg) simp_all
    moreover have "d * sc src \<ge> 0" using assms(3,4) by simp
    ultimately show "(d * sc src) * (snd p / sum_list (map snd ?nb)) \<ge> 0"
      by (rule mult_nonneg_nonneg[rotated])
  qed
  then have "fold (\<lambda>(dst, weight) nx. nx(dst := nx dst + (d * sc src) * (weight / sum_list (map snd ?nb))))
               ?nb nxt x \<ge> 0"
    using assms(1) by (intro fold_contrib_nonneg) auto
  then show ?thesis
    using False pos by (simp add: distribute_def Let_def del: fun_upd_apply)
qed

lemma fold_distribute_nonneg:
  assumes "\<forall>x. nxt x \<ge> 0" and "weights_pos out" and "0 \<le> d" and "\<forall>x. sc x \<ge> 0"
  shows "fold (distribute d out sc) srcs nxt x \<ge> 0"
  using assms(1)
proof (induction srcs arbitrary: nxt x)
  case Nil
  then show ?case by simp
next
  case (Cons s srcs)
  have "\<forall>x. distribute d out sc s nxt x \<ge> 0"
    using Cons.prems assms(2,3,4) by (auto intro: distribute_nonneg)
  then show ?case
    using Cons.IH by simp
qed

lemma fold_teleport_nonneg:
  fixes nxt :: "string \<Rightarrow> real"
  assumes "\<forall>x. nxt x \<ge> 0" and "d \<le> 1" and "0 \<le> m"
  shows "fold (teleport_add d ids m) tns nxt x \<ge> 0"
  using assms(1)
proof (induction tns arbitrary: nxt x)
  case Nil
  then show ?case by simp
next
  case (Cons t tns)
  have "\<forall>x. teleport_add d ids m t nxt x \<ge> 0"
    using Cons.prems assms(2,3) by (auto simp: teleport_add_def)
  then show ?case
    using Cons.IH by simp
qed

lemma round_nonneg:
  assumes "weights_pos out" and "0 \<le> d" and "d \<le> 1" and "\<forall>x. sc x \<ge> 0"
  shows "pr_round d ids out tns sc x \<ge> 0"
  unfolding pr_round_def Let_def
  by (intro fold_teleport_nonneg allI fold_distribute_nonneg assms) (use assms in auto)

lemma dangling_free_mass_bounds:
  assumes "\<forall>x. sc x \<ge> 0"
  shows "0 \<le> dangling_free_mass out ids sc" "dangling_free_mass out ids sc \<le> sum_list (map sc ids)"
  unfolding dangling_free_mass_def
  using assms by (auto intro!: sum_list_nonneg sum_list_mono)

lemma round_sum':
  assumes "pr_setting ids out tns"
  shows "sum_list (map (pr_round d ids out tns sc) ids)
         = 2 * (1 - d) + d * dangling_free_mass out ids sc"
  using assms unfolding pr_setting_def dangling_free_mass_def
  by (intro round_sum) auto

lemma iter_bounds:
  assumes "pr_setting ids out tns" and "0 \<le> d" and "d \<le> 1"
  shows "(\<forall>x. ((pr_round d ids out tns) ^^ k) (\<lambda>nid. 1 / real (length ids)) x \<ge> 0)
       \<and> sum_list (map (((pr_round d ids out tns) ^^ k) (\<lambda>nid. 1 / real (length ids))) ids) \<le> 2 - d ^ k
       \<and> (k \<ge> 1 \<longrightarrow> 2 * (1 - d)
             \<le> sum_list (map (((pr_round d ids out tns) ^^ k) (\<lambda>nid. 1 / real (length ids))) ids))"
proof (induction k)
  case 0
  have "real (length ids) \<noteq> 0" using assms(1) by (simp add: pr_setting_def)
  then have "sum_list (map (\<lambda>nid. 1 / real (length ids)) ids) = 1"
    by (simp add: sum_list_triv)
  then show ?case by simp
next
  case (Suc k)
  let ?sc = "((pr_round d ids out tns) ^^ k) (\<lambda>nid. 1 / real (length ids))"
  have wp: "weights_pos out" using assms(1) by (simp add: pr_setting_def)
  have nn: "\<forall>x. ?sc x \<ge> 0" using Suc by blast
  have ub: "sum_list (map ?sc ids) \<le> 2 - d ^ k" using Suc by blast
  have s: "sum_list (map (pr_round d ids out tns ?sc) ids)
           = 2 * (1 - d) + d * dangling_free_mass out ids ?sc"
    using assms(1) by (rule round_sum')
  have a0: "0 \<le> dangling_free_mass out ids ?sc"
    and a1: "dangling_free_mass out ids ?sc \<le> sum_list (map ?sc ids)"
    using nn by (rule dangling_free_mass_bounds)+
  have "d * dangling_free_mass out ids ?sc \<le> d * (2 - d ^ k)"
    using a1 ub assms(2) by (intro mult_left_mono) auto
  then have u: "sum_list (map (pr_round d ids out tns ?sc) ids) \<le> 2 - d ^ Suc k"
    unfolding s by (simp add: algebra_simps)
  have "0 \<le> d * dangling_free_mass out ids ?sc"
    using a0 assms(2) by simp
  then have l: "2 * (1 - d) \<le> sum_list (map (pr_round d ids out tns ?sc) ids)"
    unfolding s by simp
  have n: "\<forall>x. pr_round d ids out tns ?sc x \<ge> 0"
    using wp assms(2,3) nn by (auto intro: round_nonneg)
  show ?case
    using u l n by (simp only: funpow.simps comp_apply simp_thms)
qed

lemma iter_all_outgoing:
  assumes "pr_setting ids out tns" and "\<forall>src \<in> set ids. dict_get out src [] \<noteq> []"
  shows "sum_list (map (((pr_round d ids out tns) ^^ k) (\<lambda>nid. 1 / real (length ids))) ids) = 2 - d ^ k"
proof (induction k)
  case 0
  have "real (length ids) \<noteq> 0" using assms(1) by (simp add: pr_setting_def)
  then show ?case by (simp add: sum_list_triv)
next
  case (Suc k)
  let ?sc = "((pr_round d ids out tns) ^^ k) (\<lambda>nid. 1 / real (length ids))"
  have "map (\<lambda>src. if dict_get out src [] = [] then 0 else ?sc src) ids = map ?sc ids"
    using assms(2) by (intro map_cong) auto
  then have dm: "dangling_free_mass out ids ?sc = 2 - d ^ k"
    using Suc by (simp only: dangling_free_mass_def)
  have "sum_list (map (pr_round d ids out tns ?sc) ids) = 2 - d ^ Suc k"
    unfolding round_sum'[OF assms(1)] dm by (simp add: algebra_simps)
  then show ?case by (simp only: funpow.simps comp_apply)
qed

lemma iter_no_outgoing:
  assumes "pr_setting ids out tns" and "\<forall>src \<in> set ids. dict_get out src [] = []"
  shows "sum_list (map (((pr_round d ids out tns) ^^ Suc k) (\<lambda>nid. 1 / real (length ids))) ids)
         = 2 * (1 - d)"
proof -
  let ?sc = "((pr_round d ids out tns) ^^ k) (\<lambda>nid. 1 / real (length ids))"
  have "map (\<lambda>src. if dict_get out src [] = [] then 0 else ?sc src) ids = map (\<lambda>src. 0) ids"
    using assms(2) by (intro map_cong) auto
  then have "dangling_free_mass out ids ?sc = 0"
    by (simp only: dangling_free_mass_def) simp
  then have "sum_list (map (pr_round d ids out tns ?sc) ids) = 2 * (1 - d)"
    unfolding round_sum'[OF assms(1)] by simp
  then show ?thesis by (simp only: funpow.simps comp_apply)
qed

lemma get_neighbors_out_ids:
  assumes "nodes_wf g" and "n \<in> set (get_neighbors g s et ''outgoing'')"
  shows "node_id n \<in> set (dict_keys (nodes g))"
proof -
  from assms(2) have "\<exists>e::edge. map_of (nodes g) (target_id e) = Some n"
    by (auto simp: get_neighbors_def map_filter_def)
  then obtain e :: edge where "map_of (nodes g) (target_id e) = Some n" ..
  then have m: "(target_id e, n) \<in> set (nodes g)" by (rule map_of_SomeD)
  then have "node_id n = target_id e" using assms(1) by (auto simp: nodes_wf_def)
  then show ?thesis using m by (force simp: dict_keys_def)
qed

lemma pr_setting_graph:
  assumes "nodes_wf g" and "session_id \<in> set (dict_keys (nodes g))"
    and "set (written_ids g) \<subseteq> set (dict_keys (nodes g))"
  shows "pr_setting (dict_keys (nodes g)) (weighted_outgoing g) (teleport_nodes_of g session_id)"
proof -
  have "\<forall>src \<in> set (dict_keys (nodes g)). \<forall>p \<in> set (dict_get (weighted_outgoing g) src []).
          fst p \<in> set (dict_keys (nodes g))"
    using assms(3) by (auto simp: written_ids_def)
  moreover have "\<forall>t \<in> set (teleport_nodes_of g session_id). t \<in> set (dict_keys (nodes g))"
    using assms(1,2) get_neighbors_out_ids by (auto simp: teleport_nodes_of_def)
  moreover have "dict_keys (nodes g) \<noteq> []" using assms(2) by auto
  ultimately show ?thesis
    using assms(1) weighted_outgoing_pos by (simp add: pr_setting_def nodes_wf_def teleport_nodes_of_def)
qed

text \<open>
  \<^bold>\<open>C3, as amended.\<close> For a graph whose nodes are stored under their own distinct ids,
  that contains the session node and whose weighted edges out of nodes lead to nodes (so
  that no round raises), the computation returns, and after the 26 rounds with damping
  0.85 the sum of the scores before the division by the maximum lies between 0.3 and
  \<open>2 - 0.85 ^ 26\<close>.  It is \<open>2 - 0.85 ^ 26\<close> (about 1.985) when every node has an
  outgoing weighted edge, and 0.3 when no node has one: a round yields twice the
  teleport share \<open>1 - 0.85\<close> plus 0.85 times the mass on the nodes with outgoing edges.
\<close>

theorem pagerank_mass_bounds:
  assumes "nodes_wf g" and "session_id \<in> set (dict_keys (nodes g))"
    and "set (written_ids g) \<subseteq> set (dict_keys (nodes g))"
  shows "(\<exists>r. personalized_pagerank 0.85 26 g session_id = Inr r)
     \<and> 0.3 \<le> pagerank_mass 0.85 26 g session_id
     \<and> pagerank_mass 0.85 26 g session_id \<le> 2 - 0.85 ^ 26
     \<and> ((\<forall>n \<in> set (dict_keys (nodes g)). has_outgoing g n)
          \<longrightarrow> pagerank_mass 0.85 26 g session_id = 2 - 0.85 ^ 26)
     \<and> ((\<forall>n \<in> set (dict_keys (nodes g)). \<not> has_outgoing g n)
          \<longrightarrow> pagerank_mass 0.85 26 g session_id = 0.3)"
proof -
  let ?ids = "dict_keys (nodes g)"
  have st: "pr_setting ?ids (weighted_outgoing g) (teleport_nodes_of g session_id)"
    using assms by (rule pr_setting_graph)
  have "find (\<lambda>dst. dst \<notin> set ?ids) (written_ids g) = None"
    using assms(3) by (auto simp: find_None_iff)
  then have r: "\<exists>r. personalized_pagerank 0.85 26 g session_id = Inr r"
    by (simp add: personalized_pagerank_def Let_def)
  have b: "2 * (1 - 0.85) \<le> pagerank_mass 0.85 26 g session_id"
     "pagerank_mass 0.85 26 g session_id \<le> 2 - 0.85 ^ 26"
    using iter_bounds[OF st, where d="0.85" and k=26]
    by (simp_all add: pagerank_mass_def pagerank_scores_def Let_def)
  have c: "pagerank_mass 0.85 26 g session_id = 2 - 0.85 ^ 26"
    if "\<forall>n \<in> set ?ids. has_outgoing g n"
    using iter_all_outgoing[OF st, where d="0.85" and k=26] that
    by (simp add: pagerank_mass_def pagerank_scores_def Let_def has_outgoing_def)
  have d: "pagerank_mass 0.85 26 g session_id = 2 * (1 - 0.85)"
    if "\<forall>n \<in> set ?ids. \<not> has_outgoing g n"
    using iter_no_outgoing[OF st, where d="0.85" and k=25] that
    by (simp add: pagerank_mass_def pagerank_scores_def Let_def has_outgoing_def)
  show ?thesis
    using r b c d by auto
qed

lemmas graph_eval = graph_of_def nodes_of_def edges_of_def map_filter_simps mk_node_def mk_edge_def
  dict_keys_def index_of_def

lemma ex_user_only_facts:
  "dict_keys (nodes ex_user_only) = [''u'']"
  "nodes_wf ex_user_only"
  "weighted_outgoing ex_user_only = []"
  "written_ids ex_user_only = []"
  by (simp_all add: ex_user_only_def graph_eval nodes_wf_def weighted_outgoing_def written_ids_def
      dict_get_simps)

lemma ex_pref_cycle_facts:
  "dict_keys (nodes ex_pref_cycle) = [''u'', ''p'', ''v'']"
  "nodes_wf ex_pref_cycle"
  "weighted_outgoing ex_pref_cycle
     = [(''u'', [(''p'', 1)]), (''v'', [(''p'', 9 / 10)]), (''p'', [(''v'', 81 / 200)])]"
  by (simp_all add: ex_pref_cycle_def graph_eval nodes_wf_def weighted_outgoing_def
      outgoing_step_def out_append_def EDGE_WEIGHTS_def dict_get_simps Let_def)

lemma ex_pref_cycle_written: "written_ids ex_pref_cycle = [''p'', ''v'', ''p'']"
  by (simp add: written_ids_def ex_pref_cycle_facts dict_get_simps)

text \<open>
  \<^bold>\<open>C3.\<close> The claim as stated fails.  On the graph that holds the user node alone every
  round leaves the uniform share 0.15 and the teleport share 0.15 on that node, and
  nothing else: the sum before normalisation is 0.3, not 1.
\<close>

theorem pagerank_mass_counterexample:
  "has_node ex_user_only ''u''
   \<and> pagerank_mass 0.85 26 ex_user_only ''u'' = 0.3
   \<and> \<not> (\<bar>pagerank_mass 0.85 26 ex_user_only ''u'' - 1\<bar> \<le> 0.01)"
proof -
  have st: "pr_setting (dict_keys (nodes ex_user_only)) (weighted_outgoing ex_user_only)
              (teleport_nodes_of ex_user_only ''u'')"
    by (rule pr_setting_graph) (simp_all add: ex_user_only_facts)
  have "\<forall>src \<in> set (dict_keys (nodes ex_user_only)). dict_get (weighted_outgoing ex_user_only) src [] = []"
    by (simp add: ex_user_only_facts dict_get_simps)
  from iter_no_outgoing[OF st this, where d="0.85" and k=25]
  have m: "pagerank_mass 0.85 26 ex_user_only ''u'' = 0.3"
    by (simp add: pagerank_mass_def pagerank_scores_def Let_def)
  have "has_node ex_user_only ''u''"
    by (simp add: has_node_def ex_user_only_facts)
  then show ?thesis
    unfolding m by simp
qed

theorem pagerank_mass_bounds_witness:
  "nodes_wf ex_pref_cycle
   \<and> ''u'' \<in> set (dict_keys (nodes ex_pref_cycle))
   \<and> set (written_ids ex_pref_cycle) \<subseteq> set (dict_keys (nodes ex_pref_cycle))
   \<and> list_all (has_outgoing ex_pref_cycle) (dict_keys (nodes ex_pref_cycle))
   \<and> pagerank_mass 0.85 26 ex_pref_cycle ''u'' = 2 - 0.85 ^ 26
   \<and> 0.3 \<le> pagerank_mass 0.85 26 ex_pref_cycle ''u''"
proof -
  have a: "nodes_wf ex_pref_cycle" by (rule ex_pref_cycle_facts)
  have b: "''u'' \<in> set (dict_keys (nodes ex_pref_cycle))"
    by (simp add: ex_pref_cycle_facts)
  have c: "set (written_ids ex_pref_cycle) \<subseteq> set (dict_keys (nodes ex_pref_cycle))"
    by (simp add: ex_pref_cycle_facts ex_pref_cycle_written)
  have d: "\<forall>n \<in> set (dict_keys (nodes ex_pref_cycle)). has_outgoing ex_pref_cycle n"
    by (simp add: has_outgoing_def ex_pref_cycle_facts dict_get_simps)
  have d': "list_all (has_outgoing ex_pref_cycle) (dict_keys (nodes ex_pref_cycle))"
    using d by (simp only: list_all_iff)
  show ?thesis
    using a b c d d' pagerank_mass_bounds [OF a b c] by blast
qed

section \<open>Properties of the enhanced filter\<close>

lemma step_ok_refl: "step_ok rs rs"
  by (simp add: step_ok_def)

lemma step_ok_trans: "step_ok a b \<Longrightarrow> step_ok b c \<Longrightarrow> step_ok a c"
  by (auto simp: step_ok_def)

lemma step_ok_remove: "step_ok rs (remove_row b e rs)"
  by (simp add: step_ok_def remove_row_def)

lemma step_ok_add: "step_ok rs (add_violation t s m rs)"
  by (auto simp: step_ok_def add_violation_def)

lemma buckets_remove: "buckets (remove_row b e rs) = insert b (buckets rs)"
  by (simp add: remove_row_def buckets_def)

lemma buckets_add: "buckets (add_violation t s m rs) = buckets rs"
  by (simp add: add_violation_def buckets_def)

lemma check_budget_ok:
  "check_budget mh tol P row name rs = Some rs' \<Longrightarrow>
     step_ok rs rs' \<and> buckets rs' \<subseteq> insert ''removed_by_budget'' (buckets rs)"
  by (auto simp: check_budget_def Let_def step_ok_refl step_ok_remove step_ok_add buckets_remove buckets_add
      split: option.splits prod.splits if_splits)

lemma check_text_ok:
  "step_ok rs (check_text B mh st pref row name kn kr mp d bucket ea er th sa sb rs)"
  by (auto simp: check_text_def step_ok_refl step_ok_remove step_ok_add split: option.splits)

lemma check_text_buckets:
  "buckets (check_text B mh st pref row name kn kr mp d bucket ea er th sa sb rs)
     \<subseteq> (if d \<in> set mh then insert bucket (buckets rs) else buckets rs)"
  by (auto simp: check_text_def buckets_remove buckets_add split: option.splits)

lemma check_text_violation:
  assumes "should_keep rs" and "d \<notin> set mh" and "text_mismatch B pref row kn kr mp"
  shows "\<exists>v \<in> set (violation_reasons (check_text B mh st pref row name kn kr mp d bucket ea er th sa sb rs)).
           v_type v = d"
  using assms by (auto simp: check_text_def text_mismatch_def add_violation_def split: option.splits)

lemma check_seating_ok:
  "check_seating mh st P row name rs = Some rs' \<Longrightarrow>
     step_ok rs rs'
     \<and> buckets rs'
        \<subseteq> (if ''seating'' \<in> set mh then insert ''removed_by_seating'' (buckets rs)
            else buckets rs)"
  by (auto simp: check_seating_def Let_def step_ok_refl step_ok_remove step_ok_add buckets_remove buckets_add
      split: option.splits if_splits)

lemma check_seating_violation:
  assumes "check_seating mh st P row name rs = Some rs'" and "should_keep rs"
    and "''seating'' \<notin> set mh" and "seating_mismatch P row"
  shows "\<exists>v \<in> set (violation_reasons rs'). v_type v = ''seating''"
  using assms
  by (auto simp: check_seating_def seating_mismatch_def Let_def add_violation_def
      split: option.splits if_splits)

lemma check_features_ok:
  "step_ok rs (check_features_block B st ctx P row name rs)
   \<and> buckets (check_features_block B st ctx P row name rs)
      \<subseteq> insert ''removed_by_features'' (buckets rs)"
  by (auto simp: check_features_block_def Let_def step_ok_refl step_ok_remove step_ok_add
      buckets_remove buckets_add split: prod.splits)

lemma check_brand_ok:
  "step_ok rs (check_brand B mh P row name rs)
   \<and> buckets (check_brand B mh P row name rs)
      \<subseteq> insert ''removed_by_brand'' (buckets rs)"
  by (auto simp: check_brand_def Let_def step_ok_refl step_ok_remove buckets_remove
      split: option.splits)

lemma check_performance_ok:
  "step_ok rs (check_performance B st P row name rs)
   \<and> buckets (check_performance B st P row name rs)
      \<subseteq> insert ''removed_by_performance'' (buckets rs)"
  by (auto simp: check_performance_def Let_def step_ok_refl step_ok_remove step_ok_add
      buckets_remove buckets_add split: option.splits)

lemma step_ok_keep: "step_ok a b \<Longrightarrow> should_keep b \<Longrightarrow> should_keep a"
  by (simp add: step_ok_def)

lemma step_ok_viol: "step_ok a b \<Longrightarrow> \<exists>v \<in> set (violation_reasons a). v_type v = d
   \<Longrightarrow> \<exists>v \<in> set (violation_reasons b). v_type v = d"
  by (auto simp: step_ok_def)

lemma check_text_hard:
  "d \<in> set mh \<Longrightarrow> text_mismatch B pref row kn kr mp \<Longrightarrow>
   \<not> should_keep (check_text B mh st pref row name kn kr mp d bucket ea er th sa sb rs)"
  by (auto simp: check_text_def text_mismatch_def remove_row_def split: option.splits)

lemma check_seating_hard:
  "''seating'' \<in> set mh \<Longrightarrow> seating_mismatch P row \<Longrightarrow>
   check_seating mh st P row name rs = Some rs' \<Longrightarrow> \<not> should_keep rs'"
  by (auto simp: check_seating_def seating_mismatch_def Let_def remove_row_def
      split: option.splits if_splits)

lemma filter_row_dimension:
  assumes fr: "filter_row B P ctx (idx, row) = Some (name, rs)"
    and d: "d \<in> {''fuel_type'', ''body_type'', ''transmission'', ''seating''}"
  shows "d \<notin> set (must_have_prefs ctx) \<Longrightarrow> bucket_of d \<notin> buckets rs"
    and "d \<notin> set (must_have_prefs ctx) \<Longrightarrow> should_keep rs \<Longrightarrow> mismatch B P row d
         \<Longrightarrow> \<exists>v \<in> set (violation_reasons rs). v_type v = d"
    and "d \<in> set (must_have_prefs ctx) \<Longrightarrow> mismatch B P row d \<Longrightarrow> \<not> should_keep rs"
proof -
  let ?cfg = "ctx_user_control_config ctx"
  let ?mh = "must_have_prefs ctx"
  let ?st = "filter_strictness ?cfg"
  let ?rs0 = "\<lparr>should_keep = True, violation_reasons = [], removals = []\<rparr>"
  from fr obtain rs1 where b: "check_budget ?mh (filter_budget_tolerance ?cfg) P row name ?rs0 = Some rs1"
    and rest: "(let rs2 = check_text B ?mh ?st (fuel_type P) row name
                               ''fuel_type_norm'' ''Fuel Type'' fuel_mappings ''fuel_type''
                               ''removed_by_fuel'' ''variant_fuel'' ''required_fuel''
                               0.6 ''medium'' ''low'' rs1;
                       rs3 = check_text B ?mh ?st (body_type P) row name
                               ''body_type_norm'' ''Body Type'' body_mappings ''body_type''
                               ''removed_by_body'' ''variant_body'' ''required_body''
                               0.6 ''medium'' ''low'' rs2;
                       rs4 = check_text B ?mh ?st (transmission P) row name
                               ''transmission_norm'' ''Transmission Type'' trans_mappings ''transmission''
                               ''removed_by_transmission'' ''variant_trans'' ''required_trans''
                               0.7 ''high'' ''medium'' rs3
                   in case check_seating ?mh ?st P row name rs4 of
                        None \<Rightarrow> None
                      | Some rs5 \<Rightarrow>
                          (let rs6 = check_features_block B ?st ctx P row name rs5;
                               rs7 = check_brand B ?mh P row name rs6;
                               rs8 = check_performance B ?st P row name rs7
                           in Some (name, rs8))) = Some (name, rs)"
    by (auto simp: filter_row_def Let_def split: option.splits)
  define rs2 where "rs2 = check_text B ?mh ?st (fuel_type P) row name
                               ''fuel_type_norm'' ''Fuel Type'' fuel_mappings ''fuel_type''
                               ''removed_by_fuel'' ''variant_fuel'' ''required_fuel''
                               0.6 ''medium'' ''low'' rs1"
  define rs3 where "rs3 = check_text B ?mh ?st (body_type P) row name
                               ''body_type_norm'' ''Body Type'' body_mappings ''body_type''
                               ''removed_by_body'' ''variant_body'' ''required_body''
                               0.6 ''medium'' ''low'' rs2"
  define rs4 where "rs4 = check_text B ?mh ?st (transmission P) row name
                               ''transmission_norm'' ''Transmission Type'' trans_mappings ''transmission''
                               ''removed_by_transmission'' ''variant_trans'' ''required_trans''
                               0.7 ''high'' ''medium'' rs3"
  from rest obtain rs5 where s: "check_seating ?mh ?st P row name rs4 = Some rs5"
    and fin: "rs = check_performance B ?st P row name
                     (check_brand B ?mh P row name (check_features_block B ?st ctx P row name rs5))"
    unfolding rs2_def rs3_def rs4_def by (auto simp: Let_def split: option.splits)
  define rs6 where "rs6 = check_features_block B ?st ctx P row name rs5"
  define rs7 where "rs7 = check_brand B ?mh P row name rs6"
  have rs: "rs = check_performance B ?st P row name rs7"
    using fin by (simp add: rs6_def rs7_def)
  note ok1 = check_budget_ok[OF b]
  have ok2: "step_ok rs1 rs2" unfolding rs2_def by (rule check_text_ok)
  have ok3: "step_ok rs2 rs3" unfolding rs3_def by (rule check_text_ok)
  have ok4: "step_ok rs3 rs4" unfolding rs4_def by (rule check_text_ok)
  note ok5 = check_seating_ok[OF s]
  have o5: "step_ok rs4 rs5" using ok5 by blast
  have ok6: "step_ok rs5 rs6" unfolding rs6_def using check_features_ok by blast
  have ok7: "step_ok rs6 rs7" unfolding rs7_def using check_brand_ok by blast
  have ok8: "step_ok rs7 rs" unfolding rs using check_performance_ok by blast
  have t58: "step_ok rs5 rs" using ok6 ok7 ok8 step_ok_trans by blast
  have t48: "step_ok rs4 rs" using o5 t58 by (rule step_ok_trans)
  have t38: "step_ok rs3 rs" using ok4 t48 by (rule step_ok_trans)
  have t28: "step_ok rs2 rs" using ok3 t38 by (rule step_ok_trans)
  have b0: "buckets ?rs0 = {}" by (simp add: buckets_def)
  have b1: "buckets rs1 \<subseteq> {''removed_by_budget''}" using ok1 b0 by auto
  have b2: "buckets rs2 \<subseteq> (if ''fuel_type'' \<in> set ?mh then insert ''removed_by_fuel'' (buckets rs1) else buckets rs1)"
    unfolding rs2_def by (rule check_text_buckets)
  have b3: "buckets rs3 \<subseteq> (if ''body_type'' \<in> set ?mh then insert ''removed_by_body'' (buckets rs2) else buckets rs2)"
    unfolding rs3_def by (rule check_text_buckets)
  have b4: "buckets rs4 \<subseteq> (if ''transmission'' \<in> set ?mh then insert ''removed_by_transmission'' (buckets rs3) else buckets rs3)"
    unfolding rs4_def by (rule check_text_buckets)
  have b5: "buckets rs5 \<subseteq> (if ''seating'' \<in> set ?mh then insert ''removed_by_seating'' (buckets rs4) else buckets rs4)"
    using ok5 by blast
  have b6: "buckets rs6 \<subseteq> insert ''removed_by_features'' (buckets rs5)"
    unfolding rs6_def using check_features_ok by blast
  have b7: "buckets rs7 \<subseteq> insert ''removed_by_brand'' (buckets rs6)"
    unfolding rs7_def using check_brand_ok by blast
  have b8: "buckets rs \<subseteq> insert ''removed_by_performance'' (buckets rs7)"
    unfolding rs using check_performance_ok by blast
  from d consider (fuel) "d = ''fuel_type''" | (body) "d = ''body_type''"
    | (trans) "d = ''transmission''" | (seat) "d = ''seating''"
    by auto
  note dcases = this
  show "bucket_of d \<notin> buckets rs" if nh: "d \<notin> set ?mh"
  proof -
    have ne: "bucket_of d \<noteq> ''removed_by_budget''" "bucket_of d \<noteq> ''removed_by_features''"
      "bucket_of d \<noteq> ''removed_by_brand''" "bucket_of d \<noteq> ''removed_by_performance''"
      using d by (auto simp: bucket_of_def)
    have nf: "''fuel_type'' \<in> set ?mh \<Longrightarrow> bucket_of d \<noteq> ''removed_by_fuel''"
      and nb: "''body_type'' \<in> set ?mh \<Longrightarrow> bucket_of d \<noteq> ''removed_by_body''"
      and nt: "''transmission'' \<in> set ?mh \<Longrightarrow> bucket_of d \<noteq> ''removed_by_transmission''"
      and ns: "''seating'' \<in> set ?mh \<Longrightarrow> bucket_of d \<noteq> ''removed_by_seating''"
      using d nh by (auto simp: bucket_of_def)
    have n1: "bucket_of d \<notin> buckets rs1" using b1 ne(1) by blast
    have n2: "bucket_of d \<notin> buckets rs2"
      using b2 n1 nf by (cases "''fuel_type'' \<in> set ?mh") (simp_all only: if_True if_False, blast+)
    have n3: "bucket_of d \<notin> buckets rs3"
      using b3 n2 nb by (cases "''body_type'' \<in> set ?mh") (simp_all only: if_True if_False, blast+)
    have n4: "bucket_of d \<notin> buckets rs4"
      using b4 n3 nt by (cases "''transmission'' \<in> set ?mh") (simp_all only: if_True if_False, blast+)
    have n5: "bucket_of d \<notin> buckets rs5"
      using b5 n4 ns by (cases "''seating'' \<in> set ?mh") (simp_all only: if_True if_False, blast+)
    have n6: "bucket_of d \<notin> buckets rs6" using b6 n5 ne(2) by blast
    have n7: "bucket_of d \<notin> buckets rs7" using b7 n6 ne(3) by blast
    show ?thesis using b8 n7 ne(4) by blast
  qed
  show "\<exists>v \<in> set (violation_reasons rs). v_type v = d"
    if nh: "d \<notin> set ?mh" and keep: "should_keep rs" and mm: "mismatch B P row d"
  proof -
    have k7: "should_keep rs7" using ok8 keep by (rule step_ok_keep)
    have k6: "should_keep rs6" using ok7 k7 by (rule step_ok_keep)
    have k5: "should_keep rs5" using ok6 k6 by (rule step_ok_keep)
    have k4: "should_keep rs4" using o5 k5 by (rule step_ok_keep)
    have k3: "should_keep rs3" using ok4 k4 by (rule step_ok_keep)
    have k2: "should_keep rs2" using ok3 k3 by (rule step_ok_keep)
    have k1: "should_keep rs1" using ok2 k2 by (rule step_ok_keep)
    from dcases show ?thesis
    proof cases
      case fuel
      then have "text_mismatch B (fuel_type P) row ''fuel_type_norm'' ''Fuel Type'' fuel_mappings"
        using mm by (simp add: mismatch_def)
      then have "\<exists>v \<in> set (violation_reasons rs2). v_type v = ''fuel_type''"
        unfolding rs2_def using k1 nh fuel by (intro check_text_violation) auto
      then show ?thesis unfolding fuel using t28 step_ok_viol by blast
    next
      case body
      then have "text_mismatch B (body_type P) row ''body_type_norm'' ''Body Type'' body_mappings"
        using mm by (simp add: mismatch_def)
      then have "\<exists>v \<in> set (violation_reasons rs3). v_type v = ''body_type''"
        unfolding rs3_def using k2 nh body by (intro check_text_violation) auto
      then show ?thesis unfolding body using t38 step_ok_viol by blast
    next
      case trans
      then have "text_mismatch B (transmission P) row ''transmission_norm'' ''Transmission Type'' trans_mappings"
        using mm by (simp add: mismatch_def)
      then have "\<exists>v \<in> set (violation_reasons rs4). v_type v = ''transmission''"
        unfolding rs4_def using k3 nh trans by (intro check_text_violation) auto
      then show ?thesis unfolding trans using t48 step_ok_viol by blast
    next
      case seat
      then have "seating_mismatch P row"
        using mm by (simp add: mismatch_def)
      then have "\<exists>v \<in> set (violation_reasons rs5). v_type v = ''seating''"
        using s k4 nh seat by (intro check_seating_violation) auto
      then show ?thesis unfolding seat using t58 step_ok_viol by blast
    qed
  qed
  show "\<not> should_keep rs" if mh: "d \<in> set ?mh" and mm: "mismatch B P row d"
  proof -
    from dcases show ?thesis
    proof cases
      case fuel
      then have "text_mismatch B (fuel_type P) row ''fuel_type_norm'' ''Fuel Type'' fuel_mappings"
        using mm by (simp add: mismatch_def)
      then have "\<not> should_keep rs2"
        unfolding rs2_def using mh fuel by (intro check_text_hard) auto
      then show ?thesis using t28 step_ok_keep by blast
    next
      case body
      then have "text_mismatch B (body_type P) row ''body_type_norm'' ''Body Type'' body_mappings"
        using mm by (simp add: mismatch_def)
      then have "\<not> should_keep rs3"
        unfolding rs3_def using mh body by (intro check_text_hard) auto
      then show ?thesis using t38 step_ok_keep by blast
    next
      case trans
      then have "text_mismatch B (transmission P) row ''transmission_norm'' ''Transmission Type'' trans_mappings"
        using mm by (simp add: mismatch_def)
      then have "\<not> should_keep rs4"
        unfolding rs4_def using mh trans by (intro check_text_hard) auto
      then show ?thesis using t48 step_ok_keep by blast
    next
      case seat
      then have "seating_mismatch P row"
        using mm by (simp add: mismatch_def)
      then have "\<not> should_keep rs5"
        using s mh seat check_seating_hard by blast
      then show ?thesis using t58 step_ok_keep by blast
    qed
  qed
qed

lemma map_of_fold_update:
  "distinct (map fst sp) \<Longrightarrow>
   map_of (fold (\<lambda>(k, v) d. AList.update k v d) sp d0) k =
     (case map_of sp k of Some v \<Rightarrow> Some v | None \<Rightarrow> map_of d0 k)"
proof (induction sp arbitrary: d0)
  case Nil
  then show ?case by simp
next
  case (Cons a sp)
  obtain x y where a: "a = (x, y)" by (cases a)
  from Cons.prems have nx: "map_of sp x = None" and ds: "distinct (map fst sp)"
    by (auto simp: a map_of_eq_None_iff)
  show ?case
    using Cons.IH[OF ds, of "AList.update x y d0"] nx
    by (auto simp: a update_conv' split: option.splits)
qed

lemma filter_priority_given:
  assumes "exploration_rate_set c" "distinct (map fst (scoring_priorities c))"
    "map_of (scoring_priorities c) d = Some p" "0 \<le> p" "p \<le> 1"
  shows "filter_priority (Some c) d = p"
  using assms by (simp add: filter_priority_def filter_priorities_def dict_get_def map_of_fold_update)

lemma filter_exploration_rate_given:
  "0 < exploration_rate c \<Longrightarrow> exploration_rate c \<le> 0.5 \<Longrightarrow>
   filter_exploration_rate (Some c) = exploration_rate c"
  by (simp add: filter_exploration_rate_def Let_def)

lemma filter_strictness_given:
  assumes "exploration_rate_set c" "distinct (map fst (scoring_priorities c))"
    "map_of (scoring_priorities c) d = Some p" "0 \<le> p" "p \<le> 1"
    "0 < exploration_rate c" "exploration_rate c \<le> 0.5"
  shows "filter_strictness (Some c) d = 0.7 * p + 0.3 * (1 - exploration_rate c / 0.5)"
proof -
  have "0 \<le> 0.7 * p + 0.3 * (1 - exploration_rate c / 0.5)"
    using assms(4-7) by (simp add: field_simps)
  moreover have "0.7 * p + 0.3 * (1 - exploration_rate c / 0.5) \<le> 1"
    using assms(4-7) by (simp add: field_simps)
  ultimately show ?thesis
    by (simp add: filter_strictness_def filter_exploration_norm_def
        filter_priority_given[OF assms(1-5)] filter_exploration_rate_given[OF assms(6,7)])
qed

lemma must_have_prefs_iff:
  "d \<in> set promotable_keys \<Longrightarrow>
   d \<in> set (must_have_prefs ctx) \<longleftrightarrow>
     d \<in> set (ctx_must_have_preferences ctx)
     \<or> filter_strictness (ctx_user_control_config ctx) d \<ge> 0.78"
  by (auto simp: must_have_prefs_def promoted_keys_def)

lemma filter_row_name:
  "filter_row B P ctx entry = Some (name, rs) \<Longrightarrow> row_variant_name (fst entry) (snd entry) = Some name"
  by (auto simp: filter_row_def Let_def split: option.splits)

lemma filter_rows_kept:
  "filter_rows B P ctx df out = Some out' \<Longrightarrow>
   fst out' = fst out @ map row_id (filter (keeps_row B P ctx) df)"
proof (induction df arbitrary: out)
  case Nil
  then show ?case by simp
next
  case (Cons entry df)
  from Cons.prems obtain name rs where fr: "filter_row B P ctx entry = Some (name, rs)"
    and rest: "filter_rows B P ctx df (record_row (name, rs) out) = Some out'"
    by (auto split: option.splits)
  have id: "row_id entry = variant_id_of name"
    using filter_row_name[OF fr] by (simp add: row_id_def)
  show ?case
    using Cons.IH[OF rest] fr id by (simp add: keeps_row_def record_row_def Let_def)
qed

lemma filter_rows_bucket:
  "filter_rows B P ctx df out = Some out' \<Longrightarrow>
   \<forall>entry \<in> set df. \<forall>name rs. filter_row B P ctx entry = Some (name, rs) \<longrightarrow> b \<notin> buckets rs \<Longrightarrow>
   b \<notin> fst ` set (fd_removed (snd out)) \<Longrightarrow>
   b \<notin> fst ` set (fd_removed (snd out'))"
proof (induction df arbitrary: out)
  case Nil
  then show ?case by simp
next
  case (Cons entry df)
  from Cons.prems(1) obtain name rs where fr: "filter_row B P ctx entry = Some (name, rs)"
    and rest: "filter_rows B P ctx df (record_row (name, rs) out) = Some out'"
    by (auto split: option.splits)
  have "b \<notin> buckets rs" using Cons.prems(2) fr by simp
  then have nb: "b \<notin> fst ` set (fd_removed (snd (record_row (name, rs) out)))"
    using Cons.prems(3) by (auto simp: record_row_def Let_def buckets_def)
  have al: "\<forall>entry \<in> set df. \<forall>name rs. filter_row B P ctx entry = Some (name, rs) \<longrightarrow> b \<notin> buckets rs"
    using Cons.prems(2) by simp
  show ?case by (rule Cons.IH[OF rest al nb])
qed

lemma filter_rows_soft_mono:
  "filter_rows B P ctx df out = Some out' \<Longrightarrow>
   set (fd_soft_violations (snd out)) \<subseteq> set (fd_soft_violations (snd out'))"
proof (induction df arbitrary: out)
  case Nil
  then show ?case by simp
next
  case (Cons entry df)
  from Cons.prems(1) obtain res where
    rest: "filter_rows B P ctx df (record_row res out) = Some out'"
    by (auto split: option.splits)
  have "set (fd_soft_violations (snd out)) \<subseteq> set (fd_soft_violations (snd (record_row res out)))"
    by (auto simp: record_row_def Let_def)
  then show ?case using Cons.IH[OF rest] by blast
qed

lemma filter_rows_soft:
  assumes "filter_rows B P ctx df out = Some out'"
    and "entry \<in> set df" and "filter_row B P ctx entry = Some (name, rs)"
    and "should_keep rs" and "violation_reasons rs \<noteq> []"
  shows "\<lparr>sv_variant_id = variant_id_of name, sv_variant_name = name,
           sv_violations = violation_reasons rs\<rparr> \<in> set (fd_soft_violations (snd out'))"
  using assms
proof (induction df arbitrary: out)
  case Nil
  then show ?case by simp
next
  case (Cons e df)
  from Cons.prems(1) obtain res where fr: "filter_row B P ctx e = Some res"
    and rest: "filter_rows B P ctx df (record_row res out) = Some out'"
    by (auto split: option.splits)
  show ?case
  proof (cases "entry = e")
    case True
    then have res: "res = (name, rs)" using fr Cons.prems(3) by simp
    have "\<lparr>sv_variant_id = variant_id_of name, sv_variant_name = name,
           sv_violations = violation_reasons rs\<rparr>
          \<in> set (fd_soft_violations (snd (record_row res out)))"
      using Cons.prems(4,5) by (simp add: res record_row_def Let_def)
    then show ?thesis using filter_rows_soft_mono[OF rest] by blast
  next
    case False
    then have "entry \<in> set df" using Cons.prems(2) by simp
    then show ?thesis using Cons.IH[OF rest _ Cons.prems(3-5)] by simp
  qed
qed

lemma filter_rows_defined:
  "filter_rows B P ctx df out = Some out' \<Longrightarrow> entry \<in> set df \<Longrightarrow>
   \<exists>name rs. filter_row B P ctx entry = Some (name, rs)"
proof (induction df arbitrary: out)
  case Nil
  then show ?case by simp
next
  case (Cons e df)
  from Cons.prems(1) obtain res where fr: "filter_row B P ctx e = Some res"
    and rest: "filter_rows B P ctx df (record_row res out) = Some out'"
    by (auto split: option.splits)
  show ?case
  proof (cases "entry = e")
    case True
    then show ?thesis using fr by (cases res) simp
  next
    case False
    then have "entry \<in> set df" using Cons.prems(2) by simp
    then show ?thesis by (rule Cons.IH[OF rest])
  qed
qed

lemma removed_by_empty:
  "removed_by fd b = [] \<longleftrightarrow> b \<notin> fst ` set (fd_removed fd)"
  by (force simp: removed_by_def filter_empty_conv)

lemmas filter_defs = filter_priority_def filter_priorities_def default_priorities_def
  filter_exploration_rate_def filter_exploration_norm_def filter_strictness_def
  promotable_keys_def promoted_keys_def must_have_prefs_def filter_budget_tolerance_def
  ex_strict_config_def ex_config_def ex_filter_context_def dict_get_def Let_def

lemma ex_strictness:
  "filter_strictness (Some ex_strict_config) ''fuel_type'' = 0.787"
  "filter_strictness (Some ex_strict_config) ''transmission'' = 0.57"
  "filter_strictness (Some ex_strict_config) ''body_type'' = 0.5"
  "filter_strictness (Some ex_strict_config) ''seating'' = 0.5"
  "filter_strictness (Some ex_strict_config) ''budget'' = 0.5"
  "filter_strictness (Some ex_strict_config) ''features'' = 0.5"
  "filter_strictness (Some ex_strict_config) ''performance'' = 0.5"
  by (simp_all add: filter_defs)

lemma ex_must_have: "must_have_prefs ex_filter_context = [''fuel_type'']"
  using ex_strictness
  by (simp add: must_have_prefs_def promoted_keys_def promotable_keys_def ex_filter_context_def)

lemma ex_tolerance: "filter_budget_tolerance (Some ex_strict_config) = 1.23"
  by (simp add: filter_defs)

lemma ex_diesel_result:
  "filter_row ex_builtins ex_preferences ex_filter_context (0, ex_diesel_row)
   = Some (''Tata Nexon XZ'',
       \<lparr>should_keep = False, violation_reasons = [],
        removals = [(''removed_by_fuel'',
          [(''variant'', DVal (PStr ''Tata Nexon XZ'')),
           (''variant_fuel'', DVal (PStr ''diesel'')),
           (''required_fuel'', DVal (PStr ''Petrol''))])]\<rparr>)"
  by (simp add: filter_row_def ex_must_have ex_tolerance Let_def ex_diesel_row_def ex_preferences_def
      row_variant_name_def check_budget_def check_text_def check_seating_def check_features_block_def
      check_brand_def check_performance_def text_matches_def row_text_def fuzzy_match_def
      fuel_mappings_def body_mappings_def trans_mappings_def dict_get_def remove_row_def
      add_violation_def lower_def lower_char_def
      ex_filter_context_def[THEN arg_cong, of ctx_user_control_config]
      ex_filter_context_def[THEN arg_cong, of ctx_must_have_features])

lemma ex_manual_result:
  "filter_row ex_builtins ex_preferences ex_filter_context (1, ex_manual_row)
   = Some (''Kia Sonet HTK'',
       \<lparr>should_keep = True,
        violation_reasons =
          [\<lparr>v_type = ''transmission'', v_severity = ''medium'',
            v_message = [DVal (PStr ''manual''), DVal (PStr ''Automatic'')]\<rparr>],
        removals = []\<rparr>)"
  by (simp add: filter_row_def ex_must_have ex_tolerance ex_strictness Let_def ex_manual_row_def
      ex_preferences_def
      row_variant_name_def check_budget_def check_text_def check_seating_def check_features_block_def
      check_brand_def check_performance_def text_matches_def row_text_def fuzzy_match_def
      fuel_mappings_def body_mappings_def trans_mappings_def dict_get_def remove_row_def
      add_violation_def lower_def lower_char_def
      ex_filter_context_def[THEN arg_cong, of ctx_user_control_config]
      ex_filter_context_def[THEN arg_cong, of ctx_must_have_features])

lemma ex_filter_run:
  "filter_variants ex_builtins ex_filter_rows ex_preferences ex_filter_context
   = Some ([''variant_Kia_Sonet_HTK''], ex_filter_details)"
  by (simp add: filter_variants_def ex_filter_rows_def ex_diesel_result ex_manual_result
      record_row_def Let_def variant_id_of_def ex_filter_details_def)

lemma ex_mismatches:
  "mismatch ex_builtins ex_preferences ex_diesel_row ''fuel_type''"
  "mismatch ex_builtins ex_preferences ex_manual_row ''transmission''"
  by (simp_all add: mismatch_def text_mismatch_def ex_preferences_def ex_diesel_row_def
      ex_manual_row_def text_matches_def row_text_def fuzzy_match_def fuel_mappings_def
      trans_mappings_def dict_get_def lower_def lower_char_def Let_def)

lemma ex_config_facts:
  "ctx_user_control_config ex_filter_context = Some ex_strict_config"
  "ctx_must_have_preferences ex_filter_context = []"
  "exploration_rate_set ex_strict_config"
  "exploration_rate ex_strict_config = 0.25"
  "scoring_priorities ex_strict_config = [(''fuel_type'', 0.91), (''transmission'', 0.6)]"
  by (simp_all add: ex_filter_context_def ex_strict_config_def)

text \<open>
  \<^bold>\<open>C4.\<close> The filter blends priority and exploration rate with the weights 0.7 and
  0.3, where the claim, like every other blend of the repository, has 0.68 and 0.32.  With
  priority 0.91 on the fuel type and exploration rate 0.25 the filter computes the
  strictness 0.787, promotes the fuel type to a hard filter and removes a diesel car for a
  petrol preference; the claimed blend gives 0.7788, below the threshold 0.78, for which
  the car is kept with a soft violation.
\<close>

theorem strictness_blend_diverges:
  "filter_priority (Some ex_strict_config) ''fuel_type'' = 0.91
   \<and> filter_exploration_rate (Some ex_strict_config) = 0.25
   \<and> claimed_strictness 0.91 0.25 = 0.7788
   \<and> filter_strictness (Some ex_strict_config) ''fuel_type'' = 0.787
   \<and> \<not> claimed_strictness 0.91 0.25 \<ge> 0.78
   \<and> mismatch ex_builtins ex_preferences ex_diesel_row ''fuel_type''
   \<and> filter_variants ex_builtins [(0, ex_diesel_row)] ex_preferences ex_filter_context
       = Some ([], \<lparr>fd_removed =
                      [(''removed_by_fuel'',
                        [(''variant'', DVal (PStr ''Tata Nexon XZ'')),
                         (''variant_fuel'', DVal (PStr ''diesel'')),
                         (''required_fuel'', DVal (PStr ''Petrol''))])],
                    fd_soft_violations = []\<rparr>)"
proof -
  have "filter_priority (Some ex_strict_config) ''fuel_type'' = 0.91"
    "filter_exploration_rate (Some ex_strict_config) = 0.25"
    by (simp_all add: filter_defs)
  moreover have "claimed_strictness 0.91 0.25 = 0.7788"
    by (simp add: claimed_strictness_def)
  moreover have "\<not> claimed_strictness 0.91 0.25 \<ge> 0.78"
    by (simp add: claimed_strictness_def)
  moreover have "filter_variants ex_builtins [(0, ex_diesel_row)] ex_preferences ex_filter_context
       = Some ([], \<lparr>fd_removed =
                      [(''removed_by_fuel'',
                        [(''variant'', DVal (PStr ''Tata Nexon XZ'')),
                         (''variant_fuel'', DVal (PStr ''diesel'')),
                         (''required_fuel'', DVal (PStr ''Petrol''))])],
                    fd_soft_violations = []\<rparr>)"
    by (simp add: filter_variants_def ex_diesel_result record_row_def Let_def)
  ultimately show ?thesis
    using ex_strictness(1) ex_mismatches(1) by blast
qed

text \<open>
  What the filter does with its own blend.  For a run of \<open>filter_variants\<close> that
  returns, a configuration with \<open>exploration_rate_set\<close> that gives the dimension \<open>d\<close>
  (fuel type, body type, transmission or seating) the priority \<open>p\<close> in [0, 1] and has
  the exploration rate \<open>e\<close> in (0, 0.5]: the strictness of \<open>d\<close> is
  \<open>0.7 * p + 0.3 * (1 - e / 0.5)\<close>; \<open>d\<close> is a must-have exactly when the context
  lists it or that strictness is at least 0.78; the kept ids are those of the rows that
  pass every check; when \<open>d\<close> is a must-have no mismatching row is kept; when it is not,
  no row is removed for \<open>d\<close> and every kept row that mismatches on \<open>d\<close> has a soft
  violation of type \<open>d\<close>.
\<close>

lemma strictness_promotion:
  assumes run: "filter_variants B df P ctx = Some (kept, fd)"
    and cfg: "ctx_user_control_config ctx = Some c" "exploration_rate_set c"
      "distinct (map fst (scoring_priorities c))"
    and p: "map_of (scoring_priorities c) d = Some p" "0 \<le> p" "p \<le> 1"
    and e: "0 < exploration_rate c" "exploration_rate c \<le> 0.5"
    and d: "d \<in> {''fuel_type'', ''body_type'', ''transmission'', ''seating''}"
  shows "filter_strictness (Some c) d = 0.7 * p + 0.3 * (1 - exploration_rate c / 0.5)
    \<and> (d \<in> set (must_have_prefs ctx) \<longleftrightarrow>
         d \<in> set (ctx_must_have_preferences ctx)
         \<or> 0.7 * p + 0.3 * (1 - exploration_rate c / 0.5) \<ge> 0.78)
    \<and> kept = map row_id (filter (keeps_row B P ctx) df)
    \<and> (d \<in> set (must_have_prefs ctx) \<longrightarrow>
         (\<forall>entry \<in> set df. mismatch B P (snd entry) d \<longrightarrow> \<not> keeps_row B P ctx entry))
    \<and> (d \<notin> set (must_have_prefs ctx) \<longrightarrow>
         removed_by fd (bucket_of d) = []
         \<and> (\<forall>entry \<in> set df. keeps_row B P ctx entry \<and> mismatch B P (snd entry) d \<longrightarrow>
               (\<exists>sv \<in> set (fd_soft_violations fd).
                  sv_variant_id sv = row_id entry
                  \<and> (\<exists>v \<in> set (sv_violations sv). v_type v = d))))"
proof -
  let ?out0 = "([], \<lparr>fd_removed = [], fd_soft_violations = []\<rparr>)"
  have rows: "filter_rows B P ctx df ?out0 = Some (kept, fd)"
    using run by (simp add: filter_variants_def)
  have st: "filter_strictness (Some c) d = 0.7 * p + 0.3 * (1 - exploration_rate c / 0.5)"
    by (rule filter_strictness_given[OF cfg(2,3) p e])
  have pk: "d \<in> set promotable_keys"
    using d by (auto simp: promotable_keys_def)
  have mh: "d \<in> set (must_have_prefs ctx) \<longleftrightarrow>
         d \<in> set (ctx_must_have_preferences ctx)
         \<or> 0.7 * p + 0.3 * (1 - exploration_rate c / 0.5) \<ge> 0.78"
    using must_have_prefs_iff[OF pk, of ctx] by (simp only: cfg(1) st)
  have kp: "kept = map row_id (filter (keeps_row B P ctx) df)"
    using filter_rows_kept[OF rows] by simp
  have hard: "\<forall>entry \<in> set df. mismatch B P (snd entry) d \<longrightarrow> \<not> keeps_row B P ctx entry"
    if m: "d \<in> set (must_have_prefs ctx)"
  proof (intro ballI impI)
    fix entry assume en: "entry \<in> set df" and mm: "mismatch B P (snd entry) d"
    from filter_rows_defined[OF rows en] obtain name rs
      where fr: "filter_row B P ctx entry = Some (name, rs)" by blast
    then have fr': "filter_row B P ctx (fst entry, snd entry) = Some (name, rs)" by simp
    have "\<not> should_keep rs" by (rule filter_row_dimension(3)[OF fr' d m mm])
    then show "\<not> keeps_row B P ctx entry" by (simp add: keeps_row_def fr)
  qed
  have soft: "removed_by fd (bucket_of d) = []
         \<and> (\<forall>entry \<in> set df. keeps_row B P ctx entry \<and> mismatch B P (snd entry) d \<longrightarrow>
               (\<exists>sv \<in> set (fd_soft_violations fd).
                  sv_variant_id sv = row_id entry
                  \<and> (\<exists>v \<in> set (sv_violations sv). v_type v = d)))"
    if m: "d \<notin> set (must_have_prefs ctx)"
  proof (intro conjI ballI impI)
    have "\<forall>entry \<in> set df. \<forall>name rs. filter_row B P ctx entry = Some (name, rs)
            \<longrightarrow> bucket_of d \<notin> buckets rs"
    proof (intro ballI allI impI)
      fix entry name rs assume "filter_row B P ctx entry = Some (name, rs)"
      then have "filter_row B P ctx (fst entry, snd entry) = Some (name, rs)" by simp
      then show "bucket_of d \<notin> buckets rs" by (rule filter_row_dimension(1)[OF _ d m])
    qed
    from filter_rows_bucket[OF rows this]
    have "bucket_of d \<notin> fst ` set (fd_removed fd)" by simp
    then show "removed_by fd (bucket_of d) = []" by (rule removed_by_empty[THEN iffD2])
  next
    fix entry assume en: "entry \<in> set df"
      and km: "keeps_row B P ctx entry \<and> mismatch B P (snd entry) d"
    from filter_rows_defined[OF rows en] obtain name rs
      where fr: "filter_row B P ctx entry = Some (name, rs)" by blast
    then have fr': "filter_row B P ctx (fst entry, snd entry) = Some (name, rs)" by simp
    have keep: "should_keep rs" using km by (simp add: keeps_row_def fr)
    have v: "\<exists>v \<in> set (violation_reasons rs). v_type v = d"
      using filter_row_dimension(2)[OF fr' d m keep] km by blast
    then have ne: "violation_reasons rs \<noteq> []" by auto
    let ?sv = "\<lparr>sv_variant_id = variant_id_of name, sv_variant_name = name,
                sv_violations = violation_reasons rs\<rparr>"
    have "?sv \<in> set (fd_soft_violations fd)"
      using filter_rows_soft[OF rows en fr keep ne] by simp
    moreover have "sv_variant_id ?sv = row_id entry"
      using filter_row_name[OF fr] by (simp add: row_id_def)
    moreover have "\<exists>v \<in> set (sv_violations ?sv). v_type v = d"
      using v by simp
    ultimately show "\<exists>sv \<in> set (fd_soft_violations fd).
                  sv_variant_id sv = row_id entry
                  \<and> (\<exists>v \<in> set (sv_violations sv). v_type v = d)"
      by blast
  qed
  show ?thesis
    using st mh kp hard soft by blast
qed

lemma strictness_promotion_example:
  "filter_variants ex_builtins ex_filter_rows ex_preferences ex_filter_context
     = Some ([''variant_Kia_Sonet_HTK''], ex_filter_details)
   \<and> filter_strictness (Some ex_strict_config) ''fuel_type'' = 0.787
   \<and> ''fuel_type'' \<in> set (must_have_prefs ex_filter_context)
   \<and> mismatch ex_builtins ex_preferences ex_diesel_row ''fuel_type''
   \<and> \<not> keeps_row ex_builtins ex_preferences ex_filter_context (0, ex_diesel_row)
   \<and> filter_strictness (Some ex_strict_config) ''transmission'' = 0.57
   \<and> ''transmission'' \<notin> set (must_have_prefs ex_filter_context)
   \<and> mismatch ex_builtins ex_preferences ex_manual_row ''transmission''
   \<and> keeps_row ex_builtins ex_preferences ex_filter_context (1, ex_manual_row)
   \<and> removed_by ex_filter_details ''removed_by_transmission'' = []
   \<and> (\<exists>sv \<in> set (fd_soft_violations ex_filter_details).
         sv_variant_id sv = row_id (1, ex_manual_row)
         \<and> (\<exists>v \<in> set (sv_violations sv). v_type v = ''transmission''))"
proof -
  note cf = ex_config_facts
  have dist: "distinct (map fst (scoring_priorities ex_strict_config))"
    by (simp add: cf)
  have e: "0 < exploration_rate ex_strict_config" "exploration_rate ex_strict_config \<le> 0.5"
    by (simp_all add: cf)
  have pf: "map_of (scoring_priorities ex_strict_config) ''fuel_type'' = Some 0.91"
    "(0::real) \<le> 0.91" "(0.91::real) \<le> 1"
    by (simp_all add: cf)
  have pt: "map_of (scoring_priorities ex_strict_config) ''transmission'' = Some 0.6"
    "(0::real) \<le> 0.6" "(0.6::real) \<le> 1"
    by (simp_all add: cf)
  have df: "''fuel_type'' \<in> {''fuel_type'', ''body_type'', ''transmission'', ''seating''}"
    and dt: "''transmission'' \<in> {''fuel_type'', ''body_type'', ''transmission'', ''seating''}"
    by simp_all
  note F = strictness_promotion[OF ex_filter_run cf(1) cf(3) dist pf e df]
  note T = strictness_promotion[OF ex_filter_run cf(1) cf(3) dist pt e dt]
  have s1: "filter_strictness (Some ex_strict_config) ''fuel_type'' = 0.787"
    using F[THEN conjunct1] by (simp add: cf)
  have m1: "''fuel_type'' \<in> set (must_have_prefs ex_filter_context)"
    using F[THEN conjunct2, THEN conjunct1] by (simp add: cf)
  have k1: "\<not> keeps_row ex_builtins ex_preferences ex_filter_context (0, ex_diesel_row)"
    using F[THEN conjunct2, THEN conjunct2, THEN conjunct2, THEN conjunct1] m1 ex_mismatches(1)
    by (simp add: ex_filter_rows_def)
  have s2: "filter_strictness (Some ex_strict_config) ''transmission'' = 0.57"
    using T[THEN conjunct1] by (simp add: cf)
  have m2: "''transmission'' \<notin> set (must_have_prefs ex_filter_context)"
    using T[THEN conjunct2, THEN conjunct1] by (simp add: cf)
  have k2: "keeps_row ex_builtins ex_preferences ex_filter_context (1, ex_manual_row)"
    by (simp add: keeps_row_def ex_manual_result)
  have b: "bucket_of ''transmission'' = ''removed_by_transmission''"
    by (simp add: bucket_of_def)
  have soft: "removed_by ex_filter_details ''removed_by_transmission'' = []
     \<and> (\<exists>sv \<in> set (fd_soft_violations ex_filter_details).
         sv_variant_id sv = row_id (1, ex_manual_row)
         \<and> (\<exists>v \<in> set (sv_violations sv). v_type v = ''transmission''))"
    using T[THEN conjunct2, THEN conjunct2, THEN conjunct2, THEN conjunct2] m2 k2 ex_mismatches(2)
    by (simp add: ex_filter_rows_def b)
  show ?thesis
    using ex_filter_run s1 m1 ex_mismatches k1 s2 m2 k2 soft by blast
qed

section \<open>Properties of the recommendation pipeline\<close>






























end
